(* ===== verification/Ghost_Prelude.thy ===== *)
theory Ghost_Prelude
  imports Main "HOL-Library.Word" "HOL-Library.Monad_Syntax"
begin

text \<open>
  What the components share: the machine integers of the Rust sources at their width, the
  arithmetic of the Rust standard library on them, loops whose body may panic, fixed hashes
  and their bytes, and sums over finite maps.

  A Rust computation that may panic is a value of type \<open>'a option\<close>: \<^const>\<open>None\<close> is the
  panic. Whether an overflowing \<open>+\<close>, \<open>-\<close> or \<open>*\<close> panics or wraps around is decided by the
  build profile (\<open>overflow-checks\<close>: on in a debug or test build, off in a release build, and
  the workspace's \<open>Cargo.toml\<close> does not set it), so the operators below take it as their first
  argument.
\<close>

type_synonym u8 = "8 word"
type_synonym u32 = "32 word"
type_synonym u64 = "64 word"
type_synonym u128 = "128 word"
type_synonym bytes = "u8 list"

named_theorems rust_arith \<open>Rust's integer operations when no overflow happens\<close>
named_theorems unat_rules \<open>the value of a word operation as a natural number\<close>

section \<open>Operators whose overflow depends on the build profile\<close>

definition add_w :: "bool \<Rightarrow> 'a::len word \<Rightarrow> 'a word \<Rightarrow> 'a word option" where
  "add_w chk a b = (if chk \<and> 2 ^ LENGTH('a) \<le> unat a + unat b then None else Some (a + b))"

definition sub_w :: "bool \<Rightarrow> 'a::len word \<Rightarrow> 'a word \<Rightarrow> 'a word option" where
  "sub_w chk a b = (if chk \<and> unat a < unat b then None else Some (a - b))"

definition mul_w :: "bool \<Rightarrow> 'a::len word \<Rightarrow> 'a word \<Rightarrow> 'a word option" where
  "mul_w chk a b = (if chk \<and> 2 ^ LENGTH('a) \<le> unat a * unat b then None else Some (a * b))"

text \<open>A division by zero panics under every profile.\<close>

definition div_w :: "'a::len word \<Rightarrow> 'a word \<Rightarrow> 'a word option" where
  "div_w a b = (if b = 0 then None else Some (a div b))"

lemma add_w_fits [rust_arith]:
  "unat a + unat b < 2 ^ LENGTH('a) \<Longrightarrow> add_w chk a b = Some (a + b :: 'a::len word)"
  by (simp add: add_w_def)

lemma sub_w_fits [rust_arith]: "unat b \<le> unat a \<Longrightarrow> sub_w chk a b = Some (a - b)"
  by (simp add: sub_w_def)

lemma mul_w_fits [rust_arith]:
  "unat a * unat b < 2 ^ LENGTH('a) \<Longrightarrow> mul_w chk a b = Some (a * b :: 'a::len word)"
  by (simp add: mul_w_def)

lemma div_w_nonzero [rust_arith]: "b \<noteq> 0 \<Longrightarrow> div_w a b = Some (a div b)"
  by (simp add: div_w_def)

lemma add_w_release [simp]: "add_w False a b = Some (a + b)"
  by (simp add: add_w_def)

lemma mul_w_release [simp]: "mul_w False a b = Some (a * b)"
  by (simp add: mul_w_def)

lemma sub_w_release [simp]: "sub_w False a b = Some (a - b)"
  by (simp add: sub_w_def)

lemma unat_add_fits [unat_rules]:
  "unat a + unat b < 2 ^ LENGTH('a) \<Longrightarrow> unat (a + b :: 'a::len word) = unat a + unat b"
  by (rule unat_add_lem [THEN iffD1])

lemma unat_mult_fits [unat_rules]:
  "unat a * unat b < 2 ^ LENGTH('a) \<Longrightarrow> unat (a * b :: 'a::len word) = unat a * unat b"
  by (rule unat_mult_lem [THEN iffD1])

lemma unat_sub_fits [unat_rules]:
  "unat b \<le> unat a \<Longrightarrow> unat (a - b :: 'a::len word) = unat a - unat b"
  by (simp add: unat_sub word_le_nat_alt)

lemma unat_bound: "unat (a :: 'a::len word) < 2 ^ LENGTH('a)"
  by (rule unsigned_less)

lemma unat_u64_max: "unat (a :: u64) \<le> 18446744073709551615"
  using unat_bound [of a] by simp

lemma unat_u128_max: "unat (a :: u128) \<le> 340282366920938463463374607431768211455"
  using unat_bound [of a] by simp

section \<open>Saturating and checked operations\<close>

definition saturating_add :: "'a::len word \<Rightarrow> 'a word \<Rightarrow> 'a word" where
  "saturating_add a b = (if 2 ^ LENGTH('a) \<le> unat a + unat b then - 1 else a + b)"

definition saturating_sub :: "'a::len word \<Rightarrow> 'a word \<Rightarrow> 'a word" where
  "saturating_sub a b = (if unat a < unat b then 0 else a - b)"

definition saturating_mul :: "'a::len word \<Rightarrow> 'a word \<Rightarrow> 'a word" where
  "saturating_mul a b = (if 2 ^ LENGTH('a) \<le> unat a * unat b then - 1 else a * b)"

text \<open>On unsigned integers \<open>saturating_div\<close> is plain division (by a non-zero constant here).\<close>

definition saturating_div :: "'a::len word \<Rightarrow> 'a word \<Rightarrow> 'a word" where
  "saturating_div a b = a div b"

definition checked_sub :: "'a::len word \<Rightarrow> 'a word \<Rightarrow> 'a word option" where
  "checked_sub a b = (if unat a < unat b then None else Some (a - b))"

definition checked_add :: "'a::len word \<Rightarrow> 'a word \<Rightarrow> 'a word option" where
  "checked_add a b = (if 2 ^ LENGTH('a) \<le> unat a + unat b then None else Some (a + b))"

text \<open>\<open>saturated_into\<close>: a conversion that stops at the target type's greatest value.\<close>

definition saturated_into :: "'a::len word \<Rightarrow> 'b::len word" where
  "saturated_into a = (if 2 ^ LENGTH('b) \<le> unat a then - 1 else of_nat (unat a))"

lemma unat_minus_one_max: "unat (- 1 :: 'a::len word) = 2 ^ LENGTH('a) - 1"
  by (simp add: unsigned_minus_1_eq_mask mask_eq_exp_minus_1)

lemma unat_saturating_add [unat_rules]:
  "unat (saturating_add a b :: 'a::len word) = min (2 ^ LENGTH('a) - 1) (unat a + unat b)"
proof (cases "2 ^ LENGTH('a) \<le> unat a + unat b")
  case True
  then have "2 ^ LENGTH('a) - 1 \<le> unat a + unat b" by (rule order.trans [OF diff_le_self])
  with True show ?thesis by (simp add: saturating_add_def unat_minus_one_max)
next
  case False
  then show ?thesis using unat_add_fits [of a b] by (simp add: saturating_add_def)
qed

lemma unat_saturating_sub [unat_rules]: "unat (saturating_sub a b) = unat a - unat b"
  using unat_sub_fits [of b a] by (simp add: saturating_sub_def)

lemma unat_saturating_mul [unat_rules]:
  "unat (saturating_mul a b :: 'a::len word) = min (2 ^ LENGTH('a) - 1) (unat a * unat b)"
proof (cases "2 ^ LENGTH('a) \<le> unat a * unat b")
  case True
  then have "2 ^ LENGTH('a) - 1 \<le> unat a * unat b" by (rule order.trans [OF diff_le_self])
  with True show ?thesis by (simp add: saturating_mul_def unat_minus_one_max)
next
  case False
  then show ?thesis using unat_mult_fits [of a b] by (simp add: saturating_mul_def)
qed

lemma unat_saturating_div [unat_rules]: "unat (saturating_div a b) = unat a div unat b"
  by (simp add: saturating_div_def unat_div)

lemma unat_saturated_into [unat_rules]:
  "unat (saturated_into (a :: 'a::len word) :: 'b::len word) = min (2 ^ LENGTH('b) - 1) (unat a)"
proof (cases "2 ^ LENGTH('b) \<le> unat a")
  case True
  then have "2 ^ LENGTH('b) - 1 \<le> unat a" by (rule order.trans [OF diff_le_self])
  with True show ?thesis by (simp add: saturated_into_def unat_minus_one_max)
next
  case False
  then have "unat a < 2 ^ LENGTH('b)" by simp
  then show ?thesis
    by (simp add: saturated_into_def unsigned_ucast_eq take_bit_nat_eq_self_iff)
qed

lemma unat_max [unat_rules]: "unat (max a b) = max (unat a) (unat b)"
  by (simp add: max_def word_le_nat_alt)

lemma unat_min [unat_rules]: "unat (min a b) = min (unat a) (unat b)"
  by (simp add: min_def word_le_nat_alt)

lemma saturated_into_same [simp]: "saturated_into (a :: 'a::len word) = (a :: 'a word)"
  using unat_bound [of a] by (auto simp: saturated_into_def simp flip: not_less)

lemma saturating_sub_fits: "unat b \<le> unat a \<Longrightarrow> saturating_sub a b = a - b"
  by (simp add: saturating_sub_def)

lemmas word_to_nat = word_le_nat_alt word_less_nat_alt word_unat_eq_iff

text \<open>A result without a payload is a success when it is no error.\<close>

lemma not_Inl_unit [simp]: "(\<forall>e. r \<noteq> Inl e) \<longleftrightarrow> r = Inr ()" for r :: "'e + unit"
  by (cases r) auto

section \<open>Hashes and their bytes\<close>

text \<open>
  \<open>H256\<close>, and a \<open>[u8; 32]\<close> returned by a hash function, is a 256-bit word read big-endian:
  byte 0 is the most significant one. The hash functions themselves are parameters of the model.
\<close>

type_synonym H256 = "256 word"

definition as_bytes :: "H256 \<Rightarrow> bytes" where
  "as_bytes h = map (\<lambda>i. ucast (drop_bit (8 * (31 - i)) h)) [0..<32]"

definition u64_from_be_bytes :: "bytes \<Rightarrow> u64" where
  "u64_from_be_bytes bs = foldl (\<lambda>acc b. or (push_bit 8 acc) (ucast b)) 0 bs"

text \<open>\<open>u64::from_be_bytes(h.as_bytes()[0..8].try_into().unwrap_or_default())\<close>\<close>

definition hash_prefix :: "H256 \<Rightarrow> u64" where
  "hash_prefix h =
     (let slice = take 8 (as_bytes h)
      in if length slice = 8 then u64_from_be_bytes slice else u64_from_be_bytes (replicate 8 0))"

lemma length_as_bytes [simp]: "length (as_bytes h) = 32"
  by (simp add: as_bytes_def)

lemma be_bytes_step:
  fixes h :: H256
  shows "or (push_bit 8 (ucast (drop_bit (m + 8) h) :: u64)) (ucast (ucast (drop_bit m h) :: u8))
    = ucast (drop_bit m h)"
  by (rule bit_word_eqI) (auto simp: bit_simps ac_simps)

lemma be_bytes_start: "ucast (ucast (drop_bit 248 (h :: H256)) :: u8) = (ucast (drop_bit 248 h) :: u64)"
  by (rule bit_word_eqI) (auto simp: bit_simps dest: bit_imp_le_length)

text \<open>The first eight bytes, read big-endian, are the 64 most significant bits.\<close>

lemma hash_prefix_eq: "hash_prefix h = ucast (drop_bit 192 h)"
proof -
  have bytes: "take 8 (as_bytes h) =
      map (\<lambda>k. ucast (drop_bit k h)) [248, 240, 232, 224, 216, 208, 200, 192]"
    by (simp add: as_bytes_def take_map upt_conv_Cons)
  show ?thesis
    using be_bytes_step [of 240 h] be_bytes_step [of 232 h] be_bytes_step [of 224 h]
      be_bytes_step [of 216 h] be_bytes_step [of 208 h] be_bytes_step [of 200 h]
      be_bytes_step [of 192 h]
    by (simp add: hash_prefix_def bytes u64_from_be_bytes_def be_bytes_start)
qed

lemma hash_prefix_zero [simp]: "hash_prefix 0 = 0"
  by (simp add: hash_prefix_eq)

lemma hash_prefix_max [simp]: "hash_prefix (- 1) = - 1"
  by (simp add: hash_prefix_eq) (rule bit_word_eqI, simp add: bit_simps)

section \<open>Loops whose body may panic\<close>

primrec for_each :: "('a \<Rightarrow> 's \<Rightarrow> 's option) \<Rightarrow> 'a list \<Rightarrow> 's \<Rightarrow> 's option" where
  "for_each body [] s = Some s"
| "for_each body (x # xs) s = Option.bind (body x s) (for_each body xs)"

lemma for_each_append:
  "for_each body (xs @ ys) s = Option.bind (for_each body xs s) (for_each body ys)"
  by (induction xs arbitrary: s) (auto split: Option.bind_split)

lemma for_each_invariant:
  assumes "\<And>x s s'. x \<in> set xs \<Longrightarrow> I s \<Longrightarrow> body x s = Some s' \<Longrightarrow> I s'"
    and "I s" and "for_each body xs s = Some s'"
  shows "I s'"
  using assms
proof (induction xs arbitrary: s)
  case (Cons x xs)
  then show ?case by (auto simp: bind_eq_Some_conv)
qed simp

lemma for_each_total:
  assumes "\<And>x s. x \<in> set xs \<Longrightarrow> I s \<Longrightarrow> \<exists>s'. body x s = Some s' \<and> I s'" and "I s"
  shows "\<exists>s'. for_each body xs s = Some s' \<and> I s'"
  using assms
proof (induction xs arbitrary: s)
  case (Cons x xs)
  then obtain s1 where "body x s = Some s1" "I s1" by fastforce
  then show ?case using Cons.IH [of s1] Cons.prems(1) by auto
qed simp

lemma for_each_pure:
  "(\<And>x s. x \<in> set xs \<Longrightarrow> body x s = Some (f x s)) \<Longrightarrow> for_each body xs s = Some (fold f xs s)"
  by (induction xs arbitrary: s) auto

section \<open>Sums over the values of a map\<close>

definition sum_values :: "('k \<rightharpoonup> 'a::len word) \<Rightarrow> nat" where
  "sum_values m = (\<Sum>k \<in> dom m. unat (the (m k)))"

definition value_at :: "('k \<rightharpoonup> 'a::len word) \<Rightarrow> 'k \<Rightarrow> nat" where
  "value_at m k = (case m k of None \<Rightarrow> 0 | Some v \<Rightarrow> unat v)"

lemma value_at_simps [simp]:
  "m k = None \<Longrightarrow> value_at m k = 0"
  "m k = Some v \<Longrightarrow> value_at m k = unat v"
  by (simp_all add: value_at_def)

lemma sum_values_empty [simp]: "sum_values Map.empty = 0"
  by (simp add: sum_values_def)

lemma sum_values_update:
  assumes "finite (dom m)"
  shows "sum_values (m(k \<mapsto> v)) + value_at m k = sum_values m + unat v"
proof -
  have rest: "(\<Sum>x \<in> dom m - {k}. unat (the ((m(k \<mapsto> v)) x))) = (\<Sum>x \<in> dom m - {k}. unat (the (m x)))"
    by (rule sum.cong) auto
  have "sum_values (m(k \<mapsto> v)) = unat v + (\<Sum>x \<in> dom m - {k}. unat (the (m x)))"
    using assms rest by (simp add: sum_values_def sum.insert_remove)
  moreover have "sum_values m = value_at m k + (\<Sum>x \<in> dom m - {k}. unat (the (m x)))"
  proof (cases "m k")
    case None
    then show ?thesis by (simp add: sum_values_def domIff)
  next
    case (Some w)
    then show ?thesis
      using assms sum.remove [of "dom m" k "\<lambda>k. unat (the (m k))"]
      by (auto simp: sum_values_def)
  qed
  ultimately show ?thesis by simp
qed

lemma value_at_le_sum: "finite (dom m) \<Longrightarrow> value_at m k \<le> sum_values m"
  using member_le_sum [of k "dom m" "\<lambda>k. unat (the (m k))"]
  by (cases "m k") (auto simp: sum_values_def domIff)

lemma value_at_update: "value_at (m(k \<mapsto> v)) = (value_at m)(k := unat v)"
  by (auto simp: value_at_def fun_eq_iff)

lemma sum_values_pos: "finite (dom m) \<Longrightarrow> 0 < sum_values m \<longleftrightarrow> (\<exists>a. 0 < value_at m a)"
  for m :: "'k \<rightharpoonup> 'a::len word"
proof
  assume fin: "finite (dom m)"
  show "0 < sum_values m" if "\<exists>a. 0 < value_at m a"
    using that value_at_le_sum [OF fin] by (meson less_le_trans)
  show "\<exists>a. 0 < value_at m a" if "0 < sum_values m"
  proof (rule ccontr)
    assume "\<nexists>a. 0 < value_at m a"
    then have none: "value_at m k = 0" for k by auto
    have "unat (the (m k)) = 0" if "k \<in> dom m" for k using none [of k] that by auto
    then have "sum_values m = 0" unfolding sum_values_def by (rule sum.neutral [OF ballI])
    with that show False by simp
  qed
qed

section \<open>Systems with an invariant\<close>

text \<open>
  The contract every state machine of the development is shown to meet: an invariant that each
  step keeps. What the client gets is the invariant in every state a run reaches.
\<close>

locale invariant_system =
  fixes step :: "'s \<Rightarrow> 's \<Rightarrow> bool"
    and inv :: "'s \<Rightarrow> bool"
  assumes step_keeps: "inv s \<Longrightarrow> step s t \<Longrightarrow> inv t"
begin

lemma run_keeps: "step\<^sup>*\<^sup>* s t \<Longrightarrow> inv s \<Longrightarrow> inv t"
  by (induction rule: rtranclp_induct) (auto intro: step_keeps)

end

text \<open>
  Refinement: under an observation of the state every concrete step is a step of the specification
  or leaves the observation as it is. The client gets that every run is observed as a run of the
  specification, and that an invariant of the specification holds of what is observed.
\<close>

locale refinement =
  fixes astep :: "'a \<Rightarrow> 'a \<Rightarrow> bool" and cstep :: "'c \<Rightarrow> 'c \<Rightarrow> bool" and observe :: "'c \<Rightarrow> 'a"
  assumes step_refines: "cstep s t \<Longrightarrow> observe t = observe s \<or> astep (observe s) (observe t)"
begin

lemma run_refines: "cstep\<^sup>*\<^sup>* s t \<Longrightarrow> astep\<^sup>*\<^sup>* (observe s) (observe t)"
proof (induction rule: rtranclp_induct)
  case (step t u)
  with step_refines [OF step(2)] show ?case by auto
qed simp

end

locale refined_invariant = refinement + spec: invariant_system astep ainv for ainv
begin

lemma observed_invariant: "cstep\<^sup>*\<^sup>* s t \<Longrightarrow> ainv (observe s) \<Longrightarrow> ainv (observe t)"
  by (rule spec.run_keeps [OF run_refines])

end

end
