(* ===== verification/Ghost_Types.thy ===== *)
theory Ghost_Types
  imports Ghost_Prelude
begin

text \<open>
  The data of the pallet, after \<open>pallets/pallet-ghost-consensus/src/types.rs\<close> and the type
  declarations of its \<open>lib.rs\<close>: block headers, selection and reward results, the consensus
  phases, the errors and the configuration trait. Field names carry a short prefix, because two
  structs of the source share \<open>nonce\<close>, \<open>difficulty\<close>, \<open>weight\<close> and \<open>stake\<close>.
  Account identifiers are the type variable \<open>'acc\<close>; balances are \<open>u128\<close> and block numbers
  \<open>u32\<close>, as \<open>runtime/src/lib.rs\<close> sets them.
\<close>

section \<open>types.rs\<close>

datatype PqcSignature = PqcSignature (pqc_bytes: bytes)

definition PqcSignature_default :: PqcSignature where
  "PqcSignature_default = PqcSignature (replicate 4627 0)"

record GhostBlockHeader =
  bh_number :: u32
  bh_parent_hash :: H256
  bh_state_root :: H256
  bh_extrinsics_root :: H256
  bh_nonce :: u64
  bh_difficulty :: u64
  bh_validator_signature :: "H256 option"
  bh_pqc_signature :: "PqcSignature option"

record DifficultyAdjustment =
  da_current :: u64
  da_target_block_time :: u64
  da_adjustment_factor :: u64

record 'acc ValidatorStake =
  vs_account :: 'acc
  vs_stake :: u128
  vs_weight :: u64

record PowResult =
  pr_nonce :: u64
  pr_hash :: H256
  pr_difficulty :: u64

record 'acc PosSelection =
  sel_validator :: 'acc
  sel_weight :: u64
  sel_round :: u64

record BlockReward =
  br_total :: u128
  br_miner_reward :: u128
  br_stakers_reward :: u128

datatype ConsensusPhase = PowMining | PosValidation | Finalization

definition ConsensusPhase_default :: ConsensusPhase where
  "ConsensusPhase_default = PowMining"

datatype BlockValidationStatus = Valid | Invalid | Pending

datatype SlashingReason = DoubleSigning | InvalidBlock | Downtime | Other

section \<open>Events, errors and configuration of the pallet\<close>

datatype 'acc Event =
    BlockMined u32 'acc u64
  | ValidatorSelected 'acc u64
  | RewardsDistributed 'acc u128 u128
  | ValidatorSlashed 'acc SlashingReason u128
  | DifficultyAdjusted u64 u64

datatype GhostError =
    InvalidBlockNumber
  | InvalidParentHash
  | InvalidPow
  | DifficultyTooLow
  | DifficultyTooHigh
  | InsufficientStake
  | NotAValidator
  | BlockNotFound
  | InvalidPhaseTransition
  | InvalidPqcSignature
  | PqcPublicKeyNotFound

text \<open>
  What a dispatchable fails with: \<open>ensure_signed\<close>'s error, an error of the pallet, or an error
  that \<open>pallet_balances\<close> returned from a transfer and \<open>?\<close> passed on.
\<close>

datatype DispatchError = BadOrigin | Module GhostError | BalancesError string

datatype 'acc RawOrigin = Root | Signed 'acc | Unsigned

definition ensure_signed :: "'acc RawOrigin \<Rightarrow> DispatchError + 'acc" where
  "ensure_signed origin = (case origin of Signed who \<Rightarrow> Inr who | _ \<Rightarrow> Inl BadOrigin)"

datatype ExistenceRequirement = KeepAlive | AllowDeath

text \<open>The constants of the trait \<open>Config\<close>.\<close>

record Config =
  cfg_BlockReward :: u128
  cfg_MinStake :: u128
  cfg_MaxDowntimeBlocks :: u32
  cfg_DoubleSignSlashPercentage :: u8
  cfg_InvalidBlockSlashPercentage :: u8
  cfg_DowntimeSlashPercentage :: u8
  cfg_PalletId :: bytes
  cfg_PqcRequired :: bool

text \<open>The value the live runtime gives it (\<open>runtime/src/configs/mod.rs\<close>).\<close>

definition runtime_config :: Config where
  "runtime_config = \<lparr>
     cfg_BlockReward = 10000000000000,
     cfg_MinStake = 1000000000000,
     cfg_MaxDowntimeBlocks = 100,
     cfg_DoubleSignSlashPercentage = 100,
     cfg_InvalidBlockSlashPercentage = 50,
     cfg_DowntimeSlashPercentage = 10,
     cfg_PalletId = [112, 121, 47, 103, 104, 111, 115, 116],
     cfg_PqcRequired = False\<rparr>"

text \<open>The value the pallet's tests give it (\<open>mock.rs\<close>).\<close>

definition mock_config :: Config where
  "mock_config = \<lparr>
     cfg_BlockReward = 10000000000000000000,
     cfg_MinStake = 1000000000000000000,
     cfg_MaxDowntimeBlocks = 100,
     cfg_DoubleSignSlashPercentage = 100,
     cfg_InvalidBlockSlashPercentage = 50,
     cfg_DowntimeSlashPercentage = 10,
     cfg_PalletId = [112, 121, 47, 103, 104, 111, 115, 116],
     cfg_PqcRequired = True\<rparr>"

lemmas config_defs = runtime_config_def mock_config_def

section \<open>Code outside the repository\<close>

text \<open>
  What the pallet calls in other crates, as parameters. \<open>BlakeTwo256::hash_of\<close> hashes the SCALE
  encoding of its argument and is used at five types, so it is five functions here; the encoding
  of the PoW input tuple is a parameter of the other two hash functions. \<open>ext_key_order\<close> is the
  order in which \<open>StorageMap::iter\<close> visits the keys a map holds (the order of the hashed keys in
  the trie). \<open>ext_transfer\<close> and \<open>ext_deposit_creating\<close> are the two operations of
  \<open>pallet_balances\<close> the pallet uses, over that pallet's own storage \<open>'bal\<close>. The last two fields
  are the build: \<open>overflow-checks\<close> and the cargo feature \<open>std\<close>.
\<close>

type_synonym pow_input = "u32 \<times> H256 \<times> H256 \<times> H256 \<times> u64"

record ('acc, 'bal) Externals =
  ext_hash_of_pow_input :: "pow_input \<Rightarrow> H256"
  ext_hash_of_hash :: "H256 \<Rightarrow> H256"
  ext_hash_of_header :: "GhostBlockHeader \<Rightarrow> H256"
  ext_hash_of_seed :: "u32 \<times> u32 \<Rightarrow> H256"
  ext_hash_of_signed :: "'acc \<times> u32 \<Rightarrow> H256"
  ext_encode_pow_input :: "pow_input \<Rightarrow> bytes"
  ext_sha2_256 :: "bytes \<Rightarrow> H256"
  ext_keccak_256 :: "bytes \<Rightarrow> H256"
  ext_signature_from_bytes :: "bytes \<Rightarrow> bytes option"
  ext_public_key_from_bytes :: "bytes \<Rightarrow> bytes option"
  ext_verify_detached_signature :: "bytes \<Rightarrow> bytes \<Rightarrow> bytes \<Rightarrow> bool"
  ext_into_account_truncating :: "bytes \<Rightarrow> 'acc"
  ext_key_order :: "'acc set \<Rightarrow> 'acc list"
  ext_transfer :: "'acc \<Rightarrow> 'acc \<Rightarrow> u128 \<Rightarrow> ExistenceRequirement \<Rightarrow> 'bal \<Rightarrow> DispatchError + 'bal"
  ext_deposit_creating :: "'acc \<Rightarrow> u128 \<Rightarrow> 'bal \<Rightarrow> 'bal"
  ext_overflow_checks :: bool
  ext_std :: bool

text \<open>
  \<open>StorageMap::iter\<close>: every entry once, in the order of its keys. The documented law of the key
  order is the hypothesis \<open>lists_keys\<close>.
\<close>

definition storage_iter :: "('acc set \<Rightarrow> 'acc list) \<Rightarrow> ('acc \<rightharpoonup> 'v) \<Rightarrow> ('acc \<times> 'v) list" where
  "storage_iter key_order m = map (\<lambda>k. (k, the (m k))) (key_order (dom m))"

definition lists_keys :: "('acc set \<Rightarrow> 'acc list) \<Rightarrow> bool" where
  "lists_keys key_order \<longleftrightarrow>
     (\<forall>A. finite A \<longrightarrow> set (key_order A) = A \<and> distinct (key_order A))"

lemma lists_keysD:
  "lists_keys key_order \<Longrightarrow> finite A \<Longrightarrow> set (key_order A) = A"
  "lists_keys key_order \<Longrightarrow> finite A \<Longrightarrow> distinct (key_order A)"
  by (auto simp: lists_keys_def)

lemma lists_keys_sorted: "lists_keys (sorted_list_of_set :: 'a::linorder set \<Rightarrow> 'a list)"
  by (simp add: lists_keys_def)

lemma keys_storage_iter [simp]: "map fst (storage_iter key_order m) = key_order (dom m)"
  by (simp add: storage_iter_def comp_def)

lemma set_storage_iter:
  assumes "lists_keys key_order" and "finite (dom m)"
  shows "set (storage_iter key_order m) = {(k, v). m k = Some v}"
  using lists_keysD [OF assms] by (force simp: storage_iter_def dom_def)

lemma sum_storage_iter:
  assumes "lists_keys key_order" and "finite (dom m)"
  shows "(\<Sum>(k, v) \<leftarrow> storage_iter key_order m. unat v) = sum_values m"
proof -
  have "(\<Sum>(k, v) \<leftarrow> storage_iter key_order m. unat v)
      = (\<Sum>k \<leftarrow> key_order (dom m). unat (the (m k)))"
    by (simp add: storage_iter_def comp_def)
  then show ?thesis
    using lists_keysD [OF assms] by (simp add: sum_list_distinct_conv_sum_set sum_values_def)
qed

end
