(* ===== verification/Ghost_Currency.thy ===== *)
theory Ghost_Currency
  imports Ghost_Types
begin

text \<open>
  The interface to \<open>pallet_balances\<close>, which is not part of the repository: \<open>transfer\<close> and
  \<open>deposit_creating\<close> of its \<open>Currency\<close> implementation. The locale \<open>balances_pallet\<close> states the
  documented laws of the two over an observation \<open>free\<close> (the free balance of an account) and the
  existential deposit \<open>ed\<close>: an account whose balance would fall under \<open>ed\<close> is removed and its rest
  is lost. \<open>escrow_pallet\<close> adds that an account nobody holds a key of, and which therefore
  carries no lock, can always pay what it holds. An account ledger with these rules is defined
  and shown to satisfy both; the witnesses of the development run on it.
\<close>

section \<open>The laws\<close>

locale balances_pallet =
  fixes transfer :: "'acc \<Rightarrow> 'acc \<Rightarrow> u128 \<Rightarrow> ExistenceRequirement \<Rightarrow> 'bal \<Rightarrow> DispatchError + 'bal"
    and deposit_creating :: "'acc \<Rightarrow> u128 \<Rightarrow> 'bal \<Rightarrow> 'bal"
    and free :: "'acc \<Rightarrow> 'bal \<Rightarrow> nat"
    and ed :: nat
  assumes transfer_noop: "amt = 0 \<or> a = b \<Longrightarrow> transfer a b amt req s = Inr s"
    and transfer_covered: "transfer a b amt req s = Inr s' \<Longrightarrow> a \<noteq> b \<Longrightarrow> amt \<noteq> 0 \<Longrightarrow>
      unat amt \<le> free a s"
    and transfer_from: "transfer a b amt req s = Inr s' \<Longrightarrow> a \<noteq> b \<Longrightarrow> amt \<noteq> 0 \<Longrightarrow>
      free a s' = (if free a s - unat amt < ed then 0 else free a s - unat amt)"
    and transfer_to: "transfer a b amt req s = Inr s' \<Longrightarrow> a \<noteq> b \<Longrightarrow> amt \<noteq> 0 \<Longrightarrow>
      free b s' = free b s + unat amt"
    and transfer_keeps_alive: "transfer a b amt KeepAlive s = Inr s' \<Longrightarrow> a \<noteq> b \<Longrightarrow> amt \<noteq> 0 \<Longrightarrow>
      ed \<le> free a s'"
    and transfer_other: "transfer a b amt req s = Inr s' \<Longrightarrow> c \<noteq> a \<Longrightarrow> c \<noteq> b \<Longrightarrow>
      free c s' = free c s"
    and deposit_same: "free a (deposit_creating a amt s) = free a s
      \<or> free a (deposit_creating a amt s) = free a s + unat amt"
    and deposit_credited: "ed \<le> free a s \<and> 0 < free a s \<or> ed \<le> unat amt \<Longrightarrow>
      free a s + unat amt < 2 ^ 128 \<Longrightarrow>
      free a (deposit_creating a amt s) = free a s + unat amt"
    and deposit_other: "c \<noteq> a \<Longrightarrow> free c (deposit_creating a amt s) = free c s"
begin

lemma deposit_le: "free c s \<le> free c (deposit_creating a amt s)"
  using deposit_same [of c amt s] deposit_other [of c a amt s] by (cases "c = a") auto

lemma deposit_bound: "free c (deposit_creating a amt s) \<le> free c s + unat amt"
  using deposit_same [of c amt s] deposit_other [of c a amt s] by (cases "c = a") auto

text \<open>Nobody but the sender loses anything by a transfer.\<close>

lemma transfer_le:
  assumes "transfer a b amt req s = Inr s'" and "c \<noteq> a"
  shows "free c s \<le> free c s'"
  using transfer_noop [of amt a b req s] transfer_to [OF assms(1)] transfer_other [OF assms(1)] assms
  by (cases "amt = 0 \<or> a = b"; cases "c = b") auto

text \<open>An account that keeps the existential deposit loses exactly the amount.\<close>

lemma transfer_from_exact:
  assumes "transfer a b amt req s = Inr s'" and "a \<noteq> b" and "ed + unat amt \<le> free a s"
  shows "free a s' = free a s - unat amt"
  using transfer_noop [of amt a b req s] transfer_from [OF assms(1)] assms
  by (cases "amt = 0") auto

end

locale escrow_pallet = balances_pallet +
  fixes escrow :: 'a
  assumes escrow_pays: "a \<noteq> escrow \<Longrightarrow> unat amt \<le> free escrow s \<Longrightarrow>
    ed \<le> free a s + unat amt \<Longrightarrow> free a s + unat amt < 2 ^ 128 \<Longrightarrow>
    \<exists>s'. transfer escrow a amt AllowDeath s = Inr s'"

section \<open>An account ledger\<close>

type_synonym 'acc ledger = "'acc \<Rightarrow> u128"

definition ledger_free :: "'acc \<Rightarrow> 'acc ledger \<Rightarrow> nat" where
  "ledger_free a s = unat (s a)"

definition ledger_transfer ::
  "nat \<Rightarrow> 'acc \<Rightarrow> 'acc \<Rightarrow> u128 \<Rightarrow> ExistenceRequirement \<Rightarrow> 'acc ledger \<Rightarrow> DispatchError + 'acc ledger"
  where
  "ledger_transfer ed a b amt req s =
     (if amt = 0 \<or> a = b then Inr s
      else if unat (s a) < unat amt then Inl (BalancesError ''FundsUnavailable'')
      else if 2 ^ 128 \<le> unat (s b) + unat amt then Inl (BalancesError ''Overflow'')
      else if unat (s b) + unat amt < ed then Inl (BalancesError ''BelowMinimum'')
      else if unat (s a - amt) < ed
        then (if req = KeepAlive then Inl (BalancesError ''NotExpendable'')
              else Inr (s(a := 0, b := s b + amt)))
      else Inr (s(a := s a - amt, b := s b + amt)))"

definition ledger_deposit_creating :: "nat \<Rightarrow> 'acc \<Rightarrow> u128 \<Rightarrow> 'acc ledger \<Rightarrow> 'acc ledger" where
  "ledger_deposit_creating ed a amt s =
     (if amt = 0 \<or> s a = 0 \<and> unat amt < ed \<or> 2 ^ 128 \<le> unat (s a) + unat amt then s
      else s(a := s a + amt))"

lemmas ledger_defs = ledger_free_def ledger_transfer_def ledger_deposit_creating_def

interpretation account_ledger: escrow_pallet
  "ledger_transfer ed" "ledger_deposit_creating ed" ledger_free ed escrow
  for ed :: nat and escrow :: 'acc
proof unfold_locales
  fix a b :: 'acc and amt :: u128 and req and s s' :: "'acc ledger"
  show "amt = 0 \<or> a = b \<Longrightarrow> ledger_transfer ed a b amt req s = Inr s"
    by (auto simp: ledger_defs)
  assume ok: "ledger_transfer ed a b amt req s = Inr s'"
  {
    fix c assume "c \<noteq> a" and "c \<noteq> b"
    with ok show "ledger_free c s' = ledger_free c s"
      by (auto simp: ledger_defs split: if_splits)
  }
  assume ab: "a \<noteq> b" and amt: "amt \<noteq> 0"
  show covered: "unat amt \<le> ledger_free a s"
    using ok ab amt by (auto simp: ledger_defs split: if_splits)
  show "ledger_free a s' = (if ledger_free a s - unat amt < ed then 0 else ledger_free a s - unat amt)"
    using ok ab amt covered by (auto simp: ledger_defs unat_sub_fits split: if_splits)
  show "ledger_free b s' = ledger_free b s + unat amt"
    using ok ab amt by (auto simp: ledger_defs unat_add_fits split: if_splits)
next
  fix a b :: 'acc and amt :: u128 and s s' :: "'acc ledger"
  assume "ledger_transfer ed a b amt KeepAlive s = Inr s'" and "a \<noteq> b" and "amt \<noteq> 0"
  then show "ed \<le> ledger_free a s'"
    by (auto simp: ledger_defs split: if_splits)
next
  fix a c :: 'acc and amt :: u128 and s :: "'acc ledger"
  show "ledger_free a (ledger_deposit_creating ed a amt s) = ledger_free a s
      \<or> ledger_free a (ledger_deposit_creating ed a amt s) = ledger_free a s + unat amt"
    by (auto simp: ledger_defs unat_add_fits)
  show "ledger_free a (ledger_deposit_creating ed a amt s) = ledger_free a s + unat amt"
    if "ed \<le> ledger_free a s \<and> 0 < ledger_free a s \<or> ed \<le> unat amt"
      and "ledger_free a s + unat amt < 2 ^ 128"
    using that by (auto simp: ledger_defs unat_add_fits)
  show "c \<noteq> a \<Longrightarrow> ledger_free c (ledger_deposit_creating ed a amt s) = ledger_free c s"
    by (auto simp: ledger_defs)
next
  fix a :: 'acc and amt :: u128 and s :: "'acc ledger"
  assume "a \<noteq> escrow" and "unat amt \<le> ledger_free escrow s" and "ed \<le> ledger_free a s + unat amt"
    and "ledger_free a s + unat amt < 2 ^ 128"
  then show "\<exists>s'. ledger_transfer ed escrow a amt AllowDeath s = Inr s'"
    by (auto simp: ledger_defs)
qed

section \<open>A concrete environment\<close>

text \<open>
  An instance of the parameters for the witnesses: accounts are \<open>u64\<close> as in \<open>mock.rs\<close>, the ledger
  above is the currency, hashes are simple injections whose leading 64 bits are easy to read
  (the nonce for the PoW input, the block number for the seed), and overflows panic.
\<close>

definition sample_externals :: "nat \<Rightarrow> (u64, u64 ledger) Externals" where
  "sample_externals ed = \<lparr>
     ext_hash_of_pow_input = (\<lambda>(number, parent, state, extrinsics, nonce). push_bit 192 (ucast nonce)),
     ext_hash_of_hash = (\<lambda>h. h),
     ext_hash_of_header = (\<lambda>h. ucast (bh_number h) + 1),
     ext_hash_of_seed = (\<lambda>(b, n). push_bit 192 (ucast b)),
     ext_hash_of_signed = (\<lambda>(who, b). ucast who),
     ext_encode_pow_input = (\<lambda>(number, parent, state, extrinsics, nonce). [ucast nonce]),
     ext_sha2_256 = (\<lambda>bs. 0),
     ext_keccak_256 = (\<lambda>bs. 0),
     ext_signature_from_bytes = (\<lambda>bs. if length bs = 4627 then Some bs else None),
     ext_public_key_from_bytes = (\<lambda>bs. if length bs = 2592 then Some bs else None),
     ext_verify_detached_signature = (\<lambda>sig msg pk. True),
     ext_into_account_truncating = (\<lambda>bs. 999),
     ext_key_order = sorted_list_of_set,
     ext_transfer = ledger_transfer ed,
     ext_deposit_creating = ledger_deposit_creating ed,
     ext_overflow_checks = True,
     ext_std = True\<rparr>"

lemma sample_externals_simps [simp]:
  "ext_hash_of_pow_input (sample_externals ed) (n, p, s, e, nonce) = push_bit 192 (ucast nonce)"
  "ext_hash_of_hash (sample_externals ed) h = h"
  "ext_hash_of_header (sample_externals ed) hdr = ucast (bh_number hdr) + 1"
  "ext_hash_of_seed (sample_externals ed) (b, m) = push_bit 192 (ucast b)"
  "ext_hash_of_signed (sample_externals ed) (who, b) = ucast who"
  "ext_into_account_truncating (sample_externals ed) bs = 999"
  "ext_key_order (sample_externals ed) = sorted_list_of_set"
  "ext_transfer (sample_externals ed) = ledger_transfer ed"
  "ext_deposit_creating (sample_externals ed) = ledger_deposit_creating ed"
  "ext_overflow_checks (sample_externals ed) = True"
  "ext_std (sample_externals ed) = True"
  by (simp_all add: sample_externals_def)

lemma hash_prefix_push [simp]: "hash_prefix (push_bit 192 (ucast (x :: u64))) = x"
  by (simp add: hash_prefix_eq) (rule bit_word_eqI, simp add: bit_simps)

end
