(* ===== verification/Ghost_Pow.thy ===== *)
theory Ghost_Pow
  imports Ghost_Currency
begin

text \<open>
  Proof of work, after \<open>functions.rs\<close> of the pallet: the four verification routines, the header
  check \<open>validate_block_header\<close>, and the bounded search \<open>GhostMiningWorker::mine_block\<close> of
  \<open>consensus.rs\<close>. The locale \<open>pow_scheme\<close> is the contract the four routines share: a score
  computed from the hashed fields alone, compared with the target.
\<close>

section \<open>Verification routines\<close>

definition pow_input_of :: "GhostBlockHeader \<Rightarrow> pow_input" where
  "pow_input_of h =
     (bh_number h, bh_parent_hash h, bh_state_root h, bh_extrinsics_root h, bh_nonce h)"

definition verify_pow :: "('acc, 'bal) Externals \<Rightarrow> GhostBlockHeader \<Rightarrow> u64 \<Rightarrow> bool" where
  "verify_pow X block_header target_difficulty =
     (let hash = ext_hash_of_pow_input X (pow_input_of block_header);
          hash_value = hash_prefix hash
      in hash_value \<le> target_difficulty)"

definition verify_pow_enhanced :: "('acc, 'bal) Externals \<Rightarrow> GhostBlockHeader \<Rightarrow> u64 \<Rightarrow> bool" where
  "verify_pow_enhanced X block_header target_difficulty =
     (let first_hash = ext_hash_of_pow_input X (pow_input_of block_header);
          final_hash = ext_hash_of_hash X first_hash;
          hash_value = hash_prefix final_hash
      in hash_value \<le> target_difficulty)"

definition verify_pow_sha256 :: "('acc, 'bal) Externals \<Rightarrow> GhostBlockHeader \<Rightarrow> u64 \<Rightarrow> bool" where
  "verify_pow_sha256 X block_header target_difficulty =
     (let first_hash = ext_sha2_256 X (ext_encode_pow_input X (pow_input_of block_header));
          final_hash = ext_sha2_256 X (as_bytes first_hash);
          hash_value = hash_prefix final_hash
      in hash_value \<le> target_difficulty)"

definition verify_pow_keccak :: "('acc, 'bal) Externals \<Rightarrow> GhostBlockHeader \<Rightarrow> u64 \<Rightarrow> bool" where
  "verify_pow_keccak X block_header target_difficulty =
     (let hash = ext_keccak_256 X (ext_encode_pow_input X (pow_input_of block_header));
          hash_value = hash_prefix hash
      in hash_value \<le> target_difficulty)"

lemmas pow_defs = verify_pow_def verify_pow_enhanced_def verify_pow_sha256_def verify_pow_keccak_def

section \<open>The contract of a verification routine\<close>

locale pow_scheme =
  fixes accepts :: "GhostBlockHeader \<Rightarrow> u64 \<Rightarrow> bool"
    and score :: "pow_input \<Rightarrow> u64"
  assumes accepts_iff: "accepts h target \<longleftrightarrow> score (pow_input_of h) \<le> target"
begin

lemma easier_target: "accepts h target \<Longrightarrow> target \<le> target' \<Longrightarrow> accepts h target'"
  by (simp add: accepts_iff order.trans)

lemma max_target: "accepts h (- 1)"
  by (simp add: accepts_iff word_order.extremum)

lemma same_input: "pow_input_of h = pow_input_of h' \<Longrightarrow> accepts h target = accepts h' target"
  by (simp add: accepts_iff)

lemma least_target: "accepts h target \<longleftrightarrow> (\<forall>target' \<ge> target. accepts h target')"
  by (auto intro: easier_target)

end

interpretation pow_basic: pow_scheme "verify_pow X"
  "\<lambda>i. hash_prefix (ext_hash_of_pow_input X i)" for X :: "('acc, 'bal) Externals"
  by unfold_locales (simp add: verify_pow_def Let_def)

interpretation pow_enhanced: pow_scheme "verify_pow_enhanced X"
  "\<lambda>i. hash_prefix (ext_hash_of_hash X (ext_hash_of_pow_input X i))" for X :: "('acc, 'bal) Externals"
  by unfold_locales (simp add: verify_pow_enhanced_def Let_def)

interpretation pow_sha256: pow_scheme "verify_pow_sha256 X"
  "\<lambda>i. hash_prefix (ext_sha2_256 X (as_bytes (ext_sha2_256 X (ext_encode_pow_input X i))))"
  for X :: "('acc, 'bal) Externals"
  by unfold_locales (simp add: verify_pow_sha256_def Let_def)

interpretation pow_keccak: pow_scheme "verify_pow_keccak X"
  "\<lambda>i. hash_prefix (ext_keccak_256 X (ext_encode_pow_input X i))" for X :: "('acc, 'bal) Externals"
  by unfold_locales (simp add: verify_pow_keccak_def Let_def)


section \<open>The header check\<close>

text \<open>
  The result is \<^const>\<open>None\<close> for a panic, which only \<open>parent_header.number + 1\<close> can cause.
  \<open>expected_difficulty\<close> is what the storage item \<open>Difficulty\<close> holds.
\<close>

definition validate_block_header ::
  "('acc, 'bal) Externals \<Rightarrow> u64 \<Rightarrow> GhostBlockHeader \<Rightarrow> GhostBlockHeader
    \<Rightarrow> (DispatchError + unit) option" where
  "validate_block_header X expected_difficulty header parent_header =
     do {
       next_number \<leftarrow> add_w (ext_overflow_checks X) (bh_number parent_header) 1;
       Some (
         if bh_number header \<noteq> next_number then Inl (Module InvalidBlockNumber)
         else if bh_parent_hash header \<noteq> ext_hash_of_header X parent_header
           then Inl (Module InvalidParentHash)
         else if \<not> verify_pow_enhanced X header (bh_difficulty header)
           then Inl (Module InvalidPow)
         else if bh_difficulty header < saturating_div expected_difficulty 2
           then Inl (Module DifficultyTooLow)
         else if bh_difficulty header > saturating_mul expected_difficulty 2
           then Inl (Module DifficultyTooHigh)
         else Inr ())
     }"

text \<open>What acceptance means.\<close>

definition header_valid ::
  "('acc, 'bal) Externals \<Rightarrow> u64 \<Rightarrow> GhostBlockHeader \<Rightarrow> GhostBlockHeader \<Rightarrow> bool" where
  "header_valid X expected h p \<longleftrightarrow>
     bh_number h = bh_number p + 1 \<and> bh_parent_hash h = ext_hash_of_header X p
     \<and> verify_pow_enhanced X h (bh_difficulty h)
     \<and> unat expected div 2 \<le> unat (bh_difficulty h)
     \<and> unat (bh_difficulty h) \<le> 2 * unat expected"

lemma too_high_iff:
  "saturating_mul expected 2 < d \<longleftrightarrow> 2 * unat expected < unat (d :: u64)"
  using unat_u64_max [of d] by (auto simp: word_less_nat_alt unat_saturating_mul)

lemma too_low_iff: "d < saturating_div expected 2 \<longleftrightarrow> unat (d :: u64) < unat expected div 2"
  by (simp add: word_less_nat_alt unat_saturating_div)

lemma validate_block_header_ok_iff:
  assumes "validate_block_header X expected h p = Some r"
  shows "r = Inr () \<longleftrightarrow> header_valid X expected h p"
  using assms
  by (auto simp: validate_block_header_def add_w_def header_valid_def too_high_iff too_low_iff
      split: if_splits)

lemma validate_block_header_no_panic:
  assumes "bh_number p \<noteq> - 1"
  shows "\<exists>r. validate_block_header X expected h p = Some r"
proof -
  have "unat (bh_number p) \<noteq> 2 ^ LENGTH(32) - 1"
    using assms unat_minus_one_max [where 'a = 32] by (metis word_unat_eq_iff)
  then have "unat (bh_number p) + unat (1 :: u32) < 2 ^ LENGTH(32)"
    using unat_bound [of "bh_number p"] by simp
  then show ?thesis by (simp add: validate_block_header_def add_w_fits)
qed

section \<open>The bounded search of consensus.rs\<close>

text \<open>
  \<open>GhostMiningWorker\<close> holds a difficulty; \<open>mine_block\<close> tries the nonces from 0 on, at most
  \<open>1_000_000\<close> of them. The counter of the \<open>for\<close> loop is the first argument of the loop.
\<close>

record GhostMiningWorker =
  gw_difficulty :: u64

definition GhostMiningWorker_new :: "u64 \<Rightarrow> GhostMiningWorker" where
  "GhostMiningWorker_new difficulty = \<lparr>gw_difficulty = difficulty\<rparr>"

primrec mine_loop :: "nat \<Rightarrow> (u64 \<Rightarrow> bool) \<Rightarrow> u64 \<Rightarrow> u64 option" where
  "mine_loop 0 accepts_nonce nonce = None"
| "mine_loop (Suc attempts) accepts_nonce nonce =
     (if accepts_nonce nonce then Some nonce else mine_loop attempts accepts_nonce (nonce + 1))"

definition mine_block ::
  "('acc, 'bal) Externals \<Rightarrow> GhostMiningWorker \<Rightarrow> GhostBlockHeader \<Rightarrow> u64 option" where
  "mine_block X worker block_header =
     mine_loop 1000000
       (\<lambda>nonce. verify_pow_enhanced X (block_header\<lparr>bh_nonce := nonce\<rparr>) (gw_difficulty worker)) 0"

lemma mine_loop_Some:
  assumes "mine_loop k p n = Some m" and "unat n + k < 2 ^ 64"
  shows "p m \<and> unat n \<le> unat m \<and> unat m < unat n + k
    \<and> (\<forall>j. unat n \<le> unat j \<and> unat j < unat m \<longrightarrow> \<not> p j)"
  using assms
proof (induction k arbitrary: n)
  case (Suc k)
  show ?case
  proof (cases "p n")
    case True
    with Suc.prems show ?thesis by auto
  next
    case False
    have n1: "unat (n + 1) = unat n + 1" using Suc.prems(2) by (simp add: unat_add_fits)
    have "mine_loop k p (n + 1) = Some m" using Suc.prems(1) False by simp
    with Suc.prems(2) n1 have IH: "p m \<and> unat n + 1 \<le> unat m \<and> unat m < unat n + 1 + k
        \<and> (\<forall>j. unat n + 1 \<le> unat j \<and> unat j < unat m \<longrightarrow> \<not> p j)"
      using Suc.IH [of "n + 1"] by simp
    have "\<not> p j" if "unat n \<le> unat j" "unat j < unat m" for j
    proof (cases "unat j = unat n")
      case True
      then have "j = n" by (simp add: word_unat_eq_iff)
      with False show ?thesis by simp
    next
      case neq: False
      with IH that show ?thesis by auto
    qed
    with IH show ?thesis by auto
  qed
qed simp

lemma mine_loop_None:
  assumes "mine_loop k p n = None" and "unat n + k < 2 ^ 64" and "unat n \<le> unat j"
    and "unat j < unat n + k"
  shows "\<not> p j"
  using assms
proof (induction k arbitrary: n)
  case (Suc k)
  have n1: "unat (n + 1) = unat n + 1" using Suc.prems(2) by (simp add: unat_add_fits)
  show ?case
  proof (cases "j = n")
    case True
    with Suc.prems show ?thesis by (auto split: if_splits)
  next
    case False
    then have "unat (n + 1) \<le> unat j"
      using Suc.prems(3) n1 by (simp add: word_unat_eq_iff)
    then show ?thesis using Suc n1 by (auto split: if_splits)
  qed
qed simp

section \<open>Properties\<close>

text \<open>
  \<open>validate_block_header\<close> accepts a header exactly when it extends its parent by one, names the
  parent's hash, carries a proof of work for the difficulty it claims, and claims a difficulty
  between half and twice the stored one (the parent not being at the last block number, where the
  addition would overflow). The 64-bit saturation of the upper bound never refuses a header.
\<close>

lemma header_accepted_iff:
  assumes "bh_number p \<noteq> - 1"
  shows "validate_block_header X expected h p = Some (Inr ()) \<longleftrightarrow> header_valid X expected h p"
  using validate_block_header_no_panic [OF assms, of X expected h]
    validate_block_header_ok_iff [of X expected h p] by auto

definition sample_parent :: GhostBlockHeader where
  "sample_parent = \<lparr>bh_number = 0, bh_parent_hash = 0, bh_state_root = 0, bh_extrinsics_root = 0,
     bh_nonce = 0, bh_difficulty = 100, bh_validator_signature = None, bh_pqc_signature = None\<rparr>"

definition sample_child :: GhostBlockHeader where
  "sample_child = \<lparr>bh_number = 1, bh_parent_hash = 1, bh_state_root = 0, bh_extrinsics_root = 0,
     bh_nonce = 90, bh_difficulty = 150, bh_validator_signature = None, bh_pqc_signature = None\<rparr>"

lemmas sample_headers = sample_parent_def sample_child_def

lemma sample_pow [simp]: "verify_pow_enhanced (sample_externals ed) h t \<longleftrightarrow> bh_nonce h \<le> t"
  by (simp add: verify_pow_enhanced_def pow_input_of_def)

text \<open>
  The checks of \<open>validate_block_header\<close> are made in the order number, parent hash, proof of
  work, difficulty too low, difficulty too high, and the first that fails names the error.
\<close>

lemma header_rejection_order:
  assumes "bh_number p \<noteq> - 1"
  shows "validate_block_header X expected h p = Some (
     if bh_number h \<noteq> bh_number p + 1 then Inl (Module InvalidBlockNumber)
     else if bh_parent_hash h \<noteq> ext_hash_of_header X p then Inl (Module InvalidParentHash)
     else if \<not> verify_pow_enhanced X h (bh_difficulty h) then Inl (Module InvalidPow)
     else if unat (bh_difficulty h) < unat expected div 2 then Inl (Module DifficultyTooLow)
     else if 2 * unat expected < unat (bh_difficulty h) then Inl (Module DifficultyTooHigh)
     else Inr ())"
  using validate_block_header_no_panic [OF assms, of X expected h]
  by (auto simp: validate_block_header_def add_w_def too_high_iff too_low_iff split: if_splits)

text \<open>
  A proof of work survives what happens to a mined header later: signing it (the two signature
  fields), restating its difficulty field, and any easier target. It also fails for a header whose
  score lies above the target, so acceptance is decided by the score alone.
\<close>

lemma enhanced_pow_survives_signing:
  assumes "verify_pow_enhanced X h target" and "target \<le> target'"
  shows "verify_pow_enhanced X
    (h\<lparr>bh_difficulty := d, bh_validator_signature := sig, bh_pqc_signature := pqc\<rparr>) target'"
proof -
  have "verify_pow_enhanced X
      (h\<lparr>bh_difficulty := d, bh_validator_signature := sig, bh_pqc_signature := pqc\<rparr>) target"
    using assms(1) by (subst pow_enhanced.same_input [where h' = h]) (simp_all add: pow_input_of_def)
  then show ?thesis using assms(2) by (rule pow_enhanced.easier_target)
qed

text \<open>
  All four verification routines accept every header at the target u64::MAX, and for each of
  them acceptance at a target is acceptance at every larger one.
\<close>

lemma pow_variants_monotone:
  "\<forall>accepts \<in> {verify_pow X, verify_pow_enhanced X, verify_pow_sha256 X, verify_pow_keccak X}.
     accepts h (- 1) \<and> (\<forall>t t'. accepts h t \<longrightarrow> t \<le> t' \<longrightarrow> accepts h t')"
  using pow_basic.max_target [of X h] pow_enhanced.max_target [of X h]
    pow_sha256.max_target [of X h] pow_keccak.max_target [of X h]
  by (auto intro: pow_basic.easier_target pow_enhanced.easier_target
      pow_sha256.easier_target pow_keccak.easier_target)

text \<open>
  \<open>mine_block\<close> is a complete search of the nonces below 1_000_000: a result is the least nonce
  whose header passes the check at the worker's difficulty, and no result means that none does.
\<close>

lemma mine_block_least:
  "case mine_block X worker h of
     Some m \<Rightarrow> unat m < 1000000 \<and> verify_pow_enhanced X (h\<lparr>bh_nonce := m\<rparr>) (gw_difficulty worker)
       \<and> (\<forall>j < m. \<not> verify_pow_enhanced X (h\<lparr>bh_nonce := j\<rparr>) (gw_difficulty worker))
   | None \<Rightarrow> (\<forall>j. unat j < 1000000 \<longrightarrow>
       \<not> verify_pow_enhanced X (h\<lparr>bh_nonce := j\<rparr>) (gw_difficulty worker))"
proof (cases "mine_block X worker h")
  case None
  then show ?thesis
    using mine_loop_None [OF None [unfolded mine_block_def]] by simp
next
  case (Some m)
  then show ?thesis
    using mine_loop_Some [OF Some [unfolded mine_block_def]] by (simp add: word_less_nat_alt)
qed

end
