(* ===== verification/Ghost_Difficulty.thy ===== *)
theory Ghost_Difficulty
  imports Ghost_Types
begin

text \<open>
  \<open>calculate_difficulty_adjustment\<close> of the pallet's \<open>functions.rs\<close>. A \<open>difficulty\<close> is a target:
  the greatest hash prefix that is accepted, so a smaller value is harder to meet. The definition
  keeps the two branches on the block time although the source has the same expression in both.
  All its operations saturate, so it never panics; the lemmas say what saturation does to it.
\<close>

definition entropy_threshold :: u64 where
  "entropy_threshold = 4000000"

definition calculate_difficulty_adjustment :: "u64 \<Rightarrow> u64 \<Rightarrow> u64 \<Rightarrow> u64 \<Rightarrow> u64" where
  "calculate_difficulty_adjustment current_difficulty actual_block_time target_block_time entropy =
     (if actual_block_time = 0 \<or> target_block_time = 0
      then max (saturating_div current_difficulty 2) 1
      else
        let new_target =
              (if actual_block_time < target_block_time
               then saturating_mul current_difficulty actual_block_time div target_block_time
               else saturating_mul current_difficulty actual_block_time div target_block_time);
            new_target = max new_target 1
        in if entropy < entropy_threshold
           then let entropy_factor = saturating_add entropy_threshold entropy;
                    new_target = saturating_mul new_target entropy_factor
                      div saturating_mul entropy_threshold 2
                in max new_target 1
           else new_target)"

section \<open>The same computation on natural numbers\<close>

abbreviation u64_max :: nat where
  "u64_max \<equiv> 18446744073709551615"

definition retarget_step :: "nat \<Rightarrow> nat \<Rightarrow> nat \<Rightarrow> nat" where
  "retarget_step cur actual target = max (min u64_max (cur * actual) div target) 1"

definition entropy_step :: "nat \<Rightarrow> nat \<Rightarrow> nat" where
  "entropy_step t e =
     (if e < 4000000 then max (min u64_max (t * (4000000 + e)) div 8000000) 1 else t)"

definition adjusted :: "nat \<Rightarrow> nat \<Rightarrow> nat \<Rightarrow> nat \<Rightarrow> nat" where
  "adjusted cur actual target e =
     (if actual = 0 \<or> target = 0 then max (cur div 2) 1
      else entropy_step (retarget_step cur actual target) e)"

lemma unat_retarget:
  assumes "target \<noteq> 0"
  shows "unat (max (saturating_mul cur actual div target) (1 :: u64))
    = retarget_step (unat cur) (unat actual) (unat target)"
  by (simp add: retarget_step_def unat_max unat_div unat_saturating_mul)

lemma unat_entropy_factor:
  assumes "e < entropy_threshold"
  shows "unat (saturating_add entropy_threshold e) = 4000000 + unat e"
  using assms by (simp add: entropy_threshold_def unat_saturating_add word_less_nat_alt)

lemma unat_adjustment:
  "unat (calculate_difficulty_adjustment cur actual target e)
     = adjusted (unat cur) (unat actual) (unat target) (unat e)"
proof (cases "actual = 0 \<or> target = 0")
  case True
  then show ?thesis
    by (auto simp: calculate_difficulty_adjustment_def adjusted_def unat_max unat_saturating_div)
next
  case False
  have twice: "unat (saturating_mul entropy_threshold 2 :: u64) = 8000000"
    by (simp add: entropy_threshold_def unat_saturating_mul)
  from False show ?thesis
    using unat_retarget [of target cur actual] unat_entropy_factor [of e] twice
    by (auto simp: calculate_difficulty_adjustment_def adjusted_def entropy_step_def Let_def
        unat_max unat_div unat_saturating_mul word_less_nat_alt entropy_threshold_def
        unsigned_eq_0_iff)
qed

section \<open>Arithmetic of the two steps\<close>

lemma retarget_step_mono:
  "cur \<le> cur' \<Longrightarrow> actual \<le> actual' \<Longrightarrow> retarget_step cur actual t \<le> retarget_step cur' actual' t"
  unfolding retarget_step_def
  by (intro max.mono div_le_mono min.mono order_refl mult_le_mono)

lemma retarget_step_pos: "1 \<le> retarget_step cur actual t"
  by (simp add: retarget_step_def)

lemma retarget_step_exact:
  assumes "0 < t" and "1 \<le> cur" and "cur * t \<le> u64_max"
  shows "retarget_step cur t t = cur"
  using assms by (simp add: retarget_step_def max_def)

lemma entropy_step_pos: "1 \<le> t \<Longrightarrow> 1 \<le> entropy_step t e"
  by (simp add: entropy_step_def)

lemma entropy_step_le: "1 \<le> t \<Longrightarrow> entropy_step t e \<le> t"
proof -
  assume t: "1 \<le> t"
  have "min u64_max (t * (4000000 + e)) div 8000000 \<le> t" if "e < 4000000"
  proof -
    have "min u64_max (t * (4000000 + e)) \<le> t * 8000000"
      using that by (intro min.coboundedI2 mult_le_mono) auto
    then show ?thesis using div_le_mono [of _ "t * 8000000" 8000000] by simp
  qed
  with t show ?thesis by (auto simp: entropy_step_def)
qed

lemma entropy_step_capped: "e < 4000000 \<Longrightarrow> entropy_step t e \<le> 2305843009213"
  by (auto simp: entropy_step_def intro!: max.boundedI div_le_mono [of _ u64_max 8000000, simplified])

lemma entropy_step_at_least_half:
  assumes "t * 8000000 \<le> u64_max" and "1 \<le> t"
  shows "t div 2 \<le> entropy_step t e"
proof (cases "e < 4000000")
  case True
  then have "t * (4000000 + e) \<le> t * 8000000" by (intro mult_le_mono) auto
  with assms have fits: "t * (4000000 + e) \<le> u64_max" by linarith
  have "t div 2 = t * 4000000 div 8000000" by simp
  also have "\<dots> \<le> t * (4000000 + e) div 8000000" by (intro div_le_mono mult_le_mono) auto
  finally show ?thesis using fits by (simp add: entropy_step_def True min_absorb2)
qed (simp add: entropy_step_def)

lemma entropy_step_mono_target: "t \<le> t' \<Longrightarrow> entropy_step t e \<le> entropy_step t' e"
proof (cases "e < 4000000")
  case True
  assume "t \<le> t'"
  then have "min u64_max (t * (4000000 + e)) div 8000000 \<le> min u64_max (t' * (4000000 + e)) div 8000000"
    by (intro div_le_mono min.mono mult_le_mono order_refl)
  then show ?thesis using True by (simp only: entropy_step_def if_True max.mono order_refl)
qed (simp add: entropy_step_def)

lemma entropy_step_mono_entropy:
  assumes "e \<le> e'" and "1 \<le> t"
  shows "entropy_step t e \<le> entropy_step t e'"
proof (cases "e' < 4000000")
  case True
  have "min u64_max (t * (4000000 + e)) div 8000000 \<le> min u64_max (t * (4000000 + e')) div 8000000"
    using assms(1) by (intro div_le_mono min.mono mult_le_mono) auto
  then show ?thesis using True assms(1) by (simp add: entropy_step_def)
next
  case False
  then show ?thesis using entropy_step_le [OF assms(2)] by (simp add: entropy_step_def)
qed

lemma adjusted_pos: "1 \<le> adjusted cur actual target e"
  using entropy_step_pos [OF retarget_step_pos] by (simp add: adjusted_def)

lemma adjusted_mono_current: "cur \<le> cur' \<Longrightarrow> adjusted cur actual target e \<le> adjusted cur' actual target e"
  by (auto simp: adjusted_def intro!: max.mono div_le_mono entropy_step_mono_target retarget_step_mono)

section \<open>Properties\<close>

text \<open>
  The adjusted difficulty is never 0, whatever the stored difficulty, the block times and the
  entropy are: a target of 0 would accept no block but one whose hash prefix is 0.
\<close>

lemma difficulty_adjustment_positive:
  "1 \<le> calculate_difficulty_adjustment cur actual target e"
  using adjusted_pos by (simp add: word_le_nat_alt unat_adjustment)

text \<open>
  As long as the two products fit into 64 bits, the adjustment is the intended one: the
  target scaled by actual over target block time, then, under the entropy threshold, by
  (threshold + entropy) / (2 * threshold), each step rounded down and at least 1.
\<close>

lemma difficulty_adjustment_exact:
  assumes "actual \<noteq> 0" and "target \<noteq> 0" and "unat cur * unat actual \<le> u64_max"
    and "max (unat cur * unat actual div unat target) 1 * (4000000 + unat e) \<le> u64_max"
  shows "unat (calculate_difficulty_adjustment cur actual target e)
    = (let t = max (unat cur * unat actual div unat target) 1
       in if unat e < 4000000 then max (t * (4000000 + unat e) div 8000000) 1 else t)"
proof -
  have "retarget_step (unat cur) (unat actual) (unat target)
      = max (unat cur * unat actual div unat target) 1"
    using assms(3) by (simp add: retarget_step_def)
  moreover have "entropy_step (max (unat cur * unat actual div unat target) 1) (unat e)
      = (let t = max (unat cur * unat actual div unat target) 1
         in if unat e < 4000000 then max (t * (4000000 + unat e) div 8000000) 1 else t)"
    using assms(4) by (simp add: entropy_step_def Let_def)
  ultimately show ?thesis
    using assms(1,2) by (simp add: unat_adjustment adjusted_def unsigned_eq_0_iff)
qed

text \<open>
  C38: The adjustment is monotone, in spite of its roundings and saturations: for the same wanted block
  time, a larger stored target, a longer measured block time and a higher entropy never give a
  smaller new target (block times non-zero).
\<close>

theorem difficulty_adjustment_monotone:
  assumes "cur \<le> cur'" and "actual \<le> actual'" and "e \<le> e'" and "actual \<noteq> 0" and "target \<noteq> 0"
  shows "calculate_difficulty_adjustment cur actual target e
    \<le> calculate_difficulty_adjustment cur' actual' target e'"
proof -
  let ?t = "retarget_step (unat cur) (unat actual) (unat target)"
  let ?t' = "retarget_step (unat cur') (unat actual') (unat target)"
  have "?t \<le> ?t'" using assms(1,2) by (simp add: retarget_step_mono word_le_nat_alt)
  then have "entropy_step ?t (unat e) \<le> entropy_step ?t' (unat e)" by (rule entropy_step_mono_target)
  also have "\<dots> \<le> entropy_step ?t' (unat e')"
    using assms(3) by (intro entropy_step_mono_entropy retarget_step_pos) (simp add: word_le_nat_alt)
  finally show ?thesis
    using assms by (auto simp: word_le_nat_alt unat_adjustment adjusted_def unsigned_eq_0_iff)
qed

text \<open>The first of the two saturates under low entropy, the second keeps its target.\<close>

theorem difficulty_adjustment_monotone_witness:
  "calculate_difficulty_adjustment (2 ^ 60) 4 5 0 = 2305843009213
    \<and> calculate_difficulty_adjustment (2 ^ 60) 4 5 0 \<le> calculate_difficulty_adjustment (2 ^ 61) 5 5 5000000"
proof
  show "calculate_difficulty_adjustment (2 ^ 60) 4 5 0 = 2305843009213"
    by (simp add: calculate_difficulty_adjustment_def saturating_mul_def saturating_add_def entropy_threshold_def Let_def)
  show "calculate_difficulty_adjustment (2 ^ 60) 4 5 0 \<le> calculate_difficulty_adjustment (2 ^ 61) 5 5 5000000"
    by (rule difficulty_adjustment_monotone) (simp_all add: word_le_nat_alt)
qed

text \<open>
  Under the entropy threshold the multiplication saturates before the division, so the new
  target is at most u64::MAX / 8_000_000 whatever the stored difficulty is: a stored target of
  10^18 with entropy 0, which the formula means to halve, falls by a factor of more than 400000.
\<close>

lemma low_entropy_collapses_difficulty:
  assumes "actual \<noteq> 0" and "target \<noteq> 0" and "unat e < 4000000"
  shows "unat (calculate_difficulty_adjustment cur actual target e) \<le> 2305843009213"
  using assms entropy_step_capped
  by (auto simp: unat_adjustment adjusted_def unsigned_eq_0_iff)

text \<open>
  With the placeholder block times of \<open>adjust_difficulty\<close> (actual = target = 5) and healthy
  entropy the target is kept, except that 0 becomes 1 and that a target above u64::MAX / 5, where
  the product saturates, is cut to u64::MAX / 5.
\<close>

lemma on_time_keeps_difficulty:
  assumes "4000000 \<le> unat e"
  shows "unat (calculate_difficulty_adjustment cur 5 5 e)
    = max 1 (min (unat cur) 3689348814741910323)"
proof -
  have "min u64_max (unat cur * 5) div 5 = min 3689348814741910323 (unat cur)"
    by (simp add: min_def)
  then show ?thesis
    using assms
    by (simp add: unat_adjustment adjusted_def entropy_step_def retarget_step_def
        max.commute min.commute)
qed

text \<open>
  Where nothing saturates, entropy steering makes the target at most twice as hard and never
  easier when blocks arrive on time.
\<close>

lemma entropy_steering_at_most_halves:
  assumes "1 \<le> unat cur" and "unat cur * 8000000 \<le> u64_max"
  shows "unat cur div 2 \<le> unat (calculate_difficulty_adjustment cur 5 5 e)
    \<and> unat (calculate_difficulty_adjustment cur 5 5 e) \<le> unat cur"
proof -
  have "retarget_step (unat cur) 5 5 = unat cur"
    using assms by (intro retarget_step_exact) auto
  then show ?thesis
    using entropy_step_at_least_half [OF assms(2,1)] entropy_step_le [OF assms(1)]
    by (simp add: unat_adjustment adjusted_def)
qed

end
