(* ===== verification/Ghost_Entropy.thy ===== *)
theory Ghost_Entropy
  imports Ghost_Types "HOL-Library.Multiset"
begin

text \<open>
  \<open>integer_log2_scaled\<close> and \<open>calculate_entropy\<close> of the pallet's \<open>functions.rs\<close>: the Shannon
  entropy of the recent block producers in fixed point, scaled by 10^6. The Rust code computes
  with \<open>u64\<close>; the lemmas relate it to the same formulas on natural numbers and show that no
  operation overflows for windows of up to 2^32 producers (the pallet keeps at most 100).
\<close>

section \<open>Definitions\<close>

text \<open>\<open>u64::leading_zeros\<close>: how many of the bits 63, 62, ... are clear before the first set one.\<close>

definition leading_zeros :: "u64 \<Rightarrow> nat" where
  "leading_zeros x = length (takeWhile (\<lambda>i. \<not> bit x i) (rev [0..<64]))"

definition integer_log2_scaled :: "bool \<Rightarrow> u64 \<Rightarrow> u64 option" where
  "integer_log2_scaled chk x =
     (if x = 0 then Some 0
      else
        let scaling_factor = 1000000;
            integer_part = 63 - leading_zeros x;
            rem = xor x (push_bit integer_part 1)
        in do {
          scaled_rem \<leftarrow> mul_w chk rem scaling_factor;
          fractional_part \<leftarrow> div_w scaled_rem (push_bit integer_part 1);
          scaled_part \<leftarrow> mul_w chk (of_nat integer_part) scaling_factor;
          add_w chk scaled_part fractional_part
        })"

text \<open>
  \<open>*counts.entry(producer).or_insert(0u64) += 1\<close> on a \<open>BTreeMap\<close>, kept as the list of its
  entries in the order of their keys.
\<close>

fun count_entry :: "bool \<Rightarrow> 'acc::linorder \<Rightarrow> ('acc \<times> u64) list \<Rightarrow> ('acc \<times> u64) list option" where
  "count_entry chk p [] = do { c \<leftarrow> add_w chk 0 1; Some [(p, c)] }"
| "count_entry chk p ((q, c) # counts) =
     (if p < q then do { c' \<leftarrow> add_w chk 0 1; Some ((p, c') # (q, c) # counts) }
      else if p = q then do { c' \<leftarrow> add_w chk c 1; Some ((q, c') # counts) }
      else do { counts' \<leftarrow> count_entry chk p counts; Some ((q, c) # counts') })"

definition entropy_term :: "bool \<Rightarrow> u64 \<Rightarrow> u64 \<Rightarrow> u64 \<Rightarrow> u64 \<Rightarrow> u64 option" where
  "entropy_term chk total_count log2_total cnt total_entropy =
     do {
       log2_count \<leftarrow> integer_log2_scaled chk cnt;
       scaled \<leftarrow> mul_w chk cnt (saturating_sub log2_total log2_count);
       term \<leftarrow> div_w scaled total_count;
       Some (saturating_add total_entropy term)
     }"

definition calculate_entropy :: "bool \<Rightarrow> 'acc::linorder list \<Rightarrow> u64 option" where
  "calculate_entropy chk producers =
     (let total_count = of_nat (length producers)
      in if total_count = 0 then Some 0
         else do {
           counts \<leftarrow> for_each (count_entry chk) producers [];
           log2_total \<leftarrow> integer_log2_scaled chk total_count;
           for_each (entropy_term chk total_count log2_total) (map snd counts) 0
         })"

section \<open>The logarithm on natural numbers\<close>

fun ilog2 :: "nat \<Rightarrow> nat" where
  "ilog2 n = (if n \<le> 1 then 0 else Suc (ilog2 (n div 2)))"

declare ilog2.simps [simp del]

definition log2_scaled :: "nat \<Rightarrow> nat" where
  "log2_scaled n = ilog2 n * 1000000 + (n - 2 ^ ilog2 n) * 1000000 div 2 ^ ilog2 n"

lemma ilog2_one [simp]: "ilog2 (Suc 0) = 0"
  by (simp add: ilog2.simps)

lemma ilog2_bounds: "1 \<le> n \<Longrightarrow> 2 ^ ilog2 n \<le> n \<and> n < 2 * 2 ^ ilog2 n"
proof (induction n rule: ilog2.induct)
  case (1 n)
  show ?case
  proof (cases "n \<le> 1")
    case True
    with "1.prems" have "n = Suc 0" by simp
    then show ?thesis by simp
  next
    case False
    then have "2 ^ ilog2 (n div 2) \<le> n div 2 \<and> n div 2 < 2 * 2 ^ ilog2 (n div 2)"
      using "1.IH" by simp
    with False show ?thesis by (auto simp: ilog2.simps [of n])
  qed
qed

lemma ilog2_unique:
  assumes "2 ^ k \<le> n" and "n < 2 * 2 ^ k"
  shows "ilog2 n = k"
proof -
  have "1 \<le> n" using assms(1) by (metis one_le_numeral one_le_power order.trans)
  then have b: "2 ^ ilog2 n \<le> n" "n < 2 * 2 ^ ilog2 n" using ilog2_bounds by auto
  have "(2::nat) ^ k < 2 ^ Suc (ilog2 n)" "(2::nat) ^ ilog2 n < 2 ^ Suc k"
    using assms b by (auto intro: le_less_trans)
  then have "k < Suc (ilog2 n)" "ilog2 n < Suc k" by (simp_all only: power_strict_increasing_iff one_less_numeral_iff semiring_norm)
  then show ?thesis by simp
qed

lemma log2_scaled_one [simp]: "log2_scaled (Suc 0) = 0"
  by (simp add: log2_scaled_def ilog2.simps)

lemma log2_scaled_power: "log2_scaled (2 ^ k) = k * 1000000"
  by (simp add: log2_scaled_def ilog2_unique [of k])

lemma log2_scaled_fraction:
  assumes "1 \<le> n"
  shows "(n - 2 ^ ilog2 n) * 1000000 div 2 ^ ilog2 n < 1000000"
proof -
  have "n - 2 ^ ilog2 n < 2 ^ ilog2 n" using ilog2_bounds [OF assms] by linarith
  then have "(n - 2 ^ ilog2 n) * 1000000 < 1000000 * 2 ^ ilog2 n" by simp
  then show ?thesis by (simp add: div_less_iff_less_mult)
qed

lemma ilog2_mono: "1 \<le> n \<Longrightarrow> n \<le> m \<Longrightarrow> ilog2 n \<le> ilog2 m"
proof (rule ccontr)
  assume n: "1 \<le> n" "n \<le> m" and "\<not> ilog2 n \<le> ilog2 m"
  then have "(2::nat) ^ Suc (ilog2 m) \<le> 2 ^ ilog2 n" by (intro power_increasing) auto
  with n show False using ilog2_bounds [of n] ilog2_bounds [of m] by simp
qed

lemma log2_scaled_mono:
  assumes "1 \<le> n" and "n \<le> m"
  shows "log2_scaled n \<le> log2_scaled m"
proof (cases "ilog2 n = ilog2 m")
  case True
  have "(n - 2 ^ ilog2 m) * 1000000 div 2 ^ ilog2 m \<le> (m - 2 ^ ilog2 m) * 1000000 div 2 ^ ilog2 m"
    using assms(2) by (intro div_le_mono mult_le_mono) auto
  with True show ?thesis by (simp add: log2_scaled_def)
next
  case False
  with ilog2_mono [OF assms] have "ilog2 n * 1000000 + 1000000 \<le> ilog2 m * 1000000" by simp
  then show ?thesis using log2_scaled_fraction [OF assms(1)] by (simp add: log2_scaled_def)
qed

section \<open>The logarithm on u64\<close>

lemma leading_zeros_eq:
  assumes "2 ^ k \<le> unat x" and "unat x < 2 * 2 ^ k"
  shows "k < 64" and "leading_zeros x = 63 - k" and "xor x (push_bit k 1) = take_bit k x"
proof -
  have "(2::nat) ^ k < 2 ^ 64" using assms(1) unat_bound [of x] by simp
  then show k: "k < 64" by (simp only: power_strict_increasing_iff one_less_numeral_iff semiring_norm)
  have "unat x div 2 ^ k = 1"
    using assms by (simp add: div_nat_eqI)
  then have "bit (unat x) k" by (simp add: bit_iff_odd)
  then have top: "bit x k" by (simp add: bit_unsigned_iff)
  have high: "\<not> bit x i" if "k < i" for i
  proof -
    have "(2::nat) * 2 ^ k \<le> 2 ^ i"
      using that power_increasing [of "Suc k" i "2::nat"] by simp
    then have "unat x div 2 ^ i = 0" using assms(2) by simp
    then have "\<not> bit (unat x) i" by (simp add: bit_iff_odd)
    then show ?thesis using bit_imp_le_length [of x i] by (auto simp: bit_unsigned_iff)
  qed
  have split: "[0..<64] = [0..<k] @ k # [Suc k..<64]"
    using k upt_add_eq_append [of 0 k "64 - k"] by (simp add: upt_conv_Cons)
  have "takeWhile (\<lambda>i. \<not> bit x i) (rev [0..<64]) = rev [Suc k..<64]"
    unfolding split using top high by (simp add: takeWhile_append)
  then show "leading_zeros x = 63 - k" by (simp add: leading_zeros_def)
  show "xor x (push_bit k 1) = take_bit k x"
    using top high by (intro bit_word_eqI) (auto simp: bit_simps nat_neq_iff)
qed

text \<open>For arguments below 2^44 the scaled remainder fits, and the code computes the formula.\<close>

lemma integer_log2_scaled_eq:
  assumes "1 \<le> unat x" and "unat x < 2 ^ 44"
  shows "\<exists>y. integer_log2_scaled chk x = Some y \<and> unat y = log2_scaled (unat x)"
proof -
  define k where "k = ilog2 (unat x)"
  have b: "2 ^ k \<le> unat x" "unat x < 2 * 2 ^ k"
    using ilog2_bounds [OF assms(1)] by (auto simp: k_def)
  note lz = leading_zeros_eq [OF b]
  let ?rem = "take_bit k x" and ?pow = "push_bit k 1 :: u64"
  have "unat x mod 2 ^ k = unat x - 2 ^ k"
    using b by (simp add: mod_if [of "unat x"] le_mod_geq)
  then have rem: "unat ?rem = unat x - 2 ^ k"
    by (subst unsigned_take_bit_eq) (simp add: take_bit_eq_mod)
  have pow: "unat ?pow = 2 ^ k"
    using lz(1) power_strict_increasing [of k 64 "2::nat"]
    by (subst unsigned_push_bit_eq) (simp add: push_bit_eq_mult take_bit_eq_mod)
  have ip: "unat (of_nat k :: u64) = k"
    using lz(1) by (simp add: unat_of_nat)
  have fits: "unat ?rem * unat (1000000 :: u64) < 2 ^ LENGTH(64)"
    using assms(2) rem by simp
  let ?frac = "?rem * 1000000 div ?pow"
  have frac: "unat ?frac = (unat x - 2 ^ k) * 1000000 div 2 ^ k"
    using fits rem pow by (simp add: unat_div unat_mult_fits)
  then have frac_less: "unat ?frac < 1000000"
    using log2_scaled_fraction [OF assms(1)] by (simp add: k_def)
  have part: "unat (of_nat k * 1000000 :: u64) = k * 1000000"
    using ip lz(1) by (simp add: unat_mult_fits)
  have "?pow \<noteq> 0" using pow by (metis power_not_zero unat_0 zero_neq_numeral)
  then have "integer_log2_scaled chk x = Some (of_nat k * 1000000 + ?frac)"
    using assms(1) fits ip part frac_less lz
    by (auto simp: integer_log2_scaled_def Let_def rust_arith)
  moreover have "unat (of_nat k * 1000000 + ?frac) = log2_scaled (unat x)"
    using part frac frac_less lz(1) by (simp add: unat_add_fits log2_scaled_def k_def)
  ultimately show ?thesis by blast
qed

section \<open>Counting\<close>

lemma count_entry_old:
  assumes "sorted ks" and "distinct ks" and "p \<in> set ks"
    and "unat (g p) + 1 < 2 ^ 64"
  shows "count_entry chk p (map (\<lambda>k. (k, g k)) ks) = Some (map (\<lambda>k. (k, (g(p := g p + 1)) k)) ks)"
  using assms
proof (induction ks)
  case (Cons q ks)
  show ?case
  proof (cases "p = q")
    case True
    with Cons.prems show ?thesis by (auto simp: add_w_fits)
  next
    case False
    with Cons.prems have "q < p" by auto
    with Cons False show ?thesis by auto
  qed
qed simp

lemma count_entry_new:
  assumes "sorted ks" and "p \<notin> set ks"
  shows "count_entry chk p (map (\<lambda>k. (k, g k)) ks) = Some (map (\<lambda>k. (k, (g(p := 1)) k)) (insort p ks))"
  using assms
proof (induction ks)
  case (Cons q ks)
  then have "p \<noteq> q" by auto
  then show ?case
    using Cons by (auto simp: add_w_fits not_less order.order_iff_strict)
qed (simp add: add_w_fits)

definition tally :: "'acc::linorder list \<Rightarrow> ('acc \<times> u64) list" where
  "tally ps = map (\<lambda>p. (p, of_nat (count_list ps p))) (sorted_list_of_set (set ps))"

lemma count_entry_tally:
  assumes "length ps + 1 < 2 ^ 64"
  shows "count_entry chk p (tally ps) = Some (tally (ps @ [p]))"
proof (cases "p \<in> set ps")
  case True
  let ?g = "\<lambda>p. of_nat (count_list ps p) :: u64"
  have "unat (?g p) \<le> length ps"
    using count_le_length [of ps p] by (simp add: unat_of_nat mod_less_eq_dividend order.trans)
  then have "count_entry chk p (tally ps)
      = Some (map (\<lambda>k. (k, (?g(p := ?g p + 1)) k)) (sorted_list_of_set (set ps)))"
    unfolding tally_def using True assms by (intro count_entry_old) auto
  moreover have "insert p (set ps) = set ps" using True by auto
  ultimately show ?thesis
    by (auto simp: tally_def intro!: map_cong)
next
  case False
  let ?g = "\<lambda>p. of_nat (count_list ps p) :: u64"
  have "count_entry chk p (tally ps)
      = Some (map (\<lambda>k. (k, (?g(p := 1)) k)) (insort p (sorted_list_of_set (set ps))))"
    unfolding tally_def using False by (intro count_entry_new) auto
  then show ?thesis
    using False by (auto simp: tally_def intro!: map_cong)
qed

lemma for_each_count_entry:
  assumes "length ps < 2 ^ 64"
  shows "for_each (count_entry chk) ps [] = Some (tally ps)"
  using assms
proof (induction ps rule: rev_induct)
  case Nil
  then show ?case by (simp add: tally_def)
next
  case (snoc p ps)
  then show ?case by (simp add: for_each_append count_entry_tally)
qed

section \<open>The entropy on natural numbers\<close>

text \<open>\<open>n\<close> producers in all, of which this one has \<open>c\<close> blocks.\<close>

definition share :: "nat \<Rightarrow> nat \<Rightarrow> nat" where
  "share n c = c * (log2_scaled n - log2_scaled c) div n"

definition entropy_nat :: "'acc list \<Rightarrow> nat" where
  "entropy_nat ps = (\<Sum>p \<in> set ps. share (length ps) (count_list ps p))"

lemma sum_div_le: "finite A \<Longrightarrow> (\<Sum>x \<in> A. f x div n) \<le> (\<Sum>x \<in> A. f x) div (n::nat)"
proof (induction rule: finite_induct)
  case (insert x A)
  have "f x div n + sum f A div n \<le> (f x + sum f A) div n" by (simp add: div_add1_eq [of "f x" "sum f A"])
  with insert show ?case by simp
qed simp

lemma sum_share_le:
  assumes "A \<subseteq> set ps"
  shows "(\<Sum>p \<in> A. share (length ps) (count_list ps p)) \<le> log2_scaled (length ps)"
proof (cases "ps = []")
  case False
  let ?n = "length ps" and ?L = "log2_scaled (length ps)"
  have A: "finite A" using assms finite_subset by auto
  have "(\<Sum>p \<in> A. share ?n (count_list ps p)) \<le> (\<Sum>p \<in> A. count_list ps p * ?L div ?n)"
    unfolding share_def by (intro sum_mono div_le_mono mult_le_mono) auto
  also have "\<dots> \<le> (\<Sum>p \<in> A. count_list ps p * ?L) div ?n"
    by (rule sum_div_le [OF A])
  also have "(\<Sum>p \<in> A. count_list ps p * ?L) = (\<Sum>p \<in> A. count_list ps p) * ?L"
    by (simp add: sum_distrib_right)
  also have "\<dots> div ?n \<le> ?n * ?L div ?n"
    using sum_mono2 [OF _ assms, of "count_list ps"] sum_count_set [of ps "set ps"]
    by (intro div_le_mono mult_le_mono) auto
  finally show ?thesis using False by simp
qed (use assms in simp)

lemma entropy_nat_le: "entropy_nat ps \<le> log2_scaled (length ps)"
  unfolding entropy_nat_def by (rule sum_share_le) simp

lemma log2_scaled_le: "1 \<le> n \<Longrightarrow> n \<le> 2 ^ 32 \<Longrightarrow> log2_scaled n \<le> 32000000"
  using log2_scaled_mono [of n "2 ^ 32"] by (simp only: log2_scaled_power) simp

lemma entropy_term_eq:
  assumes c: "1 \<le> c" "c \<le> n" and n: "n \<le> 2 ^ 32"
    and L: "unat L = log2_scaled n" and e: "unat e + share n c < 2 ^ 64"
  shows "\<exists>e'. entropy_term chk (of_nat n) L (of_nat c) e = Some e' \<and> unat e' = unat e + share n c"
proof -
  have un: "unat (of_nat n :: u64) = n" and uc: "unat (of_nat c :: u64) = c"
    using c n by (simp_all add: unat_of_nat)
  obtain l where l: "integer_log2_scaled chk (of_nat c) = Some l" "unat l = log2_scaled c"
    using integer_log2_scaled_eq [of "of_nat c :: u64" chk] uc c n by auto
  let ?d = "saturating_sub L l"
  have d: "unat ?d = log2_scaled n - log2_scaled c"
    using L l by (simp add: unat_saturating_sub)
  have "unat ?d \<le> 32000000" using d log2_scaled_le [of n] c n by linarith
  then have "c * unat ?d \<le> 2 ^ 32 * 32000000" using c n by (intro mult_le_mono) auto
  then have fits: "unat (of_nat c :: u64) * unat ?d < 2 ^ LENGTH(64)" using uc by simp
  have "of_nat n \<noteq> (0 :: u64)" using un c by (metis unat_0 not_one_le_zero order.trans)
  moreover have "unat (of_nat c * ?d div of_nat n :: u64) = share n c"
    using un uc d fits by (simp add: unat_div unat_mult_fits share_def)
  ultimately show ?thesis
    using l e fits by (simp add: entropy_term_def rust_arith unat_saturating_add)
qed

lemma entropy_loop:
  assumes "distinct ks" and "set ks \<subseteq> set ps" and "length ps \<le> 2 ^ 32"
    and "unat L = log2_scaled (length ps)"
    and "unat e + (\<Sum>p \<in> set ks. share (length ps) (count_list ps p)) < 2 ^ 64"
  shows "\<exists>e'. for_each (entropy_term chk (of_nat (length ps)) L)
      (map (\<lambda>p. of_nat (count_list ps p)) ks) e = Some e'
    \<and> unat e' = unat e + (\<Sum>p \<in> set ks. share (length ps) (count_list ps p))"
  using assms
proof (induction ks arbitrary: e)
  case (Cons p ks)
  have c: "1 \<le> count_list ps p" "count_list ps p \<le> length ps"
    using Cons.prems(2) count_list_0_iff [of ps p] by (auto simp: count_le_length Suc_le_eq)
  obtain e1 where e1: "entropy_term chk (of_nat (length ps)) L (of_nat (count_list ps p)) e = Some e1"
      "unat e1 = unat e + share (length ps) (count_list ps p)"
    using entropy_term_eq [OF c Cons.prems(3,4), of e chk] Cons.prems(1,5) by auto
  then show ?case using Cons.IH [of e1] Cons.prems by (auto simp: add.assoc)
qed simp

text \<open>The code computes \<open>entropy_nat\<close>, under either build profile.\<close>

lemma calculate_entropy_eq:
  assumes "length ps \<le> 2 ^ 32"
  shows "\<exists>e. calculate_entropy chk ps = Some e \<and> unat e = entropy_nat ps"
proof (cases "ps = []")
  case True
  then show ?thesis by (simp add: calculate_entropy_def entropy_nat_def)
next
  case False
  let ?n = "of_nat (length ps) :: u64"
  have un: "unat ?n = length ps" using assms by (simp add: unat_of_nat)
  have pos: "1 \<le> length ps" using False by (cases ps) auto
  obtain L where L: "integer_log2_scaled chk ?n = Some L" "unat L = log2_scaled (length ps)"
    using integer_log2_scaled_eq [of ?n chk] un pos assms by auto
  have "entropy_nat ps \<le> 32000000"
    using entropy_nat_le [of ps] log2_scaled_le [of "length ps"] pos assms by linarith
  then obtain e where e: "for_each (entropy_term chk ?n L)
        (map (\<lambda>p. of_nat (count_list ps p)) (sorted_list_of_set (set ps))) 0 = Some e"
      "unat e = entropy_nat ps"
    using entropy_loop [of "sorted_list_of_set (set ps)" ps L 0 chk] assms L
    by (auto simp: entropy_nat_def)
  have "?n \<noteq> 0" using un pos by (metis unat_0 not_one_le_zero)
  then have "calculate_entropy chk ps = Some e"
    using assms L e by (simp add: calculate_entropy_def Let_def for_each_count_entry tally_def comp_def)
  with e(2) show ?thesis by blast
qed

section \<open>Properties\<close>

text \<open>
  For every window of at most 2^32 producers \<open>calculate_entropy\<close> returns (no operation
  overflows, so debug and release builds agree) and its value is the sum of the producers'
  shares, which is at most the scaled logarithm of the window's length.
\<close>

lemma entropy_total_and_bounded:
  assumes "length ps \<le> 2 ^ 32"
  shows "\<exists>e. calculate_entropy chk ps = Some e \<and> unat e = entropy_nat ps
    \<and> unat e \<le> log2_scaled (length ps)"
  using calculate_entropy_eq [OF assms, of chk] entropy_nat_le [of ps] by auto

text \<open>
  The entropy of a window the pallet keeps (at most 100 producers) never exceeds 6562500,
  the fixed-point value of log2(100) that this code computes.
\<close>

lemma entropy_window_bound:
  assumes "length ps \<le> 100"
  shows "\<exists>e. calculate_entropy chk ps = Some e \<and> unat e \<le> 6562500"
proof -
  have "log2_scaled 100 = 6562500"
    by (simp add: log2_scaled_def ilog2_unique [of 6])
  moreover have "entropy_nat ps \<le> log2_scaled 100"
  proof (cases "ps = []")
    case False
    then have "log2_scaled (length ps) \<le> log2_scaled 100"
      using assms by (intro log2_scaled_mono) (cases ps, auto)
    then show ?thesis using entropy_nat_le [of ps] by simp
  qed (simp add: entropy_nat_def)
  ultimately show ?thesis using calculate_entropy_eq [of ps chk] assms by auto
qed

text \<open>
  The entropy measures only how often each producer occurs: it does not depend on the order
  of the window nor on the identity of the accounts.
\<close>

lemma entropy_order_and_names_irrelevant:
  assumes "length ps \<le> 2 ^ 32" and "mset qs = mset (map f ps)" and "inj_on f (set ps)"
  shows "calculate_entropy chk qs = calculate_entropy chk ps"
proof -
  have len: "length qs = length ps" using assms(2) by (metis size_mset length_map)
  have sets: "set qs = f ` set ps" using assms(2) by (metis set_mset_mset set_map)
  have cnt: "count_list qs (f p) = count_list ps p" if "p \<in> set ps" for p
  proof -
    have "count_list qs (f p) = count_list (map f ps) (f p)"
      using assms(2) by (metis count_list_eq_length_filter count_mset)
    then show ?thesis using count_list_inj_map [OF assms(3) that] by simp
  qed
  have "entropy_nat qs = entropy_nat ps"
    using cnt len by (simp add: entropy_nat_def sets sum.reindex [OF assms(3)] comp_def)
  then show ?thesis
    using calculate_entropy_eq [of ps chk] calculate_entropy_eq [of qs chk] assms(1) len
    by (auto simp: word_unat_eq_iff)
qed

text \<open>
  The two extremes. A window with one producer has entropy 0; a window of n distinct producers
  has n times the rounded-down n-th part of log2(n).
\<close>

lemma entropy_extremes:
  assumes "1 \<le> n" and "n \<le> 2 ^ 32"
  shows "calculate_entropy chk (replicate n p) = Some 0 \<and>
    map_option unat (calculate_entropy chk [0 ..< n]) = Some (n * (log2_scaled n div n))"
proof
  have "count_list (replicate n p) p = n" by (simp add: count_list_eq_length_filter)
  then have "entropy_nat (replicate n p) = 0"
    using assms(1) by (simp add: entropy_nat_def share_def)
  then show "calculate_entropy chk (replicate n p) = Some 0"
    using calculate_entropy_eq [of "replicate n p" chk] assms(2) by (auto simp: unsigned_eq_0_iff)
  have "count_list [0 ..< n] i = 1" if "i < n" for i
    using that by (simp add: count_list_eq_length_filter distinct_length_filter Int_absorb2)
  then have "entropy_nat [0 ..< n] = n * (log2_scaled n div n)"
    by (simp add: entropy_nat_def share_def)
  then show "map_option unat (calculate_entropy chk [0 ..< n]) = Some (n * (log2_scaled n div n))"
    using calculate_entropy_eq [of "[0 ..< n]" chk] assms(2) by auto
qed

end
