(* ===== verification/Ghost_Selection.thy ===== *)
theory Ghost_Selection
  imports Ghost_Types
begin

text \<open>
  \<open>select_pos_validator\<close> of the pallet's \<open>functions.rs\<close>: the stake-weighted choice of the
  validator of a block. The loop over the stakers is compared with \<open>pick\<close>, the choice on natural
  numbers, and the choice is shown to be proportional: of the random values below the total
  weight, exactly as many select an account as its weight is.
\<close>

section \<open>Definitions\<close>

definition add_weight :: "bool \<Rightarrow> 'acc ValidatorStake \<Rightarrow> u64 \<Rightarrow> u64 option" where
  "add_weight chk s acc = add_w chk acc (vs_weight s)"

primrec select_loop ::
  "bool \<Rightarrow> u32 \<Rightarrow> u64 \<Rightarrow> 'acc ValidatorStake list \<Rightarrow> u64 \<Rightarrow> 'acc PosSelection option option" where
  "select_loop chk block_number random_value [] cumulative_weight = Some None"
| "select_loop chk block_number random_value (staker # stakers) cumulative_weight =
     do {
       cumulative_weight \<leftarrow> add_w chk cumulative_weight (vs_weight staker);
       if random_value < cumulative_weight
       then Some (Some \<lparr>sel_validator = vs_account staker, sel_weight = vs_weight staker,
                        sel_round = saturated_into block_number\<rparr>)
       else select_loop chk block_number random_value stakers cumulative_weight
     }"

definition select_pos_validator ::
  "bool \<Rightarrow> u32 \<Rightarrow> 'acc ValidatorStake list \<Rightarrow> H256 \<Rightarrow> 'acc PosSelection option option" where
  "select_pos_validator chk block_number stakers seed =
     (if stakers = [] then Some None
      else do {
        total_weight \<leftarrow> for_each (add_weight chk) stakers 0;
        if total_weight = 0 then Some None
        else let random_value = hash_prefix seed mod total_weight
             in select_loop chk block_number random_value stakers 0
      })"

section \<open>The choice on natural numbers\<close>

definition weight_sum :: "'acc ValidatorStake list \<Rightarrow> nat" where
  "weight_sum ss = (\<Sum>s \<leftarrow> ss. unat (vs_weight s))"

definition weight_of :: "'acc \<Rightarrow> 'acc ValidatorStake list \<Rightarrow> nat" where
  "weight_of a ss = (\<Sum>s \<leftarrow> ss. if vs_account s = a then unat (vs_weight s) else 0)"

primrec pick :: "'acc ValidatorStake list \<Rightarrow> nat \<Rightarrow> 'acc ValidatorStake option" where
  "pick [] r = None"
| "pick (s # ss) r = (if r < unat (vs_weight s) then Some s else pick ss (r - unat (vs_weight s)))"

definition selection_of :: "u32 \<Rightarrow> 'acc ValidatorStake \<Rightarrow> 'acc PosSelection" where
  "selection_of block_number s =
     \<lparr>sel_validator = vs_account s, sel_weight = vs_weight s, sel_round = saturated_into block_number\<rparr>"

lemma weight_sum_simps [simp]:
  "weight_sum [] = 0"
  "weight_sum (s # ss) = unat (vs_weight s) + weight_sum ss"
  by (simp_all add: weight_sum_def)

lemma weight_of_simps [simp]:
  "weight_of a [] = 0"
  "weight_of a (s # ss) = (if vs_account s = a then unat (vs_weight s) else 0) + weight_of a ss"
  by (simp_all add: weight_of_def)

lemma for_each_add_weight:
  assumes "unat acc + weight_sum ss < 2 ^ 64"
  shows "\<exists>t. for_each (add_weight chk) ss acc = Some t \<and> unat t = unat acc + weight_sum ss"
  using assms
proof (induction ss arbitrary: acc)
  case (Cons s ss)
  then have fits: "unat acc + unat (vs_weight s) < 2 ^ LENGTH(64)" by simp
  then show ?case
    using Cons.IH [of "acc + vs_weight s"] Cons.prems
    by (simp add: add_weight_def add_w_fits unat_add_fits add.assoc)
qed simp

lemma select_loop_pick:
  assumes "unat cum + weight_sum ss < 2 ^ 64" and "unat cum \<le> unat r"
  shows "select_loop chk n r ss cum = Some (map_option (selection_of n) (pick ss (unat r - unat cum)))"
  using assms
proof (induction ss arbitrary: cum)
  case (Cons s ss)
  have fits: "unat cum + unat (vs_weight s) < 2 ^ LENGTH(64)" using Cons.prems by simp
  have less: "r < cum + vs_weight s \<longleftrightarrow> unat r - unat cum < unat (vs_weight s)"
    using Cons.prems(2) unat_add_fits [OF fits] by (simp add: word_less_nat_alt less_diff_conv2 add.commute)
  show ?case
  proof (cases "r < cum + vs_weight s")
    case True
    then show ?thesis using fits less by (simp add: add_w_fits selection_of_def)
  next
    case False
    then have "unat (cum + vs_weight s) \<le> unat r" by (simp add: word_less_nat_alt)
    then show ?thesis
      using Cons.IH [of "cum + vs_weight s"] Cons.prems fits False less
      by (simp add: add_w_fits unat_add_fits diff_diff_left add.assoc)
  qed
qed simp

lemma select_pos_validator_pick:
  assumes "weight_sum ss < 2 ^ 64" and "0 < weight_sum ss"
  shows "select_pos_validator chk n ss seed
    = Some (map_option (selection_of n) (pick ss (unat (hash_prefix seed) mod weight_sum ss)))"
proof -
  obtain t where t: "for_each (add_weight chk) ss 0 = Some t" "unat t = weight_sum ss"
    using for_each_add_weight [of 0 ss chk] assms(1) by auto
  then have "t \<noteq> 0" using assms(2) by auto
  then show ?thesis
    using t assms select_loop_pick [of 0 ss "hash_prefix seed mod t" chk n]
    by (auto simp: select_pos_validator_def unat_mod)
qed

lemma pick_Some:
  "r < weight_sum ss \<Longrightarrow> \<exists>s. pick ss r = Some s \<and> s \<in> set ss \<and> 0 < unat (vs_weight s)"
proof (induction ss arbitrary: r)
  case (Cons s ss)
  show ?case
  proof (cases "r < unat (vs_weight s)")
    case False
    then have "r - unat (vs_weight s) < weight_sum ss" using Cons.prems by simp
    then show ?thesis using Cons.IH False by auto
  qed auto
qed simp

lemma pick_count:
  "card {r. r < weight_sum ss \<and> (\<exists>s. pick ss r = Some s \<and> vs_account s = a)} = weight_of a ss"
proof (induction ss)
  case (Cons s ss)
  let ?w = "unat (vs_weight s)"
  let ?A = "{r. r < weight_sum ss \<and> (\<exists>s. pick ss r = Some s \<and> vs_account s = a)}"
  let ?B = "if vs_account s = a then {..<?w} else {}"
  have "{r. r < weight_sum (s # ss) \<and> (\<exists>t. pick (s # ss) r = Some t \<and> vs_account t = a)}
      = ?B \<union> (\<lambda>r. r + ?w) ` ?A" (is "?L = ?R")
  proof (intro set_eqI iffI)
    fix r assume r: "r \<in> ?L"
    show "r \<in> ?R"
    proof (cases "r < ?w")
      case False
      then have "r - ?w \<in> ?A" "r = (r - ?w) + ?w" using r by auto
      then show ?thesis by blast
    qed (use r in auto)
  next
    fix r assume "r \<in> ?R"
    then show "r \<in> ?L" by (auto split: if_splits)
  qed
  moreover have "?B \<inter> (\<lambda>r. r + ?w) ` ?A = {}" by (auto split: if_splits)
  ultimately show ?case
    using Cons by (simp add: card_Un_disjoint card_image)
qed simp

section \<open>Properties\<close>

text \<open>
  When the weights are not all zero and their sum fits into 64 bits, the selection returns a
  validator of the list, the one whose interval of the cumulative weights holds the random value
  (the seed's leading 64 bits modulo the total weight); its weight is positive and reported.
\<close>

lemma selection_total:
  assumes "0 < weight_sum ss" and "weight_sum ss < 2 ^ 64"
  shows "\<exists>s \<in> set ss. select_pos_validator chk n ss seed = Some (Some (selection_of n s))
    \<and> pick ss (unat (hash_prefix seed) mod weight_sum ss) = Some s \<and> 0 < unat (vs_weight s)"
  using pick_Some [of "unat (hash_prefix seed) mod weight_sum ss" ss] assms
  by (auto simp: select_pos_validator_pick)

text \<open>
  C22: Selection is exactly proportional to stake weight: among the random values below the total
  weight, the number that select an account equals the account's weight, so an account of weight
  0 is never selected.
\<close>

theorem selection_proportional:
  assumes "0 < weight_sum ss" and "weight_sum ss < 2 ^ 64"
  shows "card {r. r < weight_sum ss \<and> (\<exists>sel. select_pos_validator chk n ss (push_bit 192 (of_nat r))
      = Some (Some sel) \<and> sel_validator sel = a)} = weight_of a ss"
proof -
  have "select_pos_validator chk n ss (push_bit 192 (of_nat r))
      = Some (map_option (selection_of n) (pick ss r))" if "r < weight_sum ss" for r
  proof -
    have r: "unat (of_nat r :: u64) = r" using that assms(2) by (simp add: unat_of_nat)
    have "(of_nat r :: H256) = ucast (of_nat r :: u64)"
      using that assms(2) by (simp add: word_unat_eq_iff unsigned_ucast_eq unat_of_nat take_bit_nat_eq_self)
    then have "hash_prefix (push_bit 192 (of_nat r)) = (of_nat r :: u64)"
      by (simp add: hash_prefix_eq) (rule bit_word_eqI, simp add: bit_simps)
    then show ?thesis using r that assms by (simp add: select_pos_validator_pick)
  qed
  then have "{r. r < weight_sum ss \<and> (\<exists>sel. select_pos_validator chk n ss (push_bit 192 (of_nat r))
        = Some (Some sel) \<and> sel_validator sel = a)}
      = {r. r < weight_sum ss \<and> (\<exists>s. pick ss r = Some s \<and> vs_account s = a)}"
    by (auto simp: selection_of_def)
  then show ?thesis by (simp add: pick_count)
qed

theorem selection_proportional_witness:
  "let ss = [\<lparr>vs_account = 1 :: nat, vs_stake = 30, vs_weight = 30\<rparr>,
             \<lparr>vs_account = 2, vs_stake = 20, vs_weight = 20\<rparr>]
   in card {r. r < weight_sum ss \<and> (\<exists>sel. select_pos_validator True 7 ss (push_bit 192 (of_nat r))
      = Some (Some sel) \<and> sel_validator sel = 2)} = 20"
  unfolding Let_def by (subst selection_proportional) simp_all

text \<open>
  Two validators whose weights sum to 2^64: under a debug build the selection panics, under a
  release build the sum wraps around to 0 and no validator is found although all have stake.
\<close>

lemma selection_weight_overflow:
  assumes "unat (vs_weight s) + unat (vs_weight t) = 2 ^ 64"
  shows "select_pos_validator chk n [s, t] seed = (if chk then None else Some None)"
proof -
  have "vs_weight s + vs_weight t = 0"
    using assms by (simp add: word_unat_eq_iff unat_word_ariths(1))
  then show ?thesis
    using assms unat_bound [of "vs_weight s"]
    by (auto simp: select_pos_validator_def add_weight_def add_w_def)
qed

end
