(* ===== verification/Ghost_Rewards.thy ===== *)
theory Ghost_Rewards
  imports Ghost_Currency
begin

text \<open>
  \<open>calculate_block_reward\<close> and \<open>distribute_rewards\<close> of the pallet's \<open>functions.rs\<close>: the 40/60
  split of the block reward and its payment to the miner and, in proportion to stake, to the
  stakers. The lemmas on payments are proved inside the locale \<open>balances_pallet\<close>, from the laws of
  \<open>deposit_creating\<close> alone.
\<close>

section \<open>Definitions\<close>

definition calculate_block_reward :: "bool \<Rightarrow> u128 \<Rightarrow> BlockReward option" where
  "calculate_block_reward chk total_reward =
     do {
       forty \<leftarrow> mul_w chk total_reward 40;
       miner_reward \<leftarrow> div_w forty 100;
       stakers_reward \<leftarrow> sub_w chk total_reward miner_reward;
       Some \<lparr>br_total = total_reward, br_miner_reward = miner_reward,
             br_stakers_reward = stakers_reward\<rparr>
     }"

definition add_stake :: "bool \<Rightarrow> 'acc ValidatorStake \<Rightarrow> u128 \<Rightarrow> u128 option" where
  "add_stake chk s acc = add_w chk acc (vs_stake s)"

definition pay_staker ::
  "('acc, 'bal) Externals \<Rightarrow> u128 \<Rightarrow> u128 \<Rightarrow> 'acc ValidatorStake \<Rightarrow> 'bal \<Rightarrow> 'bal option" where
  "pay_staker X stakers_reward total_stake staker bal =
     do {
       product \<leftarrow> mul_w (ext_overflow_checks X) stakers_reward (vs_stake staker);
       staker_reward \<leftarrow> div_w product total_stake;
       Some (ext_deposit_creating X (vs_account staker) staker_reward bal)
     }"

text \<open>\<open>distribute_rewards\<close> has no error path: the result is the balances, or a panic.\<close>

definition distribute_rewards ::
  "('acc, 'bal) Externals \<Rightarrow> 'acc \<Rightarrow> 'acc ValidatorStake list \<Rightarrow> BlockReward \<Rightarrow> 'bal \<Rightarrow> 'bal option"
  where
  "distribute_rewards X miner stakers reward bal =
     (let bal = ext_deposit_creating X miner (br_miner_reward reward) bal
      in do {
        total_stake \<leftarrow> for_each (add_stake (ext_overflow_checks X)) stakers 0;
        if total_stake = 0 then Some bal
        else for_each (pay_staker X (br_stakers_reward reward) total_stake) stakers bal
      })"

section \<open>The split\<close>

lemma calculate_block_reward_eq:
  assumes "unat tot * 40 < 2 ^ 128"
  shows "calculate_block_reward chk tot
    = Some \<lparr>br_total = tot, br_miner_reward = tot * 40 div 100,
            br_stakers_reward = tot - tot * 40 div 100\<rparr>"
    and "unat (tot * 40 div 100) = unat tot * 40 div 100"
proof -
  have fits: "unat tot * unat (40 :: u128) < 2 ^ LENGTH(128)" using assms by simp
  show miner: "unat (tot * 40 div 100) = unat tot * 40 div 100"
    using unat_mult_fits [OF fits] by (simp add: unat_div)
  then have "unat (tot * 40 div 100) \<le> unat tot" by simp
  then show "calculate_block_reward chk tot
    = Some \<lparr>br_total = tot, br_miner_reward = tot * 40 div 100,
            br_stakers_reward = tot - tot * 40 div 100\<rparr>"
    using fits by (simp add: calculate_block_reward_def rust_arith)
qed

lemma reward_split_eq:
  assumes "unat tot * 40 < 2 ^ 128"
  shows "\<exists>r. calculate_block_reward chk tot = Some r \<and> br_total r = tot
    \<and> unat (br_miner_reward r) = unat tot * 40 div 100
    \<and> unat (br_miner_reward r) + unat (br_stakers_reward r) = unat tot"
proof -
  note eq = calculate_block_reward_eq [OF assms]
  have "unat (tot * 40 div 100) \<le> unat tot" using eq(2) by simp
  then show ?thesis using eq by (simp add: unat_sub_fits)
qed

section \<open>Payments\<close>

definition stake_sum :: "'acc ValidatorStake list \<Rightarrow> nat" where
  "stake_sum ss = (\<Sum>s \<leftarrow> ss. unat (vs_stake s))"

definition staker_share :: "nat \<Rightarrow> nat \<Rightarrow> 'acc ValidatorStake \<Rightarrow> nat" where
  "staker_share R T s = R * unat (vs_stake s) div T"

definition deposit_all :: "('acc \<Rightarrow> u128 \<Rightarrow> 'bal \<Rightarrow> 'bal) \<Rightarrow> ('acc \<times> u128) list \<Rightarrow> 'bal \<Rightarrow> 'bal" where
  "deposit_all deposit ps s = fold (\<lambda>(a, amt). deposit a amt) ps s"

definition paid_to :: "'acc \<Rightarrow> ('acc \<times> u128) list \<Rightarrow> nat" where
  "paid_to c ps = (\<Sum>(a, amt) \<leftarrow> ps. if a = c then unat amt else 0)"

lemma stake_sum_simps [simp]:
  "stake_sum [] = 0"
  "stake_sum (s # ss) = unat (vs_stake s) + stake_sum ss"
  by (simp_all add: stake_sum_def)

lemma paid_to_simps [simp]:
  "paid_to c [] = 0"
  "paid_to c ((a, amt) # ps) = (if a = c then unat amt else 0) + paid_to c ps"
  by (simp_all add: paid_to_def)

lemma deposit_all_simps [simp]:
  "deposit_all deposit [] s = s"
  "deposit_all deposit ((a, amt) # ps) s = deposit_all deposit ps (deposit a amt s)"
  by (simp_all add: deposit_all_def)

lemma for_each_add_stake:
  assumes "unat acc + stake_sum ss < 2 ^ 128"
  shows "\<exists>t. for_each (add_stake chk) ss acc = Some t \<and> unat t = unat acc + stake_sum ss"
  using assms
proof (induction ss arbitrary: acc)
  case (Cons s ss)
  then have fits: "unat acc + unat (vs_stake s) < 2 ^ LENGTH(128)" by simp
  then show ?case
    using Cons.IH [of "acc + vs_stake s"] Cons.prems
    by (simp add: add_stake_def add_w_fits unat_add_fits add.assoc)
qed simp

context balances_pallet
begin

lemma deposits_le: "free c s \<le> free c (deposit_all deposit_creating ps s)"
proof (induction ps arbitrary: s)
  case (Cons p ps)
  obtain a amt where p: "p = (a, amt)" by (cases p)
  have "free c s \<le> free c (deposit_creating a amt s)" by (rule deposit_le)
  also have "\<dots> \<le> free c (deposit_all deposit_creating ps (deposit_creating a amt s))" by (rule Cons.IH)
  finally show ?case by (simp add: p)
qed simp

lemma deposits_bound: "free c (deposit_all deposit_creating ps s) \<le> free c s + paid_to c ps"
proof (induction ps arbitrary: s)
  case (Cons p ps)
  obtain a amt where p: "p = (a, amt)" by (cases p)
  have "free c (deposit_creating a amt s) \<le> free c s + (if a = c then unat amt else 0)"
    using deposit_same [of c amt s] deposit_other [of c a amt s] by (cases "c = a") auto
  then show ?case using Cons.IH [of "deposit_creating a amt s"] by (simp add: p)
qed simp

text \<open>Deposits to live accounts arrive in full.\<close>

lemma deposits_exact:
  assumes "\<And>a amt. (a, amt) \<in> set ps \<Longrightarrow> ed \<le> free a s \<and> 0 < free a s"
    and "\<And>a. free a s + paid_to a ps < 2 ^ 128"
  shows "free c (deposit_all deposit_creating ps s) = free c s + paid_to c ps"
  using assms
proof (induction ps arbitrary: s)
  case (Cons p ps)
  obtain a amt where p: "p = (a, amt)" by (cases p)
  let ?s = "deposit_creating a amt s"
  have "free a s + unat amt < 2 ^ 128" using Cons.prems(2) [of a] by (simp add: p)
  then have eq: "free b ?s = free b s + (if a = b then unat amt else 0)" for b
    using Cons.prems(1) [of a amt] deposit_credited [of a s amt] deposit_other [of b a amt s]
    by (cases "b = a") (auto simp: p)
  have "free c (deposit_all deposit_creating ps ?s) = free c ?s + paid_to c ps"
  proof (rule Cons.IH)
    fix b m assume "(b, m) \<in> set ps"
    then show "ed \<le> free b ?s \<and> 0 < free b ?s" using Cons.prems(1) [of b m] eq [of b] by auto
  next
    fix b show "free b ?s + paid_to b ps < 2 ^ 128"
      using Cons.prems(2) [of b] eq [of b] by (auto simp: p split: if_splits)
  qed
  then show ?case using eq [of c] by (simp add: p)
qed simp

end

text \<open>What \<open>distribute_rewards\<close> pays when nothing overflows: a list of deposits.\<close>

definition reward_payments ::
  "'acc \<Rightarrow> 'acc ValidatorStake list \<Rightarrow> BlockReward \<Rightarrow> ('acc \<times> u128) list" where
  "reward_payments miner ss reward =
     (miner, br_miner_reward reward) #
     (if stake_sum ss = 0 then []
      else map (\<lambda>s. (vs_account s, br_stakers_reward reward * vs_stake s div of_nat (stake_sum ss))) ss)"

lemma distribute_rewards_eq:
  assumes "stake_sum ss < 2 ^ 128"
    and "\<And>s. s \<in> set ss \<Longrightarrow> unat (br_stakers_reward reward) * unat (vs_stake s) < 2 ^ 128"
  shows "distribute_rewards X miner ss reward bal
    = Some (deposit_all (ext_deposit_creating X) (reward_payments miner ss reward) bal)"
proof -
  obtain t where t: "for_each (add_stake (ext_overflow_checks X)) ss 0 = Some t" "unat t = stake_sum ss"
    using for_each_add_stake [of 0 ss "ext_overflow_checks X"] assms(1) by auto
  then have t_eq: "t = of_nat (stake_sum ss)" by (metis of_nat_unat ucast_id)
  have t0: "t = 0 \<longleftrightarrow> stake_sum ss = 0" using t(2) by (metis unat_eq_zero)
  have pay: "pay_staker X (br_stakers_reward reward) t s b = Some (ext_deposit_creating X (vs_account s)
      (br_stakers_reward reward * vs_stake s div t) b)" if "s \<in> set ss" "t \<noteq> 0" for s b
    using assms(2) that by (simp add: pay_staker_def rust_arith)
  show ?thesis
    using t(1) t0 pay
    by (auto simp: distribute_rewards_def reward_payments_def Let_def deposit_all_def fold_map comp_def
        t_eq [symmetric] intro!: for_each_pure)
qed

lemma unat_staker_payment:
  assumes "stake_sum ss < 2 ^ 128" and "unat R * unat (vs_stake s) < 2 ^ 128"
  shows "unat (R * vs_stake s div of_nat (stake_sum ss) :: u128) = staker_share (unat R) (stake_sum ss) s"
  using assms by (simp add: unat_div unat_mult_fits unat_of_nat staker_share_def)

lemma sum_shares_le: "(\<Sum>s \<leftarrow> ss. R * f s div T) \<le> R * (\<Sum>s \<leftarrow> ss. f s) div (T :: nat)"
proof (induction ss)
  case (Cons s ss)
  have "R * f s div T + R * (\<Sum>s \<leftarrow> ss. f s) div T \<le> (R * f s + R * (\<Sum>s \<leftarrow> ss. f s)) div T"
    by (simp add: div_add1_eq [of "R * f s"])
  with Cons show ?case by (simp add: distrib_left)
qed simp

lemma sum_shares_ge:
  assumes "0 < T"
  shows "R * (\<Sum>s \<leftarrow> ss. f s) div T \<le> (\<Sum>s \<leftarrow> ss. R * f s div T) + length ss"
proof (induction ss)
  case (Cons s ss)
  let ?x = "R * f s" and ?y = "R * (\<Sum>s \<leftarrow> ss. f s)"
  have "?x mod T + ?y mod T < 2 * T"
    using mod_less_divisor [OF assms, of ?x] mod_less_divisor [OF assms, of ?y] by linarith
  then have "(?x mod T + ?y mod T) div T < 2" by (rule less_mult_imp_div_less)
  then have "(?x + ?y) div T \<le> ?x div T + ?y div T + 1"
    by (simp add: div_add1_eq [of ?x])
  with Cons show ?case by (simp add: distrib_left)
qed simp

text \<open>
  With the live runtime's reward of 10 * 10^12 no product of the distribution overflows as long
  as the stakes sum to less than 2^85 (about 3.8 * 10^25 units), under either build profile.
\<close>

lemma runtime_rewards_total:
  assumes "stake_sum ss < 2 ^ 85"
  shows "\<exists>r. calculate_block_reward (ext_overflow_checks X) (cfg_BlockReward runtime_config) = Some r
    \<and> distribute_rewards X miner ss r bal \<noteq> None"
proof -
  let ?tot = "cfg_BlockReward runtime_config"
  have tot: "unat ?tot = 10000000000000" by (simp add: runtime_config_def)
  obtain r where r: "calculate_block_reward (ext_overflow_checks X) ?tot = Some r"
      "unat (br_miner_reward r) = unat ?tot * 40 div 100"
      "unat (br_miner_reward r) + unat (br_stakers_reward r) = unat ?tot"
    using reward_split_eq [of ?tot "ext_overflow_checks X"] tot by auto
  have "unat (br_stakers_reward r) * unat (vs_stake s) < 2 ^ 128" if "s \<in> set ss" for s
  proof -
    have "unat (vs_stake s) \<le> stake_sum ss"
      unfolding stake_sum_def using that by (intro member_le_sum_list) auto
    then have "unat (vs_stake s) \<le> 2 ^ 85" using assms by simp
    then have "unat (br_stakers_reward r) * unat (vs_stake s) \<le> 6000000000000 * 2 ^ 85"
      using r tot by (intro mult_le_mono) auto
    then show ?thesis by simp
  qed
  then have "distribute_rewards X miner ss r bal \<noteq> None"
    using distribute_rewards_eq [of ss r X miner bal] assms by simp
  with r(1) show ?thesis by blast
qed

section \<open>Properties\<close>

text \<open>
  The split conserves the reward. For any reward whose 40-fold fits into 128 bits the miner
  gets 40 percent rounded down, the stakers the rest, and the two parts add up to the total; debug
  and release builds agree.
\<close>

lemma reward_split_conserves:
  assumes "unat tot * 40 < 2 ^ 128"
  shows "\<exists>r. calculate_block_reward chk tot = Some r \<and> br_total r = tot
    \<and> unat (br_miner_reward r) = unat tot * 40 div 100
    \<and> unat (br_miner_reward r) + unat (br_stakers_reward r) = unat tot"
  using reward_split_eq [OF assms] .

text \<open>
  The stakers' payments never exceed the stakers' part of the reward, and what rounding keeps
  back is at most one unit per staker.
\<close>

lemma staker_payments_conserve:
  assumes "0 < stake_sum ss"
  shows "(\<Sum>s \<leftarrow> ss. staker_share R (stake_sum ss) s) \<le> R
    \<and> R \<le> (\<Sum>s \<leftarrow> ss. staker_share R (stake_sum ss) s) + length ss"
  using sum_shares_le [of R "\<lambda>s. unat (vs_stake s)" "stake_sum ss" ss, folded stake_sum_def staker_share_def]
    sum_shares_ge [OF assms, of R "\<lambda>s. unat (vs_stake s)" ss, folded stake_sum_def staker_share_def] assms
  by simp

text \<open>
  C23: \<open>distribute_rewards\<close> pays exactly what it promises: when no product overflows and every
  recipient is a live account with room for the payment, each account's free balance grows by the
  miner's part, if it is the miner, plus its stake's share of the stakers' part.
\<close>

theorem distribute_rewards_exact:
  assumes laws: "balances_pallet (ext_transfer X) (ext_deposit_creating X) free ed"
    and sum: "stake_sum ss < 2 ^ 128"
    and products: "\<forall>s \<in> set ss. unat (br_stakers_reward r) * unat (vs_stake s) < 2 ^ 128"
    and alive: "\<forall>a \<in> insert miner (vs_account ` set ss). ed \<le> free a bal \<and> 0 < free a bal"
    and room: "\<forall>a. free a bal + unat (br_miner_reward r) + unat (br_stakers_reward r) < 2 ^ 128"
  shows "\<exists>bal'. distribute_rewards X miner ss r bal = Some bal' \<and>
    (\<forall>c. free c bal' = free c bal + (if c = miner then unat (br_miner_reward r) else 0)
      + (\<Sum>s \<leftarrow> ss. if vs_account s = c
           then staker_share (unat (br_stakers_reward r)) (stake_sum ss) s else 0))"
proof -
  let ?R = "br_stakers_reward r" and ?T = "stake_sum ss"
  let ?share = "\<lambda>c. \<Sum>s \<leftarrow> ss. if vs_account s = c then staker_share (unat ?R) ?T s else 0"
  have stake0: "unat (vs_stake s) = 0" if "?T = 0" "s \<in> set ss" for s
    using that by (auto simp: stake_sum_def sum_list_eq_0_iff)
  have shares: "(\<Sum>s \<leftarrow> ss. if vs_account s = c
        then unat (?R * vs_stake s div of_nat ?T :: u128) else 0) = ?share c" for c
    using sum products by (intro arg_cong [where f = sum_list] map_cong) (auto simp: unat_staker_payment)
  have paid: "paid_to c (reward_payments miner ss r)
      = (if c = miner then unat (br_miner_reward r) else 0) + ?share c" for c
    using shares [of c] stake0
    by (auto simp: reward_payments_def paid_to_def comp_def staker_share_def cong: map_cong)
  have "?share c \<le> (\<Sum>s \<leftarrow> ss. staker_share (unat ?R) ?T s)" for c
    by (rule sum_list_mono) simp
  moreover have "(\<Sum>s \<leftarrow> ss. staker_share (unat ?R) ?T s) \<le> unat ?R"
    using sum_shares_le [of "unat ?R" "\<lambda>s. unat (vs_stake s)" ?T ss, folded stake_sum_def staker_share_def]
    by (cases "?T = 0") (simp add: staker_share_def, simp)
  ultimately have share_le: "?share c \<le> unat ?R" for c
    using order.trans by blast
  have fits: "free c bal + paid_to c (reward_payments miner ss r) < 2 ^ 128" for c
  proof -
    have "paid_to c (reward_payments miner ss r) \<le> unat (br_miner_reward r) + unat ?R"
      unfolding paid by (intro add_mono share_le) simp
    then show ?thesis using room [rule_format, of c] by linarith
  qed
  have "free c (deposit_all (ext_deposit_creating X) (reward_payments miner ss r) bal)
      = free c bal + paid_to c (reward_payments miner ss r)" for c
    using alive fits
    by (intro balances_pallet.deposits_exact [OF laws]) (auto simp: reward_payments_def split: if_splits)
  then show ?thesis
    using distribute_rewards_eq [OF sum, of r X miner bal] products paid by (simp add: add.assoc)
qed

lemma sample_laws:
  "balances_pallet (ext_transfer (sample_externals ed)) (ext_deposit_creating (sample_externals ed))
     ledger_free ed"
  using account_ledger.balances_pallet_axioms by simp

theorem distribute_rewards_exact_witness:
  "let ss = [\<lparr>vs_account = 2, vs_stake = 300, vs_weight = 300\<rparr>,
             \<lparr>vs_account = 3, vs_stake = 100, vs_weight = 100\<rparr>];
       r = \<lparr>br_total = 100, br_miner_reward = 40, br_stakers_reward = 60\<rparr>
   in \<exists>bal'. distribute_rewards (sample_externals 1) 2 ss r (\<lambda>_. 10) = Some bal'
     \<and> (\<forall>c. ledger_free c bal' = 10 + (if c = 2 then 85 else if c = 3 then 15 else 0))"
proof -
  let ?ss = "[\<lparr>vs_account = 2 :: u64, vs_stake = 300, vs_weight = 300\<rparr>,
             \<lparr>vs_account = 3, vs_stake = 100, vs_weight = 100\<rparr>]"
  let ?r = "\<lparr>br_total = 100, br_miner_reward = 40, br_stakers_reward = 60\<rparr>"
  have "\<exists>bal'. distribute_rewards (sample_externals 1) 2 ?ss ?r (\<lambda>_. 10) = Some bal' \<and>
    (\<forall>c. ledger_free c bal' = ledger_free c (\<lambda>_. 10) + (if c = 2 then unat (br_miner_reward ?r) else 0)
      + (\<Sum>s \<leftarrow> ?ss. if vs_account s = c
           then staker_share (unat (br_stakers_reward ?r)) (stake_sum ?ss) s else 0))"
    by (rule distribute_rewards_exact [OF sample_laws]) (simp_all add: ledger_free_def)
  moreover have "staker_share 60 400 \<lparr>vs_account = 2 :: u64, vs_stake = 300, vs_weight = 300\<rparr> = 45"
    and "staker_share 60 400 \<lparr>vs_account = 3 :: u64, vs_stake = 100, vs_weight = 100\<rparr> = 15"
    by (simp_all add: staker_share_def)
  ultimately show ?thesis by (simp add: ledger_free_def Let_def) auto
qed

text \<open>
  With the test configuration's reward of 10 * 10^18 the product of the stakers' part and the
  stake overflows for a single staker of 57 * 10^18 units, which the test accounts can afford: a
  build with overflow checks panics.
\<close>

lemma mock_rewards_overflow:
  assumes "ext_overflow_checks X"
    and "calculate_block_reward True (cfg_BlockReward mock_config) = Some r"
  shows "distribute_rewards X miner
    [\<lparr>vs_account = a, vs_stake = 57000000000000000000, vs_weight = w\<rparr>] r bal = None"
proof -
  have "br_stakers_reward r = 6000000000000000000"
    using assms(2) by (simp add: mock_config_def calculate_block_reward_def mul_w_def div_w_def sub_w_def)
      auto
  then show ?thesis
    using assms(1) by (simp add: distribute_rewards_def add_stake_def pay_staker_def add_w_def mul_w_def)
qed

end
