(* ===== verification/Ghost_Pallet.thy ===== *)
theory Ghost_Pallet
  imports Ghost_Pow Ghost_Difficulty Ghost_Entropy Ghost_Selection Ghost_Rewards
begin

text \<open>
  The pallet itself, after \<open>pallets/pallet-ghost-consensus/src/lib.rs\<close>: its storage, the six
  dispatchables, the helper functions and the two hooks. A dispatchable takes the environment
  \<open>X\<close>, the configuration \<open>T\<close>, the origin, its arguments and the storage; it returns \<^const>\<open>None\<close>
  for a panic, and otherwise its \<open>DispatchResult\<close> with the storage it leaves, which after an
  early return holds the writes made before it. \<open>dispatch\<close> adds what FRAME does around a
  dispatchable: it runs in a storage layer that is rolled back when the result is an error.
\<close>

section \<open>Storage\<close>

text \<open>
  The storage items of the pallet, and what it uses of \<open>frame_system\<close> (the block number and the
  events deposited so far) and \<open>pallet_balances\<close> (its balances). Items with a default
  (\<open>ValueQuery\<close>) that are maps are read through \<open>or_default\<close>.
\<close>

record ('acc, 'bal) Storage =
  Difficulty :: u64
  CurrentPhase :: ConsensusPhase
  BlockHeaders :: "u32 \<rightharpoonup> GhostBlockHeader"
  BlockProducers :: "u32 \<rightharpoonup> 'acc"
  ValidatorStakes :: "'acc \<rightharpoonup> u128"
  LastActiveBlock :: "'acc \<rightharpoonup> u32"
  DoubleSignReports :: "'acc \<rightharpoonup> bool"
  InvalidBlockReports :: "'acc \<rightharpoonup> bool"
  SlashingRecords :: "('acc \<times> SlashingReason \<times> u128 \<times> u32) list"
  ValidatorPqcPublicKeys :: "'acc \<rightharpoonup> bytes"
  RecentBlockProducers :: "'acc list"
  CurrentEntropy :: u64
  system_block_number :: u32
  system_events :: "'acc Event list"
  balances :: 'bal

definition or_default :: "'v \<Rightarrow> 'v option \<Rightarrow> 'v" where
  "or_default d v = (case v of None \<Rightarrow> d | Some x \<Rightarrow> x)"

lemma or_default_simps [simp]: "or_default d None = d" "or_default d (Some x) = x"
  by (simp_all add: or_default_def)

text \<open>The pallet has no genesis configuration: at genesis every item has its default.\<close>

definition genesis_storage :: "'bal \<Rightarrow> ('acc, 'bal) Storage" where
  "genesis_storage bal = \<lparr>
     Difficulty = 0, CurrentPhase = ConsensusPhase_default, BlockHeaders = Map.empty,
     BlockProducers = Map.empty, ValidatorStakes = Map.empty, LastActiveBlock = Map.empty,
     DoubleSignReports = Map.empty, InvalidBlockReports = Map.empty, SlashingRecords = [],
     ValidatorPqcPublicKeys = Map.empty, RecentBlockProducers = [], CurrentEntropy = 0,
     system_block_number = 0, system_events = [], balances = bal\<rparr>"

text \<open>\<open>deposit_event\<close>: no event is recorded in the genesis block.\<close>

definition deposit_event :: "'acc Event \<Rightarrow> ('acc, 'bal) Storage \<Rightarrow> ('acc, 'bal) Storage" where
  "deposit_event ev st =
     (if system_block_number st = 0 then st else st\<lparr>system_events := system_events st @ [ev]\<rparr>)"

type_synonym ('acc, 'bal) outcome = "((DispatchError + unit) \<times> ('acc, 'bal) Storage) option"

abbreviation reject :: "DispatchError \<Rightarrow> ('acc, 'bal) Storage \<Rightarrow> ('acc, 'bal) outcome" where
  "reject e st \<equiv> Some (Inl e, st)"

abbreviation accept :: "('acc, 'bal) Storage \<Rightarrow> ('acc, 'bal) outcome" where
  "accept st \<equiv> Some (Inr (), st)"

section \<open>Dispatchables\<close>

text \<open>The rolling window of producers: at 100 entries the oldest is dropped, then \<open>try_push\<close>.\<close>

definition push_recent :: "'acc \<Rightarrow> 'acc list \<Rightarrow> 'acc list" where
  "push_recent miner recent =
     (let recent = (if 100 \<le> length recent then tl recent else recent)
      in if length recent < 100 then recent @ [miner] else recent)"

definition submit_block ::
  "('acc, 'bal) Externals \<Rightarrow> 'acc RawOrigin \<Rightarrow> GhostBlockHeader \<Rightarrow> ('acc, 'bal) Storage
    \<Rightarrow> ('acc, 'bal) outcome" where
  "submit_block X origin block_header st =
     (case ensure_signed origin of Inl e \<Rightarrow> reject e st | Inr miner \<Rightarrow>
      if CurrentPhase st \<noteq> PowMining then reject (Module InvalidPhaseTransition) st
      else if \<not> 0 < bh_number block_header then reject (Module InvalidBlockNumber) st
      else case checked_sub (bh_number block_header) 1 of
        None \<Rightarrow> reject (Module InvalidBlockNumber) st
      | Some parent_number \<Rightarrow>
      case BlockHeaders st parent_number of
        None \<Rightarrow> reject (Module BlockNotFound) st
      | Some parent_header \<Rightarrow> do {
        checked \<leftarrow> validate_block_header X (Difficulty st) block_header parent_header;
        case checked of Inl e \<Rightarrow> reject e st | Inr _ \<Rightarrow>
        let st = st\<lparr>BlockHeaders := (BlockHeaders st)(bh_number block_header \<mapsto> block_header)\<rparr>;
            st = st\<lparr>BlockProducers := (BlockProducers st)(bh_number block_header \<mapsto> miner)\<rparr>;
            st = st\<lparr>RecentBlockProducers := push_recent miner (RecentBlockProducers st)\<rparr>;
            st = st\<lparr>LastActiveBlock := (LastActiveBlock st)(miner \<mapsto> bh_number block_header)\<rparr>;
            st = st\<lparr>CurrentPhase := PosValidation\<rparr>;
            st = deposit_event (BlockMined (bh_number block_header) miner (bh_nonce block_header)) st
        in accept st
      })"

definition account_id :: "('acc, 'bal) Externals \<Rightarrow> Config \<Rightarrow> 'acc" where
  "account_id X T = ext_into_account_truncating X (cfg_PalletId T)"

definition stake ::
  "('acc, 'bal) Externals \<Rightarrow> Config \<Rightarrow> 'acc RawOrigin \<Rightarrow> u128 \<Rightarrow> ('acc, 'bal) Storage
    \<Rightarrow> ('acc, 'bal) outcome" where
  "stake X T origin amount st =
     (case ensure_signed origin of Inl e \<Rightarrow> reject e st | Inr staker \<Rightarrow>
      if \<not> cfg_MinStake T \<le> amount then reject (Module InsufficientStake) st
      else case ext_transfer X staker (account_id X T) amount KeepAlive (balances st) of
        Inl e \<Rightarrow> reject e st
      | Inr bal \<Rightarrow>
        let st = st\<lparr>balances := bal\<rparr>;
            current_stake = or_default 0 (ValidatorStakes st staker)
        in do {
          new_stake \<leftarrow> add_w (ext_overflow_checks X) current_stake amount;
          accept (st\<lparr>ValidatorStakes := (ValidatorStakes st)(staker \<mapsto> new_stake)\<rparr>)
        })"

definition unstake ::
  "('acc, 'bal) Externals \<Rightarrow> Config \<Rightarrow> 'acc RawOrigin \<Rightarrow> u128 \<Rightarrow> ('acc, 'bal) Storage
    \<Rightarrow> ('acc, 'bal) outcome" where
  "unstake X T origin amount st =
     (case ensure_signed origin of Inl e \<Rightarrow> reject e st | Inr staker \<Rightarrow>
      case ValidatorStakes st staker of
        None \<Rightarrow> reject (Module NotAValidator) st
      | Some current_stake \<Rightarrow>
      if \<not> amount \<le> current_stake then reject (Module InsufficientStake) st
      else do {
        new_stake \<leftarrow> sub_w (ext_overflow_checks X) current_stake amount;
        let st = st\<lparr>ValidatorStakes := (ValidatorStakes st)(staker \<mapsto> new_stake)\<rparr>
        in case ext_transfer X (account_id X T) staker amount AllowDeath (balances st) of
          Inl e \<Rightarrow> reject e st
        | Inr bal \<Rightarrow> accept (st\<lparr>balances := bal\<rparr>)
      })"

text \<open>The stakers as \<open>validate_block\<close> and \<open>distribute_block_rewards\<close> collect them.\<close>

definition collect_stakers ::
  "('acc, 'bal) Externals \<Rightarrow> ('acc, 'bal) Storage \<Rightarrow> 'acc ValidatorStake list" where
  "collect_stakers X st =
     map (\<lambda>(account, stake). \<lparr>vs_account = account, vs_stake = stake, vs_weight = saturated_into stake\<rparr>)
       (storage_iter (ext_key_order X) (ValidatorStakes st))"

definition get_miner_for_block :: "u32 \<Rightarrow> ('acc, 'bal) Storage \<Rightarrow> DispatchError + 'acc" where
  "get_miner_for_block block_number st =
     (case BlockProducers st block_number of
        None \<Rightarrow> Inl (Module BlockNotFound)
      | Some miner \<Rightarrow> Inr miner)"

text \<open>
  \<open>verify_pqc_signature\<close>: with the feature \<open>std\<close>, both byte strings must parse and the signature
  must verify; without it the answer is always no.
\<close>

definition verify_pqc_signature ::
  "('acc, 'bal) Externals \<Rightarrow> bytes \<Rightarrow> bytes \<Rightarrow> bytes \<Rightarrow> bool" where
  "verify_pqc_signature X message signature_bytes public_key_bytes =
     (if ext_std X then
        (case (ext_signature_from_bytes X signature_bytes, ext_public_key_from_bytes X public_key_bytes) of
           (Some sig, Some pk) \<Rightarrow> ext_verify_detached_signature X sig message pk
         | _ \<Rightarrow> False)
      else False)"

definition check_pqc ::
  "('acc, 'bal) Externals \<Rightarrow> Config \<Rightarrow> 'acc \<Rightarrow> u32 \<Rightarrow> PqcSignature \<Rightarrow> ('acc, 'bal) Storage
    \<Rightarrow> DispatchError + unit" where
  "check_pqc X T validator block_number pqc_signature st =
     (if cfg_PqcRequired T then
        (case ValidatorPqcPublicKeys st validator of
           None \<Rightarrow> Inl (Module PqcPublicKeyNotFound)
         | Some pqc_public_key \<Rightarrow>
           let message = ext_hash_of_signed X (validator, block_number)
           in if verify_pqc_signature X (as_bytes message) (pqc_bytes pqc_signature) pqc_public_key
              then Inr () else Inl (Module InvalidPqcSignature))
      else Inr ())"

definition sign_header ::
  "('acc, 'bal) Externals \<Rightarrow> 'acc \<Rightarrow> u32 \<Rightarrow> PqcSignature \<Rightarrow> GhostBlockHeader \<Rightarrow> GhostBlockHeader" where
  "sign_header X validator block_number pqc_signature block_header =
     block_header\<lparr>bh_validator_signature := Some (ext_hash_of_signed X (validator, block_number)),
                  bh_pqc_signature := Some pqc_signature\<rparr>"

definition validate_block ::
  "('acc, 'bal) Externals \<Rightarrow> Config \<Rightarrow> 'acc RawOrigin \<Rightarrow> u32 \<Rightarrow> PqcSignature
    \<Rightarrow> ('acc, 'bal) Storage \<Rightarrow> ('acc, 'bal) outcome" where
  "validate_block X T origin block_number pqc_signature st =
     (case ensure_signed origin of Inl e \<Rightarrow> reject e st | Inr validator \<Rightarrow>
      if ValidatorStakes st validator = None then reject (Module NotAValidator) st
      else case BlockHeaders st block_number of
        None \<Rightarrow> reject (Module BlockNotFound) st
      | Some block_header \<Rightarrow>
      if CurrentPhase st \<noteq> PosValidation then reject (Module InvalidPhaseTransition) st
      else do {
        let seed = ext_hash_of_seed X (block_number, system_block_number st);
        selected \<leftarrow> select_pos_validator (ext_overflow_checks X) (system_block_number st)
          (collect_stakers X st) seed;
        case selected of None \<Rightarrow> reject (Module NotAValidator) st | Some selection \<Rightarrow>
        if sel_validator selection \<noteq> validator then reject (Module NotAValidator) st
        else case check_pqc X T validator block_number pqc_signature st of
          Inl e \<Rightarrow> reject e st
        | Inr _ \<Rightarrow>
          let signed_header = sign_header X validator block_number pqc_signature block_header;
              st = st\<lparr>BlockHeaders := (BlockHeaders st)(block_number \<mapsto> signed_header)\<rparr>
          in do {
            reward \<leftarrow> calculate_block_reward (ext_overflow_checks X) (cfg_BlockReward T);
            case get_miner_for_block block_number st of
              Inl e \<Rightarrow> reject e st
            | Inr miner \<Rightarrow> do {
              bal \<leftarrow> distribute_rewards X miner (collect_stakers X st) reward (balances st);
              let st = st\<lparr>balances := bal\<rparr>;
              let st = st\<lparr>LastActiveBlock := (LastActiveBlock st)(validator \<mapsto> block_number)\<rparr>;
              let st = st\<lparr>CurrentPhase := Finalization\<rparr>;
              let st = deposit_event (ValidatorSelected validator (sel_weight selection)) st;
              let st = deposit_event (RewardsDistributed miner (br_miner_reward reward)
                         (br_stakers_reward reward)) st;
              accept st
            }
          }
      })"

definition register_pqc_key ::
  "'acc RawOrigin \<Rightarrow> bytes \<Rightarrow> ('acc, 'bal) Storage \<Rightarrow> ('acc, 'bal) outcome" where
  "register_pqc_key origin public_key st =
     (case ensure_signed origin of Inl e \<Rightarrow> reject e st | Inr validator \<Rightarrow>
      accept (st\<lparr>ValidatorPqcPublicKeys := (ValidatorPqcPublicKeys st)(validator \<mapsto> public_key)\<rparr>))"

text \<open>\<open>(stake * percentage.into()) / 100u32.into()\<close>, which two functions of the pallet compute.\<close>

definition slash_amount_of :: "bool \<Rightarrow> u128 \<Rightarrow> u8 \<Rightarrow> u128 option" where
  "slash_amount_of chk current_stake slash_percentage =
     do { product \<leftarrow> mul_w chk current_stake (ucast slash_percentage); div_w product 100 }"

definition slash_percentage :: "Config \<Rightarrow> SlashingReason \<Rightarrow> u8" where
  "slash_percentage T reason =
     (case reason of
        DoubleSigning \<Rightarrow> cfg_DoubleSignSlashPercentage T
      | InvalidBlock \<Rightarrow> cfg_InvalidBlockSlashPercentage T
      | Downtime \<Rightarrow> cfg_DowntimeSlashPercentage T
      | Other \<Rightarrow> 10)"

definition report_misbehavior ::
  "('acc, 'bal) Externals \<Rightarrow> Config \<Rightarrow> 'acc RawOrigin \<Rightarrow> 'acc \<Rightarrow> SlashingReason
    \<Rightarrow> ('acc, 'bal) Storage \<Rightarrow> ('acc, 'bal) outcome" where
  "report_misbehavior X T origin validator reason st =
     (case ensure_signed origin of Inl e \<Rightarrow> reject e st | Inr _ \<Rightarrow>
      let st = (case reason of
                  DoubleSigning \<Rightarrow> st\<lparr>DoubleSignReports := (DoubleSignReports st)(validator \<mapsto> True)\<rparr>
                | InvalidBlock \<Rightarrow> st\<lparr>InvalidBlockReports := (InvalidBlockReports st)(validator \<mapsto> True)\<rparr>
                | _ \<Rightarrow> st);
          current_stake = or_default 0 (ValidatorStakes st validator)
      in do {
        slash_amount \<leftarrow> slash_amount_of (ext_overflow_checks X) current_stake (slash_percentage T reason);
        let st = st\<lparr>ValidatorStakes :=
                   (ValidatorStakes st)(validator \<mapsto> saturating_sub current_stake slash_amount)\<rparr>;
        accept (deposit_event (ValidatorSlashed validator reason slash_amount) st)
      })"

end
