(* ===== verification/Ghost_Hooks.thy ===== *)
theory Ghost_Hooks
  imports Ghost_Pallet
begin

text \<open>
  The helper functions and the two hooks of the pallet's \<open>lib.rs\<close>: the slashing of validators that
  were inactive for too long, the difficulty adjustment, \<open>distribute_block_rewards\<close>, and what
  \<open>on_initialize\<close> and \<open>on_finalize\<close> do with them, with the functional behaviour of each. Also the
  two slashing stubs of \<open>functions.rs\<close>.
\<close>

section \<open>Definitions\<close>

text \<open>The pallet's own copy of the reward distribution; it deposits an event, unlike the other.\<close>

definition distribute_block_rewards ::
  "('acc, 'bal) Externals \<Rightarrow> Config \<Rightarrow> 'acc \<Rightarrow> u32 \<Rightarrow> ('acc, 'bal) Storage \<Rightarrow> ('acc, 'bal) outcome" where
  "distribute_block_rewards X T miner block_number st =
     do {
       reward \<leftarrow> calculate_block_reward (ext_overflow_checks X) (cfg_BlockReward T);
       let st = st\<lparr>balances := ext_deposit_creating X miner (br_miner_reward reward) (balances st)\<rparr>;
       let stakers = collect_stakers X st;
       bal \<leftarrow> (if stakers \<noteq> [] then do {
                total_stake \<leftarrow> for_each (add_stake (ext_overflow_checks X)) stakers 0;
                if total_stake \<noteq> 0
                then for_each (pay_staker X (br_stakers_reward reward) total_stake) stakers (balances st)
                else Some (balances st)
              } else Some (balances st));
       accept (deposit_event (RewardsDistributed miner (br_miner_reward reward)
                 (br_stakers_reward reward)) (st\<lparr>balances := bal\<rparr>))
     }"

text \<open>The body of the loop of \<open>check_downtime_slashing\<close>.\<close>

definition slash_if_down ::
  "('acc, 'bal) Externals \<Rightarrow> Config \<Rightarrow> u32 \<Rightarrow> 'acc \<times> u32 \<Rightarrow> ('acc, 'bal) Storage
    \<Rightarrow> ('acc, 'bal) Storage option" where
  "slash_if_down X T current_block = (\<lambda>(validator, last_active) st.
     if cfg_MaxDowntimeBlocks T < saturating_sub current_block last_active then
       (case ValidatorStakes st validator of
          None \<Rightarrow> Some st
        | Some held \<Rightarrow> do {
            slash_amount \<leftarrow> slash_amount_of (ext_overflow_checks X) held (cfg_DowntimeSlashPercentage T);
            let new_stake = saturating_sub held slash_amount;
            let st = st\<lparr>ValidatorStakes := (ValidatorStakes st)(validator \<mapsto> new_stake)\<rparr>;
            let st = st\<lparr>SlashingRecords := SlashingRecords st
                          @ [(validator, Downtime, slash_amount, system_block_number st)]\<rparr>;
            Some (deposit_event (ValidatorSlashed validator Downtime slash_amount) st)
          })
     else Some st)"

definition check_downtime_slashing ::
  "('acc, 'bal) Externals \<Rightarrow> Config \<Rightarrow> ('acc, 'bal) Storage \<Rightarrow> ('acc, 'bal) Storage option" where
  "check_downtime_slashing X T st =
     for_each (slash_if_down X T (saturated_into (system_block_number st)))
       (storage_iter (ext_key_order X) (LastActiveBlock st)) st"

definition adjust_difficulty ::
  "('acc::linorder, 'bal) Externals \<Rightarrow> ('acc, 'bal) Storage \<Rightarrow> ('acc, 'bal) Storage option" where
  "adjust_difficulty X st =
     (let current_difficulty = Difficulty st;
          target_block_time = 5;
          actual_block_time = 5
      in do {
        entropy \<leftarrow> calculate_entropy (ext_overflow_checks X) (RecentBlockProducers st);
        let st = st\<lparr>CurrentEntropy := entropy\<rparr>;
        let new_difficulty = calculate_difficulty_adjustment current_difficulty actual_block_time
              target_block_time entropy;
        Some (if new_difficulty \<noteq> current_difficulty
              then deposit_event (DifficultyAdjusted current_difficulty new_difficulty)
                     (st\<lparr>Difficulty := new_difficulty\<rparr>)
              else st)
      })"

text \<open>A \<open>Weight\<close> is its reference time and its proof size; every weight of the pallet is the same.\<close>

datatype Weight = Weight u64 u64

definition default_weight :: Weight where
  "default_weight = Weight 10000 0"

definition on_initialize ::
  "('acc::linorder, 'bal) Externals \<Rightarrow> Config \<Rightarrow> u32 \<Rightarrow> ('acc, 'bal) Storage
    \<Rightarrow> (Weight \<times> ('acc, 'bal) Storage) option" where
  "on_initialize X T n st =
     do {
       st \<leftarrow> (if n mod 10 = 0 then check_downtime_slashing X T st else Some st);
       st \<leftarrow> (if n mod 100 = 0 then adjust_difficulty X st else Some st);
       Some (Weight 10000 0, st)
     }"

definition on_finalize :: "u32 \<Rightarrow> ('acc, 'bal) Storage \<Rightarrow> ('acc, 'bal) Storage" where
  "on_finalize n st =
     (if CurrentPhase st = Finalization then st\<lparr>CurrentPhase := PowMining\<rparr> else st)"

text \<open>The stubs of \<open>functions.rs\<close>: nobody is ever found at fault, and applying a slash does nothing.\<close>

definition check_slashing_conditions :: "'acc \<Rightarrow> SlashingReason option" where
  "check_slashing_conditions validator = None"

definition apply_slashing :: "'acc \<Rightarrow> SlashingReason \<Rightarrow> DispatchError + unit" where
  "apply_slashing validator reason = Inr ()"

section \<open>What a slash takes\<close>

text \<open>\<open>cut_stake pct v\<close> is what remains of a stake \<open>v\<close> after a slash of \<open>pct\<close> percent, rounded up.\<close>

definition cut_stake :: "u8 \<Rightarrow> u128 \<Rightarrow> u128" where
  "cut_stake pct v = saturating_sub v (v * ucast pct div 100)"

lemma slash_amount_of_fits:
  assumes "unat v * unat pct < 2 ^ 128"
  shows "slash_amount_of chk v pct = Some (v * ucast pct div 100)"
    and "unat (v * ucast pct div 100) = unat v * unat pct div 100"
proof -
  have pct: "unat (ucast pct :: u128) = unat pct" by (simp add: unsigned_ucast_eq take_bit_nat_eq_self_iff) (use unat_bound [of pct] in simp)
  then have fits: "unat v * unat (ucast pct :: u128) < 2 ^ LENGTH(128)" using assms by simp
  show "slash_amount_of chk v pct = Some (v * ucast pct div 100)"
    using fits by (simp add: slash_amount_of_def rust_arith)
  show "unat (v * ucast pct div 100) = unat v * unat pct div 100"
    using unat_mult_fits [OF fits] pct by (simp add: unat_div)
qed

lemma unat_cut: "unat v * unat pct < 2 ^ 128 \<Longrightarrow> unat (cut_stake pct v) = unat v - unat v * unat pct div 100"
  by (simp add: cut_stake_def unat_saturating_sub slash_amount_of_fits)

lemma slash_amount_of_zero [simp]: "slash_amount_of chk 0 pct = Some 0"
  by (simp add: slash_amount_of_def mul_w_def div_w_def)

section \<open>Downtime slashing\<close>

text \<open>A validator is down when it has been active once, longer ago than \<open>MaxDowntimeBlocks\<close>.\<close>

definition down :: "Config \<Rightarrow> ('acc, 'bal) Storage \<Rightarrow> 'acc \<Rightarrow> bool" where
  "down T st a = (case LastActiveBlock st a of None \<Rightarrow> False
     | Some b \<Rightarrow> unat (cfg_MaxDowntimeBlocks T) < unat (system_block_number st) - unat b)"

definition slashable :: "Config \<Rightarrow> ('acc, 'bal) Storage \<Rightarrow> bool" where
  "slashable T st \<longleftrightarrow> (\<forall>v \<in> ran (ValidatorStakes st).
     unat v * unat (cfg_DowntimeSlashPercentage T) < 2 ^ 128)"

lemma deposit_event_fields [simp]:
  "Difficulty (deposit_event ev st) = Difficulty st"
  "CurrentPhase (deposit_event ev st) = CurrentPhase st"
  "BlockHeaders (deposit_event ev st) = BlockHeaders st"
  "BlockProducers (deposit_event ev st) = BlockProducers st"
  "ValidatorStakes (deposit_event ev st) = ValidatorStakes st"
  "LastActiveBlock (deposit_event ev st) = LastActiveBlock st"
  "DoubleSignReports (deposit_event ev st) = DoubleSignReports st"
  "InvalidBlockReports (deposit_event ev st) = InvalidBlockReports st"
  "SlashingRecords (deposit_event ev st) = SlashingRecords st"
  "ValidatorPqcPublicKeys (deposit_event ev st) = ValidatorPqcPublicKeys st"
  "RecentBlockProducers (deposit_event ev st) = RecentBlockProducers st"
  "CurrentEntropy (deposit_event ev st) = CurrentEntropy st"
  "system_block_number (deposit_event ev st) = system_block_number st"
  "balances (deposit_event ev st) = balances st"
  by (simp_all add: deposit_event_def)

text \<open>The loop touches the stakes, the records and the events only.\<close>

definition but_slashes :: "('acc, 'bal) Storage \<Rightarrow> ('acc, 'bal) Storage" where
  "but_slashes st = st\<lparr>ValidatorStakes := Map.empty, SlashingRecords := [], system_events := []\<rparr>"

lemma but_slashesD:
  assumes "but_slashes st' = but_slashes st"
  shows "Difficulty st' = Difficulty st" "CurrentPhase st' = CurrentPhase st"
    "BlockHeaders st' = BlockHeaders st" "BlockProducers st' = BlockProducers st"
    "LastActiveBlock st' = LastActiveBlock st" "RecentBlockProducers st' = RecentBlockProducers st"
    "balances st' = balances st" "system_block_number st' = system_block_number st"
    "CurrentEntropy st' = CurrentEntropy st"
  using arg_cong [OF assms, of Difficulty] arg_cong [OF assms, of CurrentPhase]
    arg_cong [OF assms, of BlockHeaders] arg_cong [OF assms, of BlockProducers]
    arg_cong [OF assms, of LastActiveBlock] arg_cong [OF assms, of RecentBlockProducers]
    arg_cong [OF assms, of balances] arg_cong [OF assms, of system_block_number]
    arg_cong [OF assms, of CurrentEntropy]
  by (simp_all add: but_slashes_def)

lemma slash_if_down_frame:
  "slash_if_down X T cur e st = Some st' \<Longrightarrow> but_slashes st' = but_slashes st"
  by (auto simp: slash_if_down_def but_slashes_def deposit_event_def bind_eq_Some_conv Let_def
      split: if_splits option.splits prod.splits)

lemma check_downtime_frame:
  assumes "check_downtime_slashing X T st = Some st'"
  shows "but_slashes st' = but_slashes st"
proof (rule for_each_invariant [where I = "\<lambda>s. but_slashes s = but_slashes st"])
  show "for_each (slash_if_down X T (saturated_into (system_block_number st)))
      (storage_iter (ext_key_order X) (LastActiveBlock st)) st = Some st'"
    using assms by (simp add: check_downtime_slashing_def)
qed (auto dest: slash_if_down_frame)

text \<open>No slash adds a staker or raises a stake.\<close>

definition stakes_shrink :: "('acc \<rightharpoonup> u128) \<Rightarrow> ('acc \<rightharpoonup> u128) \<Rightarrow> bool" where
  "stakes_shrink m m' \<longleftrightarrow> dom m' = dom m \<and> (\<forall>a. value_at m' a \<le> value_at m a)"

lemma stakes_shrink_refl [simp]: "stakes_shrink m m"
  by (simp add: stakes_shrink_def)

lemma stakes_shrink_trans: "stakes_shrink m m' \<Longrightarrow> stakes_shrink m' m'' \<Longrightarrow> stakes_shrink m m''"
  by (auto simp: stakes_shrink_def intro: le_trans)

lemma stakes_shrink_sum:
  fixes m m' :: "'acc \<rightharpoonup> u128"
  assumes "stakes_shrink m m'"
  shows "sum_values m' \<le> sum_values m"
proof -
  have "sum_values n = (\<Sum>a \<in> dom n. value_at n a)" for n :: "'acc \<rightharpoonup> u128"
    unfolding sum_values_def by (rule sum.cong) (auto simp: dom_def)
  then show ?thesis using assms by (auto simp: stakes_shrink_def intro: sum_mono)
qed

lemma slash_if_down_shrinks:
  assumes "slash_if_down X T cur e st = Some st'"
  shows "stakes_shrink (ValidatorStakes st) (ValidatorStakes st')"
  using assms
  by (auto simp: slash_if_down_def stakes_shrink_def bind_eq_Some_conv value_at_def unat_saturating_sub
      split: if_splits option.splits prod.splits)

lemma check_downtime_shrinks:
  assumes "check_downtime_slashing X T st = Some st'"
  shows "stakes_shrink (ValidatorStakes st) (ValidatorStakes st')"
proof (rule for_each_invariant [where I = "\<lambda>s. stakes_shrink (ValidatorStakes st) (ValidatorStakes s)"])
  show "for_each (slash_if_down X T (saturated_into (system_block_number st)))
      (storage_iter (ext_key_order X) (LastActiveBlock st)) st = Some st'"
    using assms by (simp add: check_downtime_slashing_def)
qed (auto dest: slash_if_down_shrinks intro: stakes_shrink_trans)

text \<open>The entries of the loop that lead to a slash, with the stake that is slashed.\<close>

definition slashed_entries ::
  "Config \<Rightarrow> u32 \<Rightarrow> ('acc \<rightharpoonup> u128) \<Rightarrow> ('acc \<times> u32) list \<Rightarrow> ('acc \<times> u128) list" where
  "slashed_entries T cur m xs = List.map_filter (\<lambda>(a, b).
     if unat (cfg_MaxDowntimeBlocks T) < unat cur - unat b then map_option (Pair a) (m a) else None) xs"

lemma slashed_entries_simps [simp]:
  "slashed_entries T cur m [] = []"
  "slashed_entries T cur m ((a, b) # xs) =
     (if unat (cfg_MaxDowntimeBlocks T) < unat cur - unat b \<and> m a \<noteq> None then [(a, the (m a))] else [])
       @ slashed_entries T cur m xs"
  by (auto simp: slashed_entries_def map_filter_simps split: option.splits)

lemma slashed_entries_cong:
  "(\<And>a. a \<in> fst ` set xs \<Longrightarrow> m a = m' a) \<Longrightarrow> slashed_entries T cur m xs = slashed_entries T cur m' xs"
  by (induction xs) auto

definition record_of :: "Config \<Rightarrow> u32 \<Rightarrow> 'acc \<times> u128 \<Rightarrow> 'acc \<times> SlashingReason \<times> u128 \<times> u32" where
  "record_of T now = (\<lambda>(a, v). (a, Downtime, v * ucast (cfg_DowntimeSlashPercentage T) div 100, now))"

lemma slash_loop:
  assumes "distinct (map fst xs)"
    and "\<And>v. v \<in> ran (ValidatorStakes st) \<Longrightarrow> unat v * unat (cfg_DowntimeSlashPercentage T) < 2 ^ 128"
  shows "\<exists>st'. for_each (slash_if_down X T cur) xs st = Some st'
    \<and> (\<forall>a. ValidatorStakes st' a =
          (if \<exists>b. (a, b) \<in> set xs \<and> unat (cfg_MaxDowntimeBlocks T) < unat cur - unat b
           then map_option (cut_stake (cfg_DowntimeSlashPercentage T)) (ValidatorStakes st a)
           else ValidatorStakes st a))
    \<and> SlashingRecords st' = SlashingRecords st
        @ map (record_of T (system_block_number st)) (slashed_entries T cur (ValidatorStakes st) xs)"
  using assms
proof (induction xs arbitrary: st)
  case (Cons e xs)
  obtain a b where e: "e = (a, b)" by (cases e)
  show ?case
  proof (cases "unat (cfg_MaxDowntimeBlocks T) < unat cur - unat b \<and> ValidatorStakes st a \<noteq> None")
    case False
    then have "slash_if_down X T cur e st = Some st"
      by (auto simp: e slash_if_down_def word_less_nat_alt unat_saturating_sub split: option.splits)
    moreover have "a \<notin> fst ` set xs" using Cons.prems(1) e by simp
    moreover obtain st' where "for_each (slash_if_down X T cur) xs st = Some st'"
      and "\<forall>a. ValidatorStakes st' a =
          (if \<exists>b. (a, b) \<in> set xs \<and> unat (cfg_MaxDowntimeBlocks T) < unat cur - unat b
           then map_option (cut_stake (cfg_DowntimeSlashPercentage T)) (ValidatorStakes st a)
           else ValidatorStakes st a)"
      and "SlashingRecords st' = SlashingRecords st
        @ map (record_of T (system_block_number st)) (slashed_entries T cur (ValidatorStakes st) xs)"
      using Cons.IH [of st] Cons.prems by auto
    ultimately show ?thesis using False
      by (intro exI [of _ st']) (force simp: e)
  next
    case True
    then obtain v where v: "ValidatorStakes st a = Some v" by auto
    let ?pct = "cfg_DowntimeSlashPercentage T"
    let ?amt = "v * ucast ?pct div 100"
    let ?mid = "deposit_event (ValidatorSlashed a Downtime ?amt)
      (st\<lparr>ValidatorStakes := (ValidatorStakes st)(a \<mapsto> cut_stake ?pct v),
          SlashingRecords := SlashingRecords st @ [(a, Downtime, ?amt, system_block_number st)]\<rparr>)"
    have bound: "unat v * unat ?pct < 2 ^ 128" using Cons.prems(2) v by (auto simp: ran_def)
    have fresh: "a \<notin> fst ` set xs" using Cons.prems(1) e by simp
    have body: "slash_if_down X T cur e st = Some ?mid"
      using True v
      by (simp add: e slash_if_down_def word_less_nat_alt unat_saturating_sub slash_amount_of_fits(1) [OF bound]
          cut_stake_def)
    have cut_le: "unat (cut_stake ?pct v) \<le> unat v" by (simp add: cut_stake_def unat_saturating_sub)
    have mid_bound: "unat w * unat ?pct < 2 ^ 128" if "w \<in> ran (ValidatorStakes ?mid)" for w
    proof (cases "w = cut_stake ?pct v")
      case True
      with bound mult_le_mono1 [OF cut_le, of "unat ?pct"] show ?thesis by (simp only:)
    next
      case False
      then show ?thesis using that Cons.prems(2) by (auto simp: ran_def split: if_splits)
    qed
    have rest: "distinct (map fst xs)" using Cons.prems(1) by simp
    obtain st' where loop: "for_each (slash_if_down X T cur) xs ?mid = Some st'"
      and stakes: "\<forall>a. ValidatorStakes st' a =
          (if \<exists>b. (a, b) \<in> set xs \<and> unat (cfg_MaxDowntimeBlocks T) < unat cur - unat b
           then map_option (cut_stake ?pct) (ValidatorStakes ?mid a)
           else ValidatorStakes ?mid a)"
      and records: "SlashingRecords st' = SlashingRecords ?mid
        @ map (record_of T (system_block_number ?mid)) (slashed_entries T cur (ValidatorStakes ?mid) xs)"
      using Cons.IH [OF rest mid_bound] by blast
    have "slashed_entries T cur (ValidatorStakes ?mid) xs = slashed_entries T cur (ValidatorStakes st) xs"
      using fresh by (intro slashed_entries_cong) auto
    then have "SlashingRecords st' = SlashingRecords st
        @ map (record_of T (system_block_number st)) (slashed_entries T cur (ValidatorStakes st) (e # xs))"
      using records True v by (simp add: e record_of_def)
    moreover have "ValidatorStakes st' c =
          (if \<exists>b. (c, b) \<in> set (e # xs) \<and> unat (cfg_MaxDowntimeBlocks T) < unat cur - unat b
           then map_option (cut_stake ?pct) (ValidatorStakes st c)
           else ValidatorStakes st c)" for c
      using stakes [rule_format, of c] fresh True v by (cases "c = a") (force simp: e)+
    ultimately show ?thesis using body loop by (intro exI [of _ st']) simp
  qed
qed simp

lemma keyed_storage_iter:
  assumes "lists_keys key_order" and "finite (dom m)"
  shows "(a, b) \<in> set (storage_iter key_order m) \<longleftrightarrow> m a = Some b"
  using set_storage_iter [OF assms] by auto

lemma check_downtime_eq:
  assumes "lists_keys (ext_key_order X)" and "finite (dom (LastActiveBlock st))" and "slashable T st"
  shows "\<exists>st'. check_downtime_slashing X T st = Some st'
    \<and> (\<forall>a. ValidatorStakes st' a =
          (if down T st a then map_option (cut_stake (cfg_DowntimeSlashPercentage T)) (ValidatorStakes st a)
           else ValidatorStakes st a))
    \<and> SlashingRecords st' = SlashingRecords st
        @ map (record_of T (system_block_number st))
            (slashed_entries T (system_block_number st) (ValidatorStakes st)
              (storage_iter (ext_key_order X) (LastActiveBlock st)))"
proof -
  have distinct: "distinct (map fst (storage_iter (ext_key_order X) (LastActiveBlock st)))"
    using lists_keysD(2) [OF assms(1,2)] by simp
  have "(\<exists>b. (a, b) \<in> set (storage_iter (ext_key_order X) (LastActiveBlock st))
      \<and> unat (cfg_MaxDowntimeBlocks T) < unat (system_block_number st) - unat b) = down T st a" for a
    by (simp add: keyed_storage_iter [OF assms(1,2)] down_def split: option.splits)
  then show ?thesis
    using slash_loop [OF distinct, of st T X "system_block_number st"] assms(3)
    by (simp add: check_downtime_slashing_def slashable_def)
qed

section \<open>The difficulty adjustment and the hooks\<close>

lemma adjust_difficulty_eq:
  assumes "length (RecentBlockProducers st) \<le> 2 ^ 32"
  shows "\<exists>e st'. adjust_difficulty X st = Some st' \<and> unat e = entropy_nat (RecentBlockProducers st)
    \<and> CurrentEntropy st' = e
    \<and> Difficulty st' = calculate_difficulty_adjustment (Difficulty st) 5 5 e
    \<and> ValidatorStakes st' = ValidatorStakes st \<and> RecentBlockProducers st' = RecentBlockProducers st"
  using calculate_entropy_eq [OF assms, of "ext_overflow_checks X"]
  by (auto simp: adjust_difficulty_def Let_def)

text \<open>What the adjustment leaves alone, whether or not it is bounded.\<close>

lemma adjust_difficulty_fields:
  assumes "adjust_difficulty X st = Some st'"
  shows "CurrentPhase st' = CurrentPhase st" "BlockHeaders st' = BlockHeaders st"
    "BlockProducers st' = BlockProducers st" "ValidatorStakes st' = ValidatorStakes st"
    "LastActiveBlock st' = LastActiveBlock st" "RecentBlockProducers st' = RecentBlockProducers st"
    "balances st' = balances st" "system_block_number st' = system_block_number st"
    "SlashingRecords st' = SlashingRecords st"
    "Difficulty st' = calculate_difficulty_adjustment (Difficulty st) 5 5 (CurrentEntropy st')"
proof -
  obtain e where st': "st' = (if calculate_difficulty_adjustment (Difficulty st) 5 5 e \<noteq> Difficulty st
      then deposit_event (DifficultyAdjusted (Difficulty st) (calculate_difficulty_adjustment (Difficulty st) 5 5 e))
        (st\<lparr>CurrentEntropy := e, Difficulty := calculate_difficulty_adjustment (Difficulty st) 5 5 e\<rparr>)
      else st\<lparr>CurrentEntropy := e\<rparr>)"
    using assms by (auto simp: adjust_difficulty_def Let_def bind_eq_Some_conv)
  show "CurrentPhase st' = CurrentPhase st" "BlockHeaders st' = BlockHeaders st"
    "BlockProducers st' = BlockProducers st" "ValidatorStakes st' = ValidatorStakes st"
    "LastActiveBlock st' = LastActiveBlock st" "RecentBlockProducers st' = RecentBlockProducers st"
    "balances st' = balances st" "system_block_number st' = system_block_number st"
    "SlashingRecords st' = SlashingRecords st"
    "Difficulty st' = calculate_difficulty_adjustment (Difficulty st) 5 5 (CurrentEntropy st')"
    by (simp_all add: st')
qed

text \<open>With the placeholder times the retargeting never raises a target.\<close>

lemma placeholder_never_raises:
  "unat (calculate_difficulty_adjustment cur 5 5 e) \<le> max 1 (unat cur)"
proof -
  have "retarget_step (unat cur) 5 5 \<le> max 1 (unat cur)"
    using div_le_mono [of "min u64_max (unat cur * 5)" "unat cur * 5" 5] by (auto simp: retarget_step_def)
  moreover have "entropy_step (retarget_step (unat cur) 5 5) (unat e) \<le> retarget_step (unat cur) 5 5"
    by (rule entropy_step_le [OF retarget_step_pos])
  ultimately show ?thesis by (simp add: unat_adjustment adjusted_def)
qed

lemma on_initialize_fields:
  assumes "on_initialize X T n st = Some (w, st')"
  shows "CurrentPhase st' = CurrentPhase st" "BlockHeaders st' = BlockHeaders st"
    "BlockProducers st' = BlockProducers st" "LastActiveBlock st' = LastActiveBlock st"
    "RecentBlockProducers st' = RecentBlockProducers st" "balances st' = balances st"
    "system_block_number st' = system_block_number st" "w = default_weight"
    "stakes_shrink (ValidatorStakes st) (ValidatorStakes st')"
    "Difficulty st' = Difficulty st
      \<or> (\<exists>e. Difficulty st' = calculate_difficulty_adjustment (Difficulty st) 5 5 e)"
proof -
  obtain mid where mid: "(if n mod 10 = 0 then check_downtime_slashing X T st else Some st) = Some mid"
    and last: "(if n mod 100 = 0 then adjust_difficulty X mid else Some mid) = Some st'"
    and w: "w = Weight 10000 0"
    using assms by (auto simp: on_initialize_def bind_eq_Some_conv)
  have frame: "but_slashes mid = but_slashes st" and "stakes_shrink (ValidatorStakes st) (ValidatorStakes mid)"
    using mid by (auto split: if_splits dest: check_downtime_frame check_downtime_shrinks)
  moreover note but_slashesD [OF frame]
  moreover note adjust_difficulty_fields [of X mid st']
  ultimately show "CurrentPhase st' = CurrentPhase st" "BlockHeaders st' = BlockHeaders st"
    "BlockProducers st' = BlockProducers st" "LastActiveBlock st' = LastActiveBlock st"
    "RecentBlockProducers st' = RecentBlockProducers st" "balances st' = balances st"
    "system_block_number st' = system_block_number st" "w = default_weight"
    "stakes_shrink (ValidatorStakes st) (ValidatorStakes st')"
    "Difficulty st' = Difficulty st
      \<or> (\<exists>e. Difficulty st' = calculate_difficulty_adjustment (Difficulty st) 5 5 e)"
    using last w by (auto simp: default_weight_def split: if_splits)
qed

lemma on_initialize_keys:
  assumes "on_initialize X T n st = Some (w, st')"
  shows "ValidatorPqcPublicKeys st' = ValidatorPqcPublicKeys st"
proof -
  obtain mid where mid: "(if n mod 10 = 0 then check_downtime_slashing X T st else Some st) = Some mid"
    and last: "(if n mod 100 = 0 then adjust_difficulty X mid else Some mid) = Some st'"
    using assms by (auto simp: on_initialize_def bind_eq_Some_conv)
  have "but_slashes mid = but_slashes st"
    using mid by (auto split: if_splits dest: check_downtime_frame)
  from arg_cong [OF this, of ValidatorPqcPublicKeys] have "ValidatorPqcPublicKeys mid = ValidatorPqcPublicKeys st"
    by (simp add: but_slashes_def)
  moreover have "ValidatorPqcPublicKeys st' = ValidatorPqcPublicKeys mid"
    using last by (auto simp: adjust_difficulty_def Let_def bind_eq_Some_conv split: if_splits)
  ultimately show ?thesis by simp
qed

lemma on_initialize_total:
  assumes "lists_keys (ext_key_order X)" and "finite (dom (LastActiveBlock st))" and "slashable T st"
    and "length (RecentBlockProducers st) \<le> 2 ^ 32"
  shows "\<exists>st'. on_initialize X T n st = Some (default_weight, st')"
proof -
  obtain mid where mid: "(if n mod 10 = 0 then check_downtime_slashing X T st else Some st) = Some mid"
    using check_downtime_eq [OF assms(1-3)] by (cases "n mod 10 = 0") auto
  then have "but_slashes mid = but_slashes st"
    by (auto split: if_splits dest: check_downtime_frame)
  then have "RecentBlockProducers mid = RecentBlockProducers st" by (rule but_slashesD)
  then have "length (RecentBlockProducers mid) \<le> 2 ^ 32"
    using assms(4) by (simp only:)
  then obtain st' where "(if n mod 100 = 0 then adjust_difficulty X mid else Some mid) = Some st'"
    using adjust_difficulty_eq [of mid X] by (cases "n mod 100 = 0") auto
  with mid show ?thesis by (auto simp: on_initialize_def default_weight_def)
qed

section \<open>Properties\<close>

text \<open>A state for the witnesses: validator 1 has been silent for 105 blocks, 2 for 10, 3 for ever.\<close>

definition sample_validators :: "(u64, u64 ledger) Storage" where
  "sample_validators = (genesis_storage (\<lambda>_. 0))\<lparr>
     ValidatorStakes := [1 \<mapsto> 1000, 2 \<mapsto> 2000, 3 \<mapsto> 3000],
     LastActiveBlock := [1 \<mapsto> 5, 2 \<mapsto> 100], system_block_number := 110\<rparr>"

lemma sample_validators_simps [simp]:
  "ValidatorStakes sample_validators = [1 \<mapsto> 1000, 2 \<mapsto> 2000, 3 \<mapsto> 3000]"
  "LastActiveBlock sample_validators = [1 \<mapsto> 5, 2 \<mapsto> 100]"
  "RecentBlockProducers sample_validators = []"
  "system_block_number sample_validators = 110"
  by (simp_all add: sample_validators_def genesis_storage_def)

lemma sample_slashable: "slashable runtime_config sample_validators"
proof -
  have "v \<in> {1000, 2000, 3000}" if "v \<in> ran (ValidatorStakes sample_validators)" for v
    using that by (auto simp: ran_def split: if_splits)
  moreover have "unat v * unat (10 :: u8) < 2 ^ 128" if "v \<in> {1000, 2000, 3000}" for v :: u128
    using that by (elim insertE emptyE) simp_all
  ultimately show ?thesis unfolding slashable_def by (simp add: runtime_config_def)
qed

text \<open>
  C24: The downtime check is total when no stake times the percentage overflows, and does to every
  validator what its specification says: whoever was last active more than \<open>MaxDowntimeBlocks\<close>
  ago loses the percentage of the stake, everyone else keeps it, one record per slash is appended,
  and nothing but stakes, records and events changes. The stakes do not depend on the order in
  which the storage is iterated.
\<close>

theorem downtime_slashing_pointwise:
  assumes "lists_keys (ext_key_order X)" and "finite (dom (LastActiveBlock st))" and "slashable T st"
  shows "\<exists>st'. check_downtime_slashing X T st = Some st'
    \<and> ValidatorStakes st' = (\<lambda>a. if down T st a
          then map_option (cut_stake (cfg_DowntimeSlashPercentage T)) (ValidatorStakes st a)
          else ValidatorStakes st a)
    \<and> SlashingRecords st' = SlashingRecords st
        @ map (record_of T (system_block_number st))
            (slashed_entries T (system_block_number st) (ValidatorStakes st)
              (storage_iter (ext_key_order X) (LastActiveBlock st)))
    \<and> but_slashes st' = but_slashes st"
proof -
  obtain st' where st': "check_downtime_slashing X T st = Some st'"
    and stakes: "\<forall>a. ValidatorStakes st' a =
          (if down T st a then map_option (cut_stake (cfg_DowntimeSlashPercentage T)) (ValidatorStakes st a)
           else ValidatorStakes st a)"
    and records: "SlashingRecords st' = SlashingRecords st
        @ map (record_of T (system_block_number st))
            (slashed_entries T (system_block_number st) (ValidatorStakes st)
              (storage_iter (ext_key_order X) (LastActiveBlock st)))"
    using check_downtime_eq [OF assms] by blast
  have "ValidatorStakes st' = (\<lambda>a. if down T st a
          then map_option (cut_stake (cfg_DowntimeSlashPercentage T)) (ValidatorStakes st a)
          else ValidatorStakes st a)"
    by (rule ext) (simp add: stakes)
  with st' records check_downtime_frame [OF st'] show ?thesis by (intro exI [of _ st'] conjI)
qed

theorem downtime_slashing_pointwise_witness:
  "\<exists>st'. check_downtime_slashing (sample_externals 1) runtime_config sample_validators = Some st'
    \<and> ValidatorStakes st' 1 = Some 900 \<and> ValidatorStakes st' 2 = Some 2000"
proof -
  have law: "lists_keys (ext_key_order (sample_externals 1))" by (simp add: lists_keys_sorted)
  have fin: "finite (dom (LastActiveBlock sample_validators))" by simp
  obtain st' where st': "check_downtime_slashing (sample_externals 1) runtime_config sample_validators = Some st'"
    and stakes: "ValidatorStakes st' = (\<lambda>a. if down runtime_config sample_validators a
          then map_option (cut_stake (cfg_DowntimeSlashPercentage runtime_config)) (ValidatorStakes sample_validators a)
          else ValidatorStakes sample_validators a)"
    using downtime_slashing_pointwise [OF law fin sample_slashable] by blast
  have "cut_stake 10 1000 = 900" by (simp add: cut_stake_def saturating_sub_def)
  then have "ValidatorStakes st' 1 = Some 900 \<and> ValidatorStakes st' 2 = Some 2000"
    by (simp add: stakes down_def runtime_config_def)
  with st' show ?thesis by blast
qed

text \<open>
  A validator without a \<open>LastActiveBlock\<close> entry, one that has staked but never mined or
  validated a block, is never slashed for downtime, however long it is silent.
\<close>

lemma never_active_never_slashed:
  assumes "lists_keys (ext_key_order X)" and "finite (dom (LastActiveBlock st))"
    and "LastActiveBlock st a = None" and "check_downtime_slashing X T st = Some st'"
  shows "ValidatorStakes st' a = ValidatorStakes st a"
proof (rule for_each_invariant [where I = "\<lambda>s. ValidatorStakes s a = ValidatorStakes st a"])
  show "for_each (slash_if_down X T (system_block_number st))
      (storage_iter (ext_key_order X) (LastActiveBlock st)) st = Some st'"
    using assms(4) by (simp add: check_downtime_slashing_def)
  fix e s s'
  assume e: "e \<in> set (storage_iter (ext_key_order X) (LastActiveBlock st))"
    and kept: "ValidatorStakes s a = ValidatorStakes st a"
    and body: "slash_if_down X T (system_block_number st) e s = Some s'"
  have "fst e \<noteq> a"
    using e assms(3) keyed_storage_iter [OF assms(1,2), of "fst e" "snd e"] by auto
  then show "ValidatorStakes s' a = ValidatorStakes st a"
    using body kept
    by (auto simp: slash_if_down_def bind_eq_Some_conv split: if_splits option.splits prod.splits)
qed simp

text \<open>
  C34: \<open>on_initialize\<close> never panics, at any height and under either build profile, as long as no
  stake times the slash percentage leaves \<open>u128\<close>, and always reports the same weight.
\<close>

theorem on_initialize_never_panics:
  assumes "lists_keys (ext_key_order X)" and "finite (dom (LastActiveBlock st))" and "slashable T st"
    and "length (RecentBlockProducers st) \<le> 100"
  shows "\<exists>st'. on_initialize X T n st = Some (default_weight, st')"
  using on_initialize_total [OF assms(1-3)] assms(4) by simp

theorem on_initialize_never_panics_witness:
  "\<exists>st'. on_initialize (sample_externals 1) runtime_config 100 sample_validators = Some (default_weight, st')"
  by (rule on_initialize_never_panics [OF _ _ sample_slashable]) (simp_all add: lists_keys_sorted)

text \<open>
  The pallet's two copies of the reward distribution agree: \<open>distribute_block_rewards\<close> leaves
  the balances that \<open>distribute_rewards\<close> computes for the stakers in storage, panics exactly when
  the split or that function does, and adds the event.
\<close>

lemma distribute_block_rewards_agrees:
  "distribute_block_rewards X T miner n st =
     do {
       reward \<leftarrow> calculate_block_reward (ext_overflow_checks X) (cfg_BlockReward T);
       bal \<leftarrow> distribute_rewards X miner (collect_stakers X st) reward (balances st);
       accept (deposit_event (RewardsDistributed miner (br_miner_reward reward)
                 (br_stakers_reward reward)) (st\<lparr>balances := bal\<rparr>))
     }"
proof -
  have "collect_stakers X (st\<lparr>balances := b\<rparr>) = collect_stakers X st" for b
    by (simp add: collect_stakers_def)
  then show ?thesis
    by (simp add: distribute_block_rewards_def distribute_rewards_def Let_def deposit_event_def
        split: Option.bind_split)
qed

end
