(* ===== verification/Ghost_Chain.thy ===== *)
theory Ghost_Chain
  imports Ghost_Hooks
begin

text \<open>
  The pallet as a state machine: its calls, their dispatch with FRAME's rollback, and the steps a
  chain makes (a block begins, an extrinsic is applied, a block ends, another pallet moves
  balances). The effect of every call is stated once, as an equivalence with its preconditions, and
  the safety properties follow for all runs through the contract \<open>invariant_system\<close>.
\<close>

section \<open>Calls and steps\<close>

datatype 'acc Call =
    Submit_block GhostBlockHeader
  | Stake u128
  | Unstake u128
  | Validate_block u32 PqcSignature
  | Report_misbehavior 'acc SlashingReason
  | Register_pqc_key bytes

text \<open>The attributes \<open>pallet::call_index\<close> and \<open>pallet::weight\<close>.\<close>

definition call_index :: "'acc Call \<Rightarrow> u8" where
  "call_index c = (case c of Submit_block _ \<Rightarrow> 0 | Stake _ \<Rightarrow> 1 | Unstake _ \<Rightarrow> 2
     | Validate_block _ _ \<Rightarrow> 3 | Report_misbehavior _ _ \<Rightarrow> 4 | Register_pqc_key _ \<Rightarrow> 5)"

definition call_weight :: "'acc Call \<Rightarrow> Weight" where
  "call_weight c = (case c of
       Submit_block _ \<Rightarrow> Weight 10000 0
     | Stake _ \<Rightarrow> Weight 10000 0
     | Unstake _ \<Rightarrow> Weight 10000 0
     | Validate_block _ _ \<Rightarrow> Weight 10000 0
     | Report_misbehavior _ _ \<Rightarrow> Weight 10000 0
     | Register_pqc_key _ \<Rightarrow> Weight 10000 0)"

definition dispatch_call ::
  "('acc, 'bal) Externals \<Rightarrow> Config \<Rightarrow> 'acc RawOrigin \<Rightarrow> 'acc Call \<Rightarrow> ('acc, 'bal) Storage
    \<Rightarrow> ('acc, 'bal) outcome" where
  "dispatch_call X T origin c st = (case c of
       Submit_block block_header \<Rightarrow> submit_block X origin block_header st
     | Stake amount \<Rightarrow> stake X T origin amount st
     | Unstake amount \<Rightarrow> unstake X T origin amount st
     | Validate_block block_number pqc_signature \<Rightarrow> validate_block X T origin block_number pqc_signature st
     | Report_misbehavior validator reason \<Rightarrow> report_misbehavior X T origin validator reason st
     | Register_pqc_key public_key \<Rightarrow> register_pqc_key origin public_key st)"

text \<open>FRAME runs a dispatchable in a storage layer and discards the layer when it returns an error.\<close>

definition dispatch ::
  "('acc, 'bal) Externals \<Rightarrow> Config \<Rightarrow> 'acc RawOrigin \<Rightarrow> 'acc Call \<Rightarrow> ('acc, 'bal) Storage
    \<Rightarrow> ('acc, 'bal) outcome" where
  "dispatch X T origin c st = (case dispatch_call X T origin c st of
       None \<Rightarrow> None
     | Some (Inl e, _) \<Rightarrow> reject e st
     | Some (Inr _, st') \<Rightarrow> accept st')"

text \<open>
  The lengths that the argument types \<open>[u8; 2592]\<close> and \<open>PqcSignature([u8; 4627])\<close> prescribe: a call
  that does not decode to them is no call.
\<close>

definition signature_typed :: "PqcSignature \<Rightarrow> bool" where
  "signature_typed sig \<longleftrightarrow> length (pqc_bytes sig) = 4627"

definition header_typed :: "GhostBlockHeader \<Rightarrow> bool" where
  "header_typed h = (case bh_pqc_signature h of None \<Rightarrow> True | Some sig \<Rightarrow> signature_typed sig)"

definition call_typed :: "'acc Call \<Rightarrow> bool" where
  "call_typed c = (case c of
       Submit_block block_header \<Rightarrow> header_typed block_header
     | Validate_block block_number pqc_signature \<Rightarrow> signature_typed pqc_signature
     | Register_pqc_key public_key \<Rightarrow> length public_key = 2592
     | _ \<Rightarrow> True)"

text \<open>
  A step of the chain. A panic has no successor: the block that causes it is not produced. Nobody
  holds a key of the pallet's account, so it signs no extrinsic. What the other pallets may do to
  balances between two steps of this one is the relation \<open>foreign\<close>. The runtime also has
  \<open>pallet_sudo\<close>, whose key can write any storage and dispatch calls in the name of any account, the
  pallet's own included: such steps are not steps of this relation, and what is shown of all runs is
  shown of runs without them.
\<close>

inductive chain_step ::
  "('acc::linorder, 'bal) Externals \<Rightarrow> Config \<Rightarrow> ('bal \<Rightarrow> 'bal \<Rightarrow> bool)
    \<Rightarrow> ('acc, 'bal) Storage \<Rightarrow> ('acc, 'bal) Storage \<Rightarrow> bool"
  for X T foreign where
  block_begins: "unat (system_block_number st) + 1 < 2 ^ 32 \<Longrightarrow> n = system_block_number st + 1 \<Longrightarrow>
    on_initialize X T n (st\<lparr>system_block_number := n, system_events := []\<rparr>) = Some (w, st') \<Longrightarrow>
    chain_step X T foreign st st'"
| extrinsic: "origin \<noteq> Signed (account_id X T) \<Longrightarrow> call_typed c \<Longrightarrow>
    dispatch X T origin c st = Some (r, st') \<Longrightarrow>
    chain_step X T foreign st st'"
| block_ends: "chain_step X T foreign st (on_finalize (system_block_number st) st)"
| elsewhere: "foreign (balances st) bal \<Longrightarrow> chain_step X T foreign st (st\<lparr>balances := bal\<rparr>)"

section \<open>What a successful call does\<close>

lemma ensure_signed_Inr [simp]: "ensure_signed origin = Inr who \<longleftrightarrow> origin = Signed who"
  by (cases origin) (auto simp: ensure_signed_def)

lemma ensure_signed_cases:
  "ensure_signed origin = Inl BadOrigin \<or> (\<exists>who. origin = Signed who \<and> ensure_signed origin = Inr who)"
  by (cases origin) (auto simp: ensure_signed_def)

lemma ensure_signed_Signed [simp]: "ensure_signed (Signed who) = Inr who"
  by (simp add: ensure_signed_def)

lemma ensure_signed_Inl: "ensure_signed origin = Inl e \<Longrightarrow> e = BadOrigin \<and> (\<forall>who. origin \<noteq> Signed who)"
  by (cases origin) (auto simp: ensure_signed_def)

text \<open>The window always keeps the newest 100 producers.\<close>

lemma push_recent_eq:
  assumes "length recent \<le> 100"
  shows "push_recent miner recent = drop (length recent + 1 - 100) (recent @ [miner])"
  using assms by (cases recent) (auto simp: push_recent_def Let_def)

lemma push_recent_length: "length recent \<le> 100 \<Longrightarrow> length (push_recent miner recent) \<le> 100"
  by (simp add: push_recent_eq)

text \<open>The storage after an accepted \<open>submit_block\<close>.\<close>

definition mined :: "'acc \<Rightarrow> GhostBlockHeader \<Rightarrow> ('acc, 'bal) Storage \<Rightarrow> ('acc, 'bal) Storage" where
  "mined miner h st = deposit_event (BlockMined (bh_number h) miner (bh_nonce h))
     (st\<lparr>BlockHeaders := (BlockHeaders st)(bh_number h \<mapsto> h),
         BlockProducers := (BlockProducers st)(bh_number h \<mapsto> miner),
         RecentBlockProducers := push_recent miner (RecentBlockProducers st),
         LastActiveBlock := (LastActiveBlock st)(miner \<mapsto> bh_number h),
         CurrentPhase := PosValidation\<rparr>)"

lemma submit_block_ok:
  "submit_block X origin h st = Some (Inr u, st') \<longleftrightarrow>
     (\<exists>miner p. origin = Signed miner \<and> CurrentPhase st = PowMining \<and> 0 < bh_number h
        \<and> BlockHeaders st (bh_number h - 1) = Some p
        \<and> validate_block_header X (Difficulty st) h p = Some (Inr ()) \<and> st' = mined miner h st)"
  by (auto simp: submit_block_def mined_def Let_def checked_sub_def bind_eq_Some_conv word_less_nat_alt
      split: sum.splits option.splits if_splits)

definition staked ::
  "'acc \<Rightarrow> u128 \<Rightarrow> 'bal \<Rightarrow> ('acc, 'bal) Storage \<Rightarrow> ('acc, 'bal) Storage" where
  "staked who new_stake bal st =
     st\<lparr>balances := bal, ValidatorStakes := (ValidatorStakes st)(who \<mapsto> new_stake)\<rparr>"

lemma stake_ok:
  "stake X T origin amount st = Some (Inr u, st') \<longleftrightarrow>
     (\<exists>who bal new_stake. origin = Signed who \<and> cfg_MinStake T \<le> amount
        \<and> ext_transfer X who (account_id X T) amount KeepAlive (balances st) = Inr bal
        \<and> add_w (ext_overflow_checks X) (or_default 0 (ValidatorStakes st who)) amount = Some new_stake
        \<and> st' = staked who new_stake bal st)"
  by (auto simp: stake_def staked_def Let_def bind_eq_Some_conv split: sum.splits)

lemma unstake_ok:
  "unstake X T origin amount st = Some (Inr u, st') \<longleftrightarrow>
     (\<exists>who bal held. origin = Signed who \<and> ValidatorStakes st who = Some held \<and> amount \<le> held
        \<and> ext_transfer X (account_id X T) who amount AllowDeath (balances st) = Inr bal
        \<and> st' = staked who (held - amount) bal st)"
  by (auto simp: unstake_def staked_def Let_def sub_w_def word_le_nat_alt
      split: sum.splits option.splits if_splits)

definition reported :: "'acc \<Rightarrow> SlashingReason \<Rightarrow> ('acc, 'bal) Storage \<Rightarrow> ('acc, 'bal) Storage" where
  "reported validator reason st = (case reason of
       DoubleSigning \<Rightarrow> st\<lparr>DoubleSignReports := (DoubleSignReports st)(validator \<mapsto> True)\<rparr>
     | InvalidBlock \<Rightarrow> st\<lparr>InvalidBlockReports := (InvalidBlockReports st)(validator \<mapsto> True)\<rparr>
     | _ \<Rightarrow> st)"

lemma reported_fields [simp]:
  "Difficulty (reported v r st) = Difficulty st" "CurrentPhase (reported v r st) = CurrentPhase st"
  "BlockHeaders (reported v r st) = BlockHeaders st" "BlockProducers (reported v r st) = BlockProducers st"
  "ValidatorStakes (reported v r st) = ValidatorStakes st"
  "LastActiveBlock (reported v r st) = LastActiveBlock st"
  "SlashingRecords (reported v r st) = SlashingRecords st"
  "ValidatorPqcPublicKeys (reported v r st) = ValidatorPqcPublicKeys st"
  "RecentBlockProducers (reported v r st) = RecentBlockProducers st"
  "CurrentEntropy (reported v r st) = CurrentEntropy st" "balances (reported v r st) = balances st"
  "system_block_number (reported v r st) = system_block_number st"
  by (cases r; simp add: reported_def)+

lemma report_misbehavior_ok:
  "report_misbehavior X T origin validator reason st = Some (Inr u, st') \<longleftrightarrow>
     (\<exists>who amount. origin = Signed who
        \<and> slash_amount_of (ext_overflow_checks X) (or_default 0 (ValidatorStakes st validator))
            (slash_percentage T reason) = Some amount
        \<and> st' = deposit_event (ValidatorSlashed validator reason amount)
            ((reported validator reason st)\<lparr>ValidatorStakes := (ValidatorStakes st)(validator \<mapsto>
               saturating_sub (or_default 0 (ValidatorStakes st validator)) amount)\<rparr>))"
  by (cases reason)
    (auto simp: report_misbehavior_def reported_def Let_def bind_eq_Some_conv split: sum.splits)

definition validated ::
  "('acc, 'bal) Externals \<Rightarrow> 'acc \<Rightarrow> u32 \<Rightarrow> PqcSignature \<Rightarrow> GhostBlockHeader \<Rightarrow> u64 \<Rightarrow> 'acc
    \<Rightarrow> BlockReward \<Rightarrow> 'bal \<Rightarrow> ('acc, 'bal) Storage \<Rightarrow> ('acc, 'bal) Storage" where
  "validated X validator n sig h weight miner reward bal st =
     deposit_event (RewardsDistributed miner (br_miner_reward reward) (br_stakers_reward reward))
       (deposit_event (ValidatorSelected validator weight)
         (st\<lparr>BlockHeaders := (BlockHeaders st)(n \<mapsto> sign_header X validator n sig h),
             balances := bal,
             LastActiveBlock := (LastActiveBlock st)(validator \<mapsto> n),
             CurrentPhase := Finalization\<rparr>))"

lemma validate_block_ok:
  "validate_block X T origin n sig st = Some (Inr u, st') \<longleftrightarrow>
     (\<exists>validator h sel reward miner bal. origin = Signed validator
        \<and> ValidatorStakes st validator \<noteq> None \<and> BlockHeaders st n = Some h
        \<and> CurrentPhase st = PosValidation
        \<and> select_pos_validator (ext_overflow_checks X) (system_block_number st) (collect_stakers X st)
            (ext_hash_of_seed X (n, system_block_number st)) = Some (Some sel)
        \<and> sel_validator sel = validator \<and> check_pqc X T validator n sig st = Inr ()
        \<and> calculate_block_reward (ext_overflow_checks X) (cfg_BlockReward T) = Some reward
        \<and> BlockProducers st n = Some miner
        \<and> distribute_rewards X miner (collect_stakers X st) reward (balances st) = Some bal
        \<and> st' = validated X validator n sig h (sel_weight sel) miner reward bal st)"
proof (cases origin)
  case (Signed validator)
  have stakers: "collect_stakers X (st\<lparr>BlockHeaders := b\<rparr>) = collect_stakers X st" for b
    by (simp add: collect_stakers_def)
  show ?thesis
  proof (cases "ValidatorStakes st validator = None \<or> BlockHeaders st n = None
      \<or> CurrentPhase st \<noteq> PosValidation")
    case True
    then show ?thesis by (auto simp: Signed validate_block_def split: option.split)
  next
    case False
    then obtain h where h: "BlockHeaders st n = Some h" by auto
    show ?thesis
    proof (cases "select_pos_validator (ext_overflow_checks X) (system_block_number st) (collect_stakers X st)
            (ext_hash_of_seed X (n, system_block_number st))")
      case sel: (Some selected)
      show ?thesis
      proof (cases "\<exists>sel. selected = Some sel \<and> sel_validator sel = validator
          \<and> check_pqc X T validator n sig st = Inr ()")
        case fine: True
        then obtain sel where "selected = Some sel" "sel_validator sel = validator"
          "check_pqc X T validator n sig st = Inr ()" by blast
        with False h sel show ?thesis
          by (cases "BlockProducers st n")
            (auto simp: Signed validate_block_def validated_def get_miner_for_block_def stakers
              bind_eq_Some_conv)
      next
        case False': False
        with False h sel show ?thesis
          by (auto simp: Signed validate_block_def split: option.split sum.split)
      qed
    qed (use False h in \<open>simp add: Signed validate_block_def\<close>)
  qed
qed (simp_all add: validate_block_def ensure_signed_def)

lemma register_pqc_key_ok:
  "register_pqc_key origin key st = Some (Inr u, st') \<longleftrightarrow>
     (\<exists>who. origin = Signed who
        \<and> st' = st\<lparr>ValidatorPqcPublicKeys := (ValidatorPqcPublicKeys st)(who \<mapsto> key)\<rparr>)"
  by (auto simp: register_pqc_key_def split: sum.splits)

lemma dispatch_ok: "dispatch X T origin c st = Some (Inr u, st') \<longleftrightarrow> dispatch_call X T origin c st = Some (Inr u, st')"
  by (auto simp: dispatch_def split: option.splits sum.splits prod.splits)

lemma dispatch_error: "dispatch X T origin c st = Some (Inl e, st') \<longleftrightarrow>
    st' = st \<and> (\<exists>mid. dispatch_call X T origin c st = Some (Inl e, mid))"
  by (auto simp: dispatch_def split: option.splits sum.splits prod.splits)

lemmas call_ok = submit_block_ok stake_ok unstake_ok validate_block_ok report_misbehavior_ok register_pqc_key_ok

section \<open>Consequences for every call\<close>

lemma dispatch_cases:
  assumes "dispatch X T origin c st = Some (r, st')"
  obtains (failed) e where "r = Inl e" "st' = st"
    | (succeeded) "r = Inr ()" "dispatch_call X T origin c st = Some (Inr (), st')"
  using assms by (cases r) (auto simp: dispatch_ok dispatch_error)

lemma mined_fields [simp]:
  "Difficulty (mined miner h st) = Difficulty st" "CurrentPhase (mined miner h st) = PosValidation"
  "BlockHeaders (mined miner h st) = (BlockHeaders st)(bh_number h \<mapsto> h)"
  "BlockProducers (mined miner h st) = (BlockProducers st)(bh_number h \<mapsto> miner)"
  "ValidatorStakes (mined miner h st) = ValidatorStakes st"
  "RecentBlockProducers (mined miner h st) = push_recent miner (RecentBlockProducers st)"
  "LastActiveBlock (mined miner h st) = (LastActiveBlock st)(miner \<mapsto> bh_number h)"
  "balances (mined miner h st) = balances st"
  "system_block_number (mined miner h st) = system_block_number st"
  by (simp_all add: mined_def)

lemma staked_fields [simp]:
  "Difficulty (staked who v bal st) = Difficulty st" "CurrentPhase (staked who v bal st) = CurrentPhase st"
  "BlockHeaders (staked who v bal st) = BlockHeaders st"
  "BlockProducers (staked who v bal st) = BlockProducers st"
  "ValidatorStakes (staked who v bal st) = (ValidatorStakes st)(who \<mapsto> v)"
  "RecentBlockProducers (staked who v bal st) = RecentBlockProducers st"
  "LastActiveBlock (staked who v bal st) = LastActiveBlock st" "balances (staked who v bal st) = bal"
  "system_block_number (staked who v bal st) = system_block_number st"
  by (simp_all add: staked_def)

lemma validated_fields [simp]:
  "Difficulty (validated X v n sig h w m rw bal st) = Difficulty st"
  "CurrentPhase (validated X v n sig h w m rw bal st) = Finalization"
  "BlockHeaders (validated X v n sig h w m rw bal st) = (BlockHeaders st)(n \<mapsto> sign_header X v n sig h)"
  "BlockProducers (validated X v n sig h w m rw bal st) = BlockProducers st"
  "ValidatorStakes (validated X v n sig h w m rw bal st) = ValidatorStakes st"
  "RecentBlockProducers (validated X v n sig h w m rw bal st) = RecentBlockProducers st"
  "LastActiveBlock (validated X v n sig h w m rw bal st) = (LastActiveBlock st)(v \<mapsto> n)"
  "balances (validated X v n sig h w m rw bal st) = bal"
  "system_block_number (validated X v n sig h w m rw bal st) = system_block_number st"
  by (simp_all add: validated_def)

lemma sign_header_fields [simp]:
  "bh_number (sign_header X v n sig h) = bh_number h"
  "bh_difficulty (sign_header X v n sig h) = bh_difficulty h"
  "bh_nonce (sign_header X v n sig h) = bh_nonce h"
  "bh_parent_hash (sign_header X v n sig h) = bh_parent_hash h"
  by (simp_all add: sign_header_def)

lemma verify_sign_header [simp]:
  "verify_pow_enhanced X (sign_header X v n sig h) t = verify_pow_enhanced X h t"
  by (rule pow_enhanced.same_input) (simp add: pow_input_of_def sign_header_def)

text \<open>
  What each call can change of the consensus state. The three alternatives are a submission, a
  validation, and everything else, which touches none of it.
\<close>

lemma dispatch_consensus_cases:
  assumes "dispatch X T origin c st = Some (r, st')"
  obtains (same) "CurrentPhase st' = CurrentPhase st" "BlockHeaders st' = BlockHeaders st"
      "BlockProducers st' = BlockProducers st" "RecentBlockProducers st' = RecentBlockProducers st"
      "LastActiveBlock st' = LastActiveBlock st" "Difficulty st' = Difficulty st"
    | (submitted) miner h p where "c = Submit_block h" "r = Inr ()" "origin = Signed miner"
      "CurrentPhase st = PowMining" "BlockHeaders st (bh_number h - 1) = Some p" "0 < bh_number h"
      "validate_block_header X (Difficulty st) h p = Some (Inr ())" "st' = mined miner h st"
    | (validated) validator n sig h w m rw bal where "c = Validate_block n sig" "r = Inr ()"
      "origin = Signed validator" "CurrentPhase st = PosValidation" "BlockHeaders st n = Some h"
      "BlockProducers st n = Some m" "st' = validated X validator n sig h w m rw bal st"
  using assms
proof (cases rule: dispatch_cases)
  case (failed e)
  then show ?thesis by (simp add: same)
next
  case fine: succeeded
  show ?thesis
  proof (cases c)
    case (Submit_block h)
    with fine show ?thesis by (auto simp: dispatch_call_def submit_block_ok intro: submitted)
  next
    case (Validate_block n sig)
    with fine show ?thesis by (auto simp: dispatch_call_def validate_block_ok intro: validated)
  next
    case (Report_misbehavior v reason)
    with fine have "dispatch_call X T origin c st = report_misbehavior X T origin v reason st"
      by (simp add: dispatch_call_def)
    with fine show ?thesis by (intro same) (auto simp: report_misbehavior_ok)
  qed (use fine in \<open>intro same; auto simp: dispatch_call_def stake_ok unstake_ok register_pqc_key_ok\<close>)+
qed

lemma on_finalize_fields [simp]:
  "BlockHeaders (on_finalize n st) = BlockHeaders st" "BlockProducers (on_finalize n st) = BlockProducers st"
  "RecentBlockProducers (on_finalize n st) = RecentBlockProducers st"
  "LastActiveBlock (on_finalize n st) = LastActiveBlock st" "Difficulty (on_finalize n st) = Difficulty st"
  "ValidatorStakes (on_finalize n st) = ValidatorStakes st" "balances (on_finalize n st) = balances st"
  "CurrentPhase (on_finalize n st) = (if CurrentPhase st = Finalization then PowMining else CurrentPhase st)"
  by (simp_all add: on_finalize_def)

text \<open>The consensus part of a step, over all rules: what the invariants below need to look at.\<close>

lemma chain_step_cases:
  assumes "chain_step X T foreign st st'"
  obtains (same) "CurrentPhase st' = CurrentPhase st" "BlockHeaders st' = BlockHeaders st"
      "BlockProducers st' = BlockProducers st" "RecentBlockProducers st' = RecentBlockProducers st"
      "Difficulty st' = Difficulty st
        \<or> (\<exists>e. Difficulty st' = calculate_difficulty_adjustment (Difficulty st) 5 5 e)"
    | (submitted) miner h p where "CurrentPhase st = PowMining" "BlockHeaders st (bh_number h - 1) = Some p"
      "0 < bh_number h" "validate_block_header X (Difficulty st) h p = Some (Inr ())" "st' = mined miner h st"
    | (validated) validator n sig h w m rw bal where "CurrentPhase st = PosValidation"
      "BlockHeaders st n = Some h" "BlockProducers st n = Some m"
      "st' = validated X validator n sig h w m rw bal st"
    | (finalized) "CurrentPhase st = Finalization" "st' = st\<lparr>CurrentPhase := PowMining\<rparr>"
  using assms
proof (cases rule: chain_step.cases)
  case (block_begins n w)
  note fields = on_initialize_fields [OF block_begins(3)]
  show ?thesis by (rule same) (use fields in simp_all)
next
  case (extrinsic origin c r)
  from extrinsic(3) show ?thesis
    by (cases rule: dispatch_consensus_cases) (auto intro: same submitted validated)
next
  case block_ends
  then show ?thesis
    by (cases "CurrentPhase st = Finalization") (auto simp: on_finalize_def intro: same finalized)
next
  case (elsewhere bal)
  then show ?thesis by (intro same) simp_all
qed

section \<open>Invariants of the chain\<close>

text \<open>
  What the storage types promise, and FRAME's maps: the window holds at most 100 producers, keys and
  signatures have their length, and only finitely many entries exist.
\<close>

definition storage_typed :: "('acc, 'bal) Storage \<Rightarrow> bool" where
  "storage_typed st \<longleftrightarrow> length (RecentBlockProducers st) \<le> 100
     \<and> (\<forall>h \<in> ran (BlockHeaders st). header_typed h)
     \<and> (\<forall>k \<in> ran (ValidatorPqcPublicKeys st). length k = 2592)
     \<and> finite (dom (BlockHeaders st)) \<and> finite (dom (BlockProducers st))
     \<and> finite (dom (ValidatorStakes st)) \<and> finite (dom (LastActiveBlock st))
     \<and> finite (dom (ValidatorPqcPublicKeys st))"

lemma storage_typedI:
  assumes "length (RecentBlockProducers st) \<le> 100" "\<And>n h. BlockHeaders st n = Some h \<Longrightarrow> header_typed h"
    "\<And>a k. ValidatorPqcPublicKeys st a = Some k \<Longrightarrow> length k = 2592"
    "finite (dom (BlockHeaders st))" "finite (dom (BlockProducers st))" "finite (dom (ValidatorStakes st))"
    "finite (dom (LastActiveBlock st))" "finite (dom (ValidatorPqcPublicKeys st))"
  shows "storage_typed st"
  using assms by (auto simp: storage_typed_def ran_def)

lemma storage_typedD:
  assumes "storage_typed st"
  shows "length (RecentBlockProducers st) \<le> 100" "BlockHeaders st n = Some h \<Longrightarrow> header_typed h"
    "ValidatorPqcPublicKeys st a = Some k \<Longrightarrow> length k = 2592"
    "finite (dom (BlockHeaders st))" "finite (dom (BlockProducers st))" "finite (dom (ValidatorStakes st))"
    "finite (dom (LastActiveBlock st))" "finite (dom (ValidatorPqcPublicKeys st))"
  using assms by (auto simp: storage_typed_def ran_def)

lemma header_typed_signed: "signature_typed sig \<Longrightarrow> header_typed (sign_header X v n sig h)"
  by (simp add: header_typed_def sign_header_def)

lemma dispatch_typed:
  assumes ok: "dispatch X T origin c st = Some (r, st')" and c: "call_typed c" and typed: "storage_typed st"
  shows "storage_typed st'"
  using ok
proof (cases rule: dispatch_cases)
  case succeeded
  note facts = storage_typedD [OF typed]
  show ?thesis
  proof (cases c)
    case (Submit_block h)
    then obtain miner where st': "st' = mined miner h st"
      using succeeded by (auto simp: dispatch_call_def submit_block_ok)
    show ?thesis
      using facts c Submit_block
      by (intro storage_typedI) (auto simp: st' push_recent_length call_typed_def mined_def split: if_splits)
  next
    case (Validate_block n sig)
    then obtain v h w m rw bal where st': "st' = validated X v n sig h w m rw bal st"
      using succeeded by (auto simp: dispatch_call_def validate_block_ok)
    show ?thesis
      using facts c Validate_block
      by (intro storage_typedI)
        (auto simp: st' header_typed_signed call_typed_def validated_def split: if_splits)
  next
    case (Register_pqc_key k)
    then obtain who where st': "st' = st\<lparr>ValidatorPqcPublicKeys := (ValidatorPqcPublicKeys st)(who \<mapsto> k)\<rparr>"
      using succeeded by (auto simp: dispatch_call_def register_pqc_key_ok)
    show ?thesis
      using facts c Register_pqc_key
      by (intro storage_typedI) (auto simp: st' call_typed_def split: if_splits)
  next
    case (Report_misbehavior v reason)
    then obtain amount left where st': "st' = deposit_event (ValidatorSlashed v reason amount)
        ((reported v reason st)\<lparr>ValidatorStakes := (ValidatorStakes st)(v \<mapsto> left)\<rparr>)"
      using succeeded by (auto simp: dispatch_call_def report_misbehavior_ok)
    show ?thesis using facts by (intro storage_typedI) (auto simp: st')
  qed (use facts succeeded in \<open>intro storage_typedI; auto simp: dispatch_call_def stake_ok unstake_ok staked_def\<close>)+
qed (use typed in simp)

interpretation typing: invariant_system "chain_step X T foreign" storage_typed
  for X :: "('acc::linorder, 'bal) Externals" and T foreign
proof unfold_locales
  fix s t :: "('acc, 'bal) Storage"
  assume typed: "storage_typed s" and "chain_step X T foreign s t"
  note facts = storage_typedD [OF typed]
  from \<open>chain_step X T foreign s t\<close> show "storage_typed t"
  proof (cases rule: chain_step.cases)
    case (block_begins n w)
    note fields = on_initialize_fields [OF block_begins(3)] on_initialize_keys [OF block_begins(3)]
    have "dom (ValidatorStakes t) = dom (ValidatorStakes s)"
      using fields(9) by (simp add: stakes_shrink_def)
    then show ?thesis using facts fields by (intro storage_typedI) simp_all
  next
    case (extrinsic origin c r)
    then show ?thesis using dispatch_typed typed by blast
  next
    case block_ends
    then show ?thesis using typed by (simp add: on_finalize_def storage_typed_def)
  next
    case (elsewhere bal)
    then show ?thesis using facts by (intro storage_typedI) simp_all
  qed
qed

text \<open>Every stored header sits at its own number, and every mined one carries its proof of work.\<close>

definition headers_sound :: "('acc, 'bal) Externals \<Rightarrow> ('acc, 'bal) Storage \<Rightarrow> bool" where
  "headers_sound X st \<longleftrightarrow>
     (\<forall>n h. BlockHeaders st n = Some h \<longrightarrow> bh_number h = n
        \<and> (BlockProducers st n \<noteq> None \<longrightarrow> 0 < n \<and> verify_pow_enhanced X h (bh_difficulty h)))
     \<and> dom (BlockProducers st) \<subseteq> dom (BlockHeaders st)"

lemma accepted_has_pow:
  assumes "validate_block_header X expected h p = Some (Inr ())"
  shows "header_valid X expected h p"
  using validate_block_header_ok_iff [OF assms] by simp

interpretation headers: invariant_system "chain_step X T foreign" "headers_sound X"
  for X :: "('acc::linorder, 'bal) Externals" and T foreign
proof unfold_locales
  fix s t :: "('acc, 'bal) Storage"
  assume sound: "headers_sound X s" and "chain_step X T foreign s t"
  from this(2) show "headers_sound X t"
  proof (cases rule: chain_step_cases)
    case (submitted miner h p)
    then have "header_valid X (Difficulty s) h p" by (intro accepted_has_pow)
    with sound submitted show ?thesis by (auto simp: headers_sound_def header_valid_def)
  next
    case (validated v n sig h w m rw bal)
    with sound show ?thesis by (auto simp: headers_sound_def)
  qed (use sound in \<open>auto simp: headers_sound_def\<close>)
qed

text \<open>Without a stored header there is nothing to extend.\<close>

definition no_chain :: "('acc, 'bal) Storage \<Rightarrow> bool" where
  "no_chain st \<longleftrightarrow> BlockHeaders st = Map.empty \<and> CurrentPhase st = PowMining"

interpretation stuck: invariant_system "chain_step X T foreign" no_chain
  for X :: "('acc::linorder, 'bal) Externals" and T foreign
proof unfold_locales
  fix s t :: "('acc, 'bal) Storage"
  assume "no_chain s" and "chain_step X T foreign s t"
  from this(2,1) show "no_chain t"
    by (cases rule: chain_step_cases) (auto simp: no_chain_def)
qed

definition target_at_most :: "nat \<Rightarrow> ('acc, 'bal) Storage \<Rightarrow> bool" where
  "target_at_most d st \<longleftrightarrow> unat (Difficulty st) \<le> max 1 d"

interpretation target: invariant_system "chain_step X T foreign" "target_at_most d"
  for X :: "('acc::linorder, 'bal) Externals" and T foreign d
proof unfold_locales
  fix s t :: "('acc, 'bal) Storage"
  assume low: "target_at_most d s" and "chain_step X T foreign s t"
  from this(2) show "target_at_most d t"
  proof (cases rule: chain_step_cases)
    case same
    then show ?thesis
    proof (elim disjE exE)
      fix e assume "Difficulty t = calculate_difficulty_adjustment (Difficulty s) 5 5 e"
      then show ?thesis using placeholder_never_raises [of "Difficulty s" e] low
        by (simp add: target_at_most_def)
    qed (use low in \<open>simp add: target_at_most_def\<close>)
  qed (use low in \<open>auto simp: target_at_most_def\<close>)
qed

section \<open>The protocol the pallet follows\<close>

text \<open>
  The specification of the consensus pallet: a phase, the numbers of the known blocks and their
  miners. A block is mined on a known parent in the first phase, one mined block is validated in
  the second, and the third ends the round.
\<close>

record 'acc Protocol =
  pc_phase :: ConsensusPhase
  pc_known :: "u32 set"
  pc_miner :: "u32 \<rightharpoonup> 'acc"

inductive protocol_step :: "'acc Protocol \<Rightarrow> 'acc Protocol \<Rightarrow> bool" where
  mine: "pc_phase p = PowMining \<Longrightarrow> n \<noteq> 0 \<Longrightarrow> n - 1 \<in> pc_known p \<Longrightarrow>
    protocol_step p (p\<lparr>pc_phase := PosValidation, pc_known := insert n (pc_known p),
      pc_miner := (pc_miner p)(n \<mapsto> who)\<rparr>)"
| validate: "pc_phase p = PosValidation \<Longrightarrow> n \<in> pc_known p \<Longrightarrow> pc_miner p n \<noteq> None \<Longrightarrow>
    protocol_step p (p\<lparr>pc_phase := Finalization\<rparr>)"
| finish: "pc_phase p = Finalization \<Longrightarrow> protocol_step p (p\<lparr>pc_phase := PowMining\<rparr>)"

inductive_cases protocol_stepE: "protocol_step p q"

definition protocol_of :: "('acc, 'bal) Storage \<Rightarrow> 'acc Protocol" where
  "protocol_of st = \<lparr>pc_phase = CurrentPhase st, pc_known = dom (BlockHeaders st), pc_miner = BlockProducers st\<rparr>"

definition no_gaps :: "'acc Protocol \<Rightarrow> bool" where
  "no_gaps p \<longleftrightarrow> (\<forall>n \<in> pc_known p. \<forall>m \<le> n. m \<in> pc_known p)"

lemma word_le_pred: "m \<le> n \<Longrightarrow> m \<noteq> n \<Longrightarrow> m \<le> n - 1" for m n :: u32
proof -
  assume "m \<le> n" "m \<noteq> n"
  then have "unat m < unat n" by (simp add: word_to_nat)
  moreover have "unat (n - 1) = unat n - 1" using calculation by (simp add: unat_sub_fits)
  ultimately show ?thesis by (simp add: word_le_nat_alt)
qed

interpretation protocol: refined_invariant protocol_step "chain_step X T foreign" protocol_of no_gaps
  for X :: "('acc::linorder, 'bal) Externals" and T foreign
proof unfold_locales
  fix s t :: "('acc, 'bal) Storage"
  assume "chain_step X T foreign s t"
  then show "protocol_of t = protocol_of s \<or> protocol_step (protocol_of s) (protocol_of t)"
  proof (cases rule: chain_step_cases)
    case same
    then show ?thesis by (simp add: protocol_of_def)
  next
    case (submitted miner h p)
    have "protocol_of t = (protocol_of s)\<lparr>pc_phase := PosValidation,
        pc_known := insert (bh_number h) (pc_known (protocol_of s)),
        pc_miner := (pc_miner (protocol_of s))(bh_number h \<mapsto> miner)\<rparr>"
      by (simp add: protocol_of_def submitted)
    moreover have "protocol_step (protocol_of s) \<dots>"
      using submitted by (intro protocol_step.mine) (auto simp: protocol_of_def)
    ultimately show ?thesis by simp
  next
    case (validated v n sig h w m rw bal)
    have "protocol_of t = (protocol_of s)\<lparr>pc_phase := Finalization\<rparr>"
      using validated(2) by (auto simp: protocol_of_def validated(4))
    moreover have "protocol_step (protocol_of s) \<dots>"
      using validated by (intro protocol_step.validate [of _ n]) (auto simp: protocol_of_def)
    ultimately show ?thesis by simp
  next
    case finalized
    then show ?thesis using protocol_step.finish [of "protocol_of s"] by (simp add: protocol_of_def)
  qed
next
  fix p q :: "'acc Protocol"
  assume "no_gaps p" and "protocol_step p q"
  from this(2,1) show "no_gaps q"
    by (elim protocol_stepE) (auto simp: no_gaps_def dest: word_le_pred)
qed

end
