(* ===== verification/Ghost_Safety.thy ===== *)
theory Ghost_Safety
  imports Ghost_Chain
begin

text \<open>
  What the consensus pallet guarantees in every run, and where it falls short: the phases, the
  stored headers, the window of producers, the target, the election of a validator for a block, and
  the slashing of a reported validator. The proofs rest on the invariants and the call lemmas of
  \<open>Ghost_Chain\<close>.
\<close>

section \<open>The stakers of a storage\<close>

lemma stake_sum_collect:
  assumes "lists_keys (ext_key_order X)" and "finite (dom (ValidatorStakes st))"
  shows "stake_sum (collect_stakers X st) = sum_values (ValidatorStakes st)"
  using sum_storage_iter [OF assms]
  by (simp add: stake_sum_def collect_stakers_def comp_def case_prod_unfold)

lemma weight_sum_collect:
  assumes "lists_keys (ext_key_order X)" and "finite (dom (ValidatorStakes st))"
    and "sum_values (ValidatorStakes st) < 2 ^ 64"
  shows "weight_sum (collect_stakers X st) = sum_values (ValidatorStakes st)"
proof -
  have "unat (saturated_into v :: u64) = unat v" if "ValidatorStakes st a = Some v" for a v
    using value_at_le_sum [OF assms(2), of a] assms(3) that by (simp add: unat_saturated_into)
  then have "map (\<lambda>s. unat (vs_weight s)) (collect_stakers X st) = map (\<lambda>s. unat (vs_stake s)) (collect_stakers X st)"
    using set_storage_iter [OF assms(1,2)] by (auto simp: collect_stakers_def)
  then have "weight_sum (collect_stakers X st) = stake_sum (collect_stakers X st)"
    unfolding weight_sum_def stake_sum_def by (rule arg_cong)
  then show ?thesis by (simp add: stake_sum_collect [OF assms(1,2)])
qed

lemma collect_stakers_stake:
  assumes "lists_keys (ext_key_order X)" and "finite (dom (ValidatorStakes st))"
    and "s \<in> set (collect_stakers X st)"
  shows "ValidatorStakes st (vs_account s) = Some (vs_stake s) \<and> vs_weight s = saturated_into (vs_stake s)"
  using assms(3) set_storage_iter [OF assms(1,2)] by (auto simp: collect_stakers_def)

lemma weight_is_stake:
  assumes "lists_keys (ext_key_order X)" and "finite (dom (ValidatorStakes st))"
    and "sum_values (ValidatorStakes st) < 2 ^ 64" and "s \<in> set (collect_stakers X st)"
  shows "unat (vs_weight s) = unat (vs_stake s)"
  using collect_stakers_stake [OF assms(1,2,4)] value_at_le_sum [OF assms(2), of "vs_account s"] assms(3)
  by (simp add: unat_saturated_into)

text \<open>The lottery \<open>validate_block\<close> holds for a block, on natural numbers.\<close>

definition elected :: "('acc, 'bal) Externals \<Rightarrow> ('acc, 'bal) Storage \<Rightarrow> u32 \<Rightarrow> 'acc ValidatorStake option" where
  "elected X st n = pick (collect_stakers X st)
     (unat (hash_prefix (ext_hash_of_seed X (n, system_block_number st))) mod weight_sum (collect_stakers X st))"

text \<open>The weights before the elected staker leave the drawn number to its own.\<close>

lemma pick_split:
  assumes "pick ss r = Some s"
  shows "\<exists>before after. ss = before @ s # after \<and> weight_sum before \<le> r
    \<and> r < weight_sum before + unat (vs_weight s)"
  using assms
proof (induction ss arbitrary: r)
  case (Cons t ss)
  show ?case
  proof (cases "r < unat (vs_weight t)")
    case True
    then show ?thesis using Cons.prems by (intro exI [of _ "[]"] exI [of _ ss]) simp
  next
    case False
    then have "pick ss (r - unat (vs_weight t)) = Some s" using Cons.prems by simp
    from Cons.IH [OF this] obtain before after where "ss = before @ s # after"
      "weight_sum before \<le> r - unat (vs_weight t)" "r - unat (vs_weight t) < weight_sum before + unat (vs_weight s)"
      by blast
    then have "t # ss = (t # before) @ s # after \<and> weight_sum (t # before) \<le> r
        \<and> r < weight_sum (t # before) + unat (vs_weight s)" using False by (simp, arith)
    then show ?thesis by blast
  qed
qed simp

lemma elected_Some:
  assumes "0 < weight_sum (collect_stakers X st)"
  obtains s where "elected X st n = Some s" "s \<in> set (collect_stakers X st)" "0 < unat (vs_weight s)"
  using pick_Some [of _ "collect_stakers X st"] assms unfolding elected_def
  by (meson mod_less_divisor)

lemma select_elected:
  assumes "weight_sum (collect_stakers X st) < 2 ^ 64" and "0 < weight_sum (collect_stakers X st)"
  shows "select_pos_validator chk (system_block_number st) (collect_stakers X st)
      (ext_hash_of_seed X (n, system_block_number st))
    = Some (map_option (selection_of (system_block_number st)) (elected X st n))"
  using select_pos_validator_pick [OF assms] by (simp add: elected_def)

lemma validate_block_elected:
  assumes law: "lists_keys (ext_key_order X)" and fin: "finite (dom (ValidatorStakes st))"
    and low: "sum_values (ValidatorStakes st) < 2 ^ 64" and pos: "0 < sum_values (ValidatorStakes st)"
    and phase: "CurrentPhase st = PosValidation" and h: "BlockHeaders st n = Some h"
    and m: "BlockProducers st n = Some m"
  shows "(\<exists>st'. dispatch X runtime_config (Signed v) (Validate_block n sig) st = Some (Inr (), st'))
    \<longleftrightarrow> map_option vs_account (elected X st n) = Some v"
proof -
  note weight = weight_sum_collect [OF law fin low]
  obtain s where s: "elected X st n = Some s" "s \<in> set (collect_stakers X st)"
    using elected_Some [of X st n] weight pos by auto
  have staker: "ValidatorStakes st (vs_account s) \<noteq> None"
    using collect_stakers_stake [OF law fin s(2)] by simp
  have "stake_sum (collect_stakers X st) < 2 ^ 85"
    using stake_sum_collect [OF law fin] low by simp
  then obtain r bal where
    "calculate_block_reward (ext_overflow_checks X) (cfg_BlockReward runtime_config) = Some r"
    "distribute_rewards X m (collect_stakers X st) r (balances st) = Some bal"
    using runtime_rewards_total [of "collect_stakers X st" X m "balances st"] by auto
  moreover have "check_pqc X runtime_config v n sig st = Inr ()"
    by (simp add: check_pqc_def runtime_config_def)
  ultimately show ?thesis
    using select_elected [of X st "ext_overflow_checks X" n] weight low pos s staker phase h m
    by (auto simp: dispatch_ok dispatch_call_def validate_block_ok selection_of_def)
qed

section \<open>A block's extrinsics\<close>

text \<open>The extrinsics of one block in order; a panic in any of them spoils the block.\<close>

primrec apply_extrinsics ::
  "('acc, 'bal) Externals \<Rightarrow> Config \<Rightarrow> ('acc RawOrigin \<times> 'acc Call) list \<Rightarrow> ('acc, 'bal) Storage
    \<Rightarrow> ((DispatchError + unit) list \<times> ('acc, 'bal) Storage) option" where
  "apply_extrinsics X T [] st = Some ([], st)"
| "apply_extrinsics X T (x # xs) st =
     do {
       (r, st) \<leftarrow> dispatch X T (fst x) (snd x) st;
       (rs, st) \<leftarrow> apply_extrinsics X T xs st;
       Some (r # rs, st)
     }"

definition accepted :: "('acc Call \<Rightarrow> bool) \<Rightarrow> ('acc RawOrigin \<times> 'acc Call) list
    \<Rightarrow> (DispatchError + unit) list \<Rightarrow> nat" where
  "accepted p xs rs = length (filter (\<lambda>(x, r). p (snd x) \<and> r = Inr ()) (zip xs rs))"

definition is_submission :: "'acc Call \<Rightarrow> bool" where
  "is_submission c = (case c of Submit_block _ \<Rightarrow> True | _ \<Rightarrow> False)"

definition is_validation :: "'acc Call \<Rightarrow> bool" where
  "is_validation c = (case c of Validate_block _ _ \<Rightarrow> True | _ \<Rightarrow> False)"

lemma accepted_simps [simp]:
  "accepted p [] rs = 0"
  "accepted p (x # xs) (r # rs) = (if p (snd x) \<and> r = Inr () then 1 else 0) + accepted p xs rs"
  by (simp_all add: accepted_def)

lemma dispatch_phase:
  assumes "dispatch X T origin c st = Some (r, st')"
  shows "r = Inr () \<and> is_submission c \<and> CurrentPhase st = PowMining \<and> CurrentPhase st' = PosValidation
    \<or> r = Inr () \<and> is_validation c \<and> CurrentPhase st = PosValidation \<and> CurrentPhase st' = Finalization
    \<or> \<not> (r = Inr () \<and> (is_submission c \<or> is_validation c)) \<and> CurrentPhase st' = CurrentPhase st"
proof (cases "r = Inr () \<and> (is_submission c \<or> is_validation c)")
  case True
  with assms show ?thesis
    by (cases c) (auto simp: is_submission_def is_validation_def dispatch_ok dispatch_call_def
        submit_block_ok validate_block_ok)
next
  case False
  from assms show ?thesis
    by (cases rule: dispatch_consensus_cases) (use False in \<open>auto simp: is_submission_def is_validation_def\<close>)
qed

lemma accepted_by_phase:
  assumes "apply_extrinsics X T xs st = Some (rs, st')"
  shows "accepted is_submission xs rs \<le> (if CurrentPhase st = PowMining then 1 else 0)
    \<and> accepted is_validation xs rs \<le> (if CurrentPhase st = Finalization then 0 else 1)"
  using assms
proof (induction xs arbitrary: st rs)
  case (Cons x xs)
  obtain r mid rs' where step: "dispatch X T (fst x) (snd x) st = Some (r, mid)"
    and rest: "apply_extrinsics X T xs mid = Some (rs', st')" and rs: "rs = r # rs'"
    using Cons.prems by (auto simp: bind_eq_Some_conv)
  have "\<not> (is_submission (snd x) \<and> is_validation (snd x))"
    by (cases "snd x") (auto simp: is_submission_def is_validation_def)
  then show ?case
    using dispatch_phase [OF step] Cons.IH [OF rest] by (auto simp: rs split: if_splits)
qed simp

lemma no_chain_rejects:
  assumes "no_chain st"
  shows "\<exists>e. submit_block X origin h st = Some (Inl e, st)"
    and "\<exists>e. validate_block X T origin n sig st = Some (Inl e, st)"
  using assms
  by (auto simp: no_chain_def submit_block_def validate_block_def split: sum.split option.split)

lemma validate_header_ignores_signatures [simp]:
  "validate_block_header X d (h\<lparr>bh_validator_signature := s, bh_pqc_signature := q\<rparr>) p
    = validate_block_header X d h p"
proof -
  have "verify_pow_enhanced X (h\<lparr>bh_validator_signature := s, bh_pqc_signature := q\<rparr>) t
      = verify_pow_enhanced X h t" for t
    by (rule pow_enhanced.same_input) (simp add: pow_input_of_def)
  then show ?thesis by (simp add: validate_block_header_def)
qed

lemma block_end_run: "(chain_step X T foreign)\<^sup>*\<^sup>* st (on_finalize (system_block_number st) st)"
  by (rule r_into_rtranclp) (rule chain_step.block_ends)

lemma submission_ok_iff:
  assumes "headers_sound X st"
  shows "dispatch X T (Signed miner) (Submit_block h) st = Some (Inr (), st') \<longleftrightarrow>
     CurrentPhase st = PowMining \<and> 0 < bh_number h
     \<and> (\<exists>p. BlockHeaders st (bh_number h - 1) = Some p \<and> header_valid X (Difficulty st) h p)
     \<and> st' = mined miner h st"
proof -
  have "validate_block_header X d h p = Some (Inr ()) \<longleftrightarrow> header_valid X d h p"
    if "BlockHeaders st (bh_number h - 1) = Some p" and "0 < bh_number h" for p d
  proof -
    have "bh_number p = bh_number h - 1" using assms that(1) by (auto simp: headers_sound_def)
    then have "bh_number p \<noteq> - 1" using that(2) by (auto simp: word_neq_0_conv)
    then obtain r where r: "validate_block_header X d h p = Some r"
      using validate_block_header_no_panic by blast
    then show ?thesis using validate_block_header_ok_iff [OF r] by simp
  qed
  then show ?thesis by (auto simp: dispatch_ok dispatch_call_def submit_block_ok)
qed

section \<open>Properties\<close>

text \<open>
  A chain for the witnesses: a genesis header, block 1 mined by 7 and signed, block 2 just mined by
  8; validators 2 and 3 with stakes 300 and 100.
\<close>

definition sample_chain :: "(u64, u64 ledger) Storage" where
  "sample_chain = (genesis_storage (\<lambda>_. 1000))\<lparr>
     Difficulty := 100, CurrentPhase := PosValidation,
     BlockHeaders := [0 \<mapsto> sample_parent,
       1 \<mapsto> sample_child\<lparr>bh_validator_signature := Some 2, bh_pqc_signature := Some (PqcSignature [])\<rparr>,
       2 \<mapsto> sample_child\<lparr>bh_number := 2, bh_parent_hash := 2\<rparr>],
     BlockProducers := [1 \<mapsto> 7, 2 \<mapsto> 8], ValidatorStakes := [2 \<mapsto> 300, 3 \<mapsto> 100],
     RecentBlockProducers := [7, 8], system_block_number := 5\<rparr>"

lemma sample_chain_simps [simp]:
  "CurrentPhase sample_chain = PosValidation" "Difficulty sample_chain = 100"
  "BlockHeaders sample_chain = [0 \<mapsto> sample_parent,
       1 \<mapsto> sample_child\<lparr>bh_validator_signature := Some 2, bh_pqc_signature := Some (PqcSignature [])\<rparr>,
       2 \<mapsto> sample_child\<lparr>bh_number := 2, bh_parent_hash := 2\<rparr>]"
  "BlockProducers sample_chain = [1 \<mapsto> 7, 2 \<mapsto> 8]"
  "ValidatorStakes sample_chain = [2 \<mapsto> 300, 3 \<mapsto> 100]"
  "system_block_number sample_chain = 5"
  "RecentBlockProducers sample_chain = [7, 8]"
  by (simp_all add: sample_chain_def)

lemma sample_chain_stakes: "sum_values (ValidatorStakes sample_chain) = 400"
proof -
  have "sum_values [2 :: u64 \<mapsto> 300, 3 \<mapsto> (100 :: u128)] + value_at [2 \<mapsto> 300 :: u128] (3 :: u64)
      = sum_values [2 :: u64 \<mapsto> 300 :: u128] + unat (100 :: u128)"
    by (rule sum_values_update) simp
  moreover have "sum_values [2 :: u64 \<mapsto> (300 :: u128)] + value_at (Map.empty :: u64 \<rightharpoonup> u128) (2 :: u64)
      = sum_values (Map.empty :: u64 \<rightharpoonup> u128) + unat (300 :: u128)"
    by (rule sum_values_update) simp
  ultimately show ?thesis by simp
qed

lemma sample_chain_sound: "headers_sound (sample_externals 1) sample_chain"
proof -
  have "verify_pow_enhanced (sample_externals 1) (sample_child\<lparr>bh_validator_signature := s, bh_pqc_signature := q\<rparr>) 150"
    for s q
    by (simp add: sample_headers)
  then show ?thesis by (auto simp: headers_sound_def sample_headers split: if_splits)
qed

text \<open>
  C1: From the genesis state the pallet starts in, no run ever gets a block accepted: in every
  reachable state each \<open>submit_block\<close> and each \<open>validate_block\<close>, by anyone and with any header, is
  rejected and leaves the state as it was. The cause is that a submission needs the parent's header
  in \<open>BlockHeaders\<close>, and nothing but an accepted submission ever puts one there.
\<close>

theorem genesis_deadlock:
  assumes "(chain_step X T foreign)\<^sup>*\<^sup>* (genesis_storage bal) st"
  shows "(\<exists>e. dispatch X T origin (Submit_block h) st = Some (Inl e, st))
    \<and> (\<exists>e. dispatch X T origin (Validate_block n sig) st = Some (Inl e, st))"
proof -
  have "no_chain (genesis_storage bal :: ('a, 'b) Storage)"
    by (simp add: no_chain_def genesis_storage_def ConsensusPhase_default_def)
  with assms have "no_chain st" by (rule stuck.run_keeps)
  from no_chain_rejects [OF this] show ?thesis by (simp add: dispatch_error dispatch_call_def) blast
qed

theorem genesis_deadlock_witness:
  "\<exists>st. (chain_step (sample_externals 1) runtime_config (=))\<^sup>*\<^sup>* (genesis_storage (\<lambda>_. 10)) st
    \<and> ValidatorPqcPublicKeys st 4 \<noteq> None
    \<and> (\<exists>e. dispatch (sample_externals 1) runtime_config (Signed 4) (Submit_block sample_child) st = Some (Inl e, st))"
proof -
  let ?g = "genesis_storage (\<lambda>_. 10) :: (u64, u64 ledger) Storage"
  let ?st = "?g\<lparr>ValidatorPqcPublicKeys := [4 \<mapsto> replicate 2592 1]\<rparr>"
  have "chain_step (sample_externals 1) runtime_config (=) ?g ?st"
    by (rule extrinsic [where origin = "Signed 4" and c = "Register_pqc_key (replicate 2592 1)"])
      (simp_all add: account_id_def dispatch_def dispatch_call_def register_pqc_key_def genesis_storage_def
        call_typed_def)
  then have run: "(chain_step (sample_externals 1) runtime_config (=))\<^sup>*\<^sup>* ?g ?st" by (rule r_into_rtranclp)
  from genesis_deadlock [OF this, of "Signed 4" sample_child] run show ?thesis
    by (intro exI [of _ ?st]) simp
qed

text \<open>
  In a state with sound headers a submission is accepted exactly when the phase is \<open>PowMining\<close>,
  its parent is stored and the header is valid for it at the current target; then the header, its
  miner, the activity and the window are recorded and the phase becomes \<open>PosValidation\<close>.
\<close>

lemma submission_accepted_iff:
  assumes "headers_sound X st"
  shows "dispatch X T (Signed miner) (Submit_block h) st = Some (Inr (), st') \<longleftrightarrow>
     CurrentPhase st = PowMining \<and> 0 < bh_number h
     \<and> (\<exists>p. BlockHeaders st (bh_number h - 1) = Some p \<and> header_valid X (Difficulty st) h p)
     \<and> st' = mined miner h st"
  by (rule submission_ok_iff [OF assms])

definition sample_next :: GhostBlockHeader where
  "sample_next = sample_child\<lparr>bh_number := 3, bh_parent_hash := 3\<rparr>"

lemma sample_next_valid:
  "header_valid (sample_externals 1) 100 sample_next (sample_child\<lparr>bh_number := 2, bh_parent_hash := 2\<rparr>)"
  by (simp add: sample_next_def sample_headers header_valid_def)



text \<open>
  C12: The stored chain never has a gap: from a state in which the stored block numbers are
  downward closed (a lone genesis header, say), whenever a header is stored in a later state, so is
  one for every smaller number.
\<close>

theorem stored_chain_has_no_gaps:
  assumes "no_gaps (protocol_of st)" and "(chain_step X T foreign)\<^sup>*\<^sup>* st st'"
    and "BlockHeaders st' n \<noteq> None" and "m \<le> n"
  shows "BlockHeaders st' m \<noteq> None"
  using protocol.observed_invariant [OF assms(2,1)] assms(3,4)
  by (auto simp: no_gaps_def protocol_of_def)

theorem stored_chain_has_no_gaps_witness:
  "BlockHeaders (on_finalize 5 sample_chain) 1 \<noteq> None"
proof -
  have down: "m \<in> {0, 1, 2}" if "m \<le> n" "n \<in> {0, 1, 2}" for m n :: u32
  proof -
    have "unat m \<le> 2" using that by (auto simp: word_le_nat_alt)
    then have "unat m = 0 \<or> unat m = 1 \<or> unat m = 2" by linarith
    then show ?thesis by (auto simp: word_unat_eq_iff)
  qed
  have "no_gaps (protocol_of sample_chain)"
    unfolding no_gaps_def
  proof (intro ballI allI impI)
    fix n m assume "n \<in> pc_known (protocol_of sample_chain)" "m \<le> n"
    then show "m \<in> pc_known (protocol_of sample_chain)"
      using down [of m n] by (auto simp: protocol_of_def)
  qed
  from stored_chain_has_no_gaps [OF this block_end_run, of 2 1] show ?thesis by simp
qed

text \<open>
  C33: The storage stays well typed in every run of decoded calls: the window holds at most 100
  producers, every stored key has 2592 bytes and every stored signature 4627, and all maps are
  finite, which the other properties ask for.
\<close>

theorem storage_stays_typed:
  assumes "storage_typed st" and "(chain_step X T foreign)\<^sup>*\<^sup>* st st'"
  shows "storage_typed st'"
  by (rule typing.run_keeps [OF assms(2,1)])

theorem storage_stays_typed_witness:
  "storage_typed (on_finalize 0 (genesis_storage (\<lambda>_. 10) :: (u64, u64 ledger) Storage))"
proof -
  have "storage_typed (genesis_storage (\<lambda>_. 10) :: (u64, u64 ledger) Storage)"
    by (simp add: storage_typed_def genesis_storage_def)
  from storage_stays_typed [OF this block_end_run] show ?thesis by (simp add: genesis_storage_def)
qed

text \<open>
  Whatever extrinsics a block holds, at most one submission and at most one validation among
  them is accepted.
\<close>

lemma one_block_per_block:
  assumes "apply_extrinsics X T xs st = Some (rs, st')"
  shows "accepted is_submission xs rs \<le> 1 \<and> accepted is_validation xs rs \<le> 1"
  using accepted_by_phase [OF assms] by (auto split: if_splits)

text \<open>
  C7: Once the stored headers are sound they stay so in every run: each is stored under its own
  number, and each one that was mined carries a proof of work for the difficulty it claims, also
  after a validator has signed it.
\<close>

theorem mined_blocks_keep_pow:
  assumes "headers_sound X st" and "(chain_step X T foreign)\<^sup>*\<^sup>* st st'"
    and "BlockHeaders st' n = Some h" and "BlockProducers st' n = Some m"
  shows "bh_number h = n \<and> 0 < n \<and> verify_pow_enhanced X h (bh_difficulty h)"
  using headers.run_keeps [OF assms(2,1)] assms(3,4) by (auto simp: headers_sound_def)

theorem mined_blocks_keep_pow_witness:
  "verify_pow_enhanced (sample_externals 1) (sample_child\<lparr>bh_number := 2, bh_parent_hash := 2\<rparr>)
     (bh_difficulty (sample_child\<lparr>bh_number := 2, bh_parent_hash := 2\<rparr>))"
  by (rule mined_blocks_keep_pow [THEN conjunct2, THEN conjunct2, OF sample_chain_sound
        block_end_run [of "sample_externals 1" runtime_config "(=)"], of 2 _ 8]) simp_all

text \<open>
  The window of recent producers is, after any number of accepted submissions, the newest 100
  of their miners in order.
\<close>

lemma producers_window:
  "fold push_recent miners [] = drop (length miners - 100) miners"
proof (induction miners rule: rev_induct)
  case (snoc m ms)
  have "push_recent m (drop (length ms - 100) ms)
      = drop (length (drop (length ms - 100) ms) + 1 - 100) (drop (length ms - 100) ms @ [m])"
    by (rule push_recent_eq) simp
  also have "\<dots> = drop (length (ms @ [m]) - 100) (ms @ [m])"
  proof (cases "length ms < 100")
    case False
    then have "Suc (length ms - 100) = length ms - 99" by arith
    with False show ?thesis by simp
  qed simp
  finally show ?case using snoc.IH by simp
qed simp

text \<open>
  C29: In no run does the PoW target rise above the greater of 1 and what it was at the start, so that
  at most a target of 0 becomes 1: \<open>adjust_difficulty\<close> passes equal constants for the actual and the
  wanted block time, so the retargeting never eases mining, and the entropy factor only lowers the
  target further.
\<close>

theorem target_never_rises:
  assumes "(chain_step X T foreign)\<^sup>*\<^sup>* st st'"
  shows "unat (Difficulty st') \<le> max 1 (unat (Difficulty st))"
  using target.run_keeps [OF assms, of "unat (Difficulty st)"] by (simp add: target_at_most_def)

theorem target_never_rises_witness:
  "unat (Difficulty (on_finalize 5 sample_chain)) \<le> max 1 100"
  using target_never_rises [OF block_end_run, of sample_chain] by simp

text \<open>
  The signature fields of a submitted header are not examined: whatever a miner writes into
  them, the submission is accepted or not as without them, and they are stored as they came, a
  validator's signature on a block that no validator has seen.
\<close>

lemma submitted_signatures_unchecked:
  "(\<exists>st'. dispatch X T (Signed miner) (Submit_block h) st = Some (Inr (), st'))
    \<longleftrightarrow> (\<exists>st'. dispatch X T (Signed miner)
          (Submit_block (h\<lparr>bh_validator_signature := s, bh_pqc_signature := q\<rparr>)) st = Some (Inr (), st')
        \<and> BlockHeaders st' (bh_number h) = Some (h\<lparr>bh_validator_signature := s, bh_pqc_signature := q\<rparr>))"
  by (auto simp: dispatch_ok dispatch_call_def submit_block_ok)

text \<open>
  C6: In the validation phase of the live runtime, with finitely many stakes of a positive total
  below 2^64, the pallet makes progress in only one way: for every stored block with a producer on
  record exactly one account can validate it. It is the staker that the stake lottery elects: the leading
  64 bits of the seed of this block and the runtime's block, modulo the total stake, fall into this
  staker's interval when the stakes are laid end to end in the order of iteration.
\<close>

theorem exactly_one_validator:
  assumes "lists_keys (ext_key_order X)" and "finite (dom (ValidatorStakes st))"
    and "sum_values (ValidatorStakes st) < 2 ^ 64" and "0 < sum_values (ValidatorStakes st)"
    and "CurrentPhase st = PosValidation" and "BlockHeaders st n = Some h" and "BlockProducers st n = Some m"
    and "r = unat (hash_prefix (ext_hash_of_seed X (n, system_block_number st))) mod sum_values (ValidatorStakes st)"
  shows "\<exists>before s after. collect_stakers X st = before @ s # after
    \<and> stake_sum before \<le> r \<and> r < stake_sum before + unat (vs_stake s)
    \<and> ValidatorStakes st (vs_account s) = Some (vs_stake s)
    \<and> (\<forall>v. (\<exists>st'. dispatch X runtime_config (Signed v) (Validate_block n sig) st = Some (Inr (), st'))
        \<longleftrightarrow> v = vs_account s)"
proof -
  note weight = weight_sum_collect [OF assms(1-3)]
  obtain s where s: "elected X st n = Some s" "s \<in> set (collect_stakers X st)"
    using elected_Some [of X st n] weight assms(4) by auto
  then have "pick (collect_stakers X st) r = Some s" by (simp add: elected_def weight assms(8))
  from pick_split [OF this] obtain before after where split: "collect_stakers X st = before @ s # after"
    "weight_sum before \<le> r" "r < weight_sum before + unat (vs_weight s)" by blast
  have weights: "unat (vs_weight t) = unat (vs_stake t)" if "t \<in> set (collect_stakers X st)" for t
    by (rule weight_is_stake [OF assms(1-3) that])
  then have "weight_sum before = stake_sum before"
    using split(1) by (simp add: weight_sum_def stake_sum_def cong: map_cong)
  then have "stake_sum before \<le> r \<and> r < stake_sum before + unat (vs_stake s)"
    using split(2,3) weights [OF s(2)] by simp
  moreover have "(\<exists>st'. dispatch X runtime_config (Signed v) (Validate_block n sig) st = Some (Inr (), st'))
      \<longleftrightarrow> v = vs_account s" for v
    using validate_block_elected [OF assms(1-7), of v sig] s(1) by auto
  ultimately show ?thesis using split(1) collect_stakers_stake [OF assms(1,2) s(2)] by blast
qed

lemma sample_chain_voting:
  "lists_keys (ext_key_order (sample_externals 1))" "finite (dom (ValidatorStakes sample_chain))"
  "sum_values (ValidatorStakes sample_chain) < 2 ^ 64" "0 < sum_values (ValidatorStakes sample_chain)"
  by (simp_all add: lists_keys_sorted sample_chain_stakes del: sample_chain_simps)

lemma sample_chain_stakers:
  "collect_stakers (sample_externals 1) sample_chain =
    [\<lparr>vs_account = 2, vs_stake = 300, vs_weight = 300\<rparr>, \<lparr>vs_account = 3, vs_stake = 100, vs_weight = 100\<rparr>]"
  by (simp add: collect_stakers_def storage_iter_def saturated_into_def)

lemma sample_chain_elected:
  "elected (sample_externals 1) sample_chain 1 = Some \<lparr>vs_account = 2, vs_stake = 300, vs_weight = 300\<rparr>"
proof -
  have "hash_prefix (ext_hash_of_seed (sample_externals 1) (1, 5)) = 1"
    by (simp add: hash_prefix_eq)
  with sample_chain_stakers show ?thesis by (simp add: elected_def del: sample_externals_simps)
qed

text \<open>The number drawn for block 2 is 2, in the interval from 0 to 300 of account 2.\<close>

theorem exactly_one_validator_witness:
  "{v. \<exists>st'. dispatch (sample_externals 1) runtime_config (Signed v) (Validate_block 2 (PqcSignature [])) sample_chain
    = Some (Inr (), st')} = {2}"
proof -
  let ?X = "sample_externals 1"
  have seed: "hash_prefix (ext_hash_of_seed ?X (2, 5)) = 2" by (simp add: hash_prefix_eq)
  have "\<exists>before s after. collect_stakers ?X sample_chain = before @ s # after
    \<and> stake_sum before \<le> 2 \<and> 2 < stake_sum before + unat (vs_stake s)
    \<and> ValidatorStakes sample_chain (vs_account s) = Some (vs_stake s)
    \<and> (\<forall>v. (\<exists>st'. dispatch ?X runtime_config (Signed v) (Validate_block 2 (PqcSignature [])) sample_chain
        = Some (Inr (), st')) \<longleftrightarrow> v = vs_account s)"
    by (rule exactly_one_validator [OF sample_chain_voting])
      (use seed sample_chain_stakes in \<open>simp_all del: sample_externals_simps sample_chain_simps(5)\<close>)
  then obtain before s after where split: "[\<lparr>vs_account = 2, vs_stake = 300, vs_weight = 300\<rparr>,
      \<lparr>vs_account = 3, vs_stake = 100, vs_weight = 100\<rparr>] = before @ s # after" "stake_sum before \<le> 2"
    and only: "\<And>v. (\<exists>st'. dispatch ?X runtime_config (Signed v) (Validate_block 2 (PqcSignature [])) sample_chain
        = Some (Inr (), st')) \<longleftrightarrow> v = vs_account s"
    unfolding sample_chain_stakers by blast
  from split have "vs_account s = 2" by (cases before) (auto simp: stake_sum_def)
  with only show ?thesis by simp
qed

text \<open>The reward of a block of the live runtime.\<close>

lemma runtime_reward:
  "calculate_block_reward chk (cfg_BlockReward runtime_config)
    = Some \<lparr>br_total = 10000000000000, br_miner_reward = 4000000000000, br_stakers_reward = 6000000000000\<rparr>"
  by (subst calculate_block_reward_eq) (simp_all add: runtime_config_def)

text \<open>
  C28: \<open>validate_block\<close> does not ask whether the block is the one just mined or is signed already: in
  the validation phase of the live runtime, with finitely many stakes of a positive total below
  2^64, the validator elected for the number of any stored block with a producer on record succeeds.
  The block is signed (again), its producer and the stakers are paid the reward of 10 tokens
  (again), 4 for the producer and 6 for the stakers, and the validation phase ends, with every other
  header as it was.
\<close>

theorem any_stored_block_can_be_validated:
  assumes "lists_keys (ext_key_order X)" and "finite (dom (ValidatorStakes st))"
    and "sum_values (ValidatorStakes st) < 2 ^ 64" and "0 < sum_values (ValidatorStakes st)"
    and "CurrentPhase st = PosValidation" and "BlockHeaders st n = Some h" and "BlockProducers st n = Some m"
    and "elected X st n = Some s"
  shows "\<exists>st'. dispatch X runtime_config (Signed (vs_account s)) (Validate_block n sig) st = Some (Inr (), st')
    \<and> CurrentPhase st' = Finalization
    \<and> BlockHeaders st' = (BlockHeaders st)(n \<mapsto> sign_header X (vs_account s) n sig h)
    \<and> distribute_rewards X m (collect_stakers X st)
        \<lparr>br_total = 10000000000000, br_miner_reward = 4000000000000, br_stakers_reward = 6000000000000\<rparr>
        (balances st) = Some (balances st')"
proof -
  obtain st' where "dispatch X runtime_config (Signed (vs_account s)) (Validate_block n sig) st = Some (Inr (), st')"
    using validate_block_elected [OF assms(1-7), of "vs_account s" sig] assms(8) by auto
  moreover from this have "CurrentPhase st' = Finalization
    \<and> BlockHeaders st' = (BlockHeaders st)(n \<mapsto> sign_header X (vs_account s) n sig h)
    \<and> distribute_rewards X m (collect_stakers X st)
        \<lparr>br_total = 10000000000000, br_miner_reward = 4000000000000, br_stakers_reward = 6000000000000\<rparr>
        (balances st) = Some (balances st')"
    using assms(6,7) runtime_reward
    by (auto simp: dispatch_ok dispatch_call_def validate_block_ok)
  ultimately show ?thesis by blast
qed

text \<open>Block 2 was just mined, yet block 1 is validated a second time and block 2 stays unsigned.\<close>

theorem any_stored_block_can_be_validated_witness:
  "\<exists>st'. dispatch (sample_externals 1) runtime_config (Signed 2) (Validate_block 1 (PqcSignature [7])) sample_chain
      = Some (Inr (), st')
    \<and> CurrentPhase st' = Finalization \<and> map_option bh_validator_signature (BlockHeaders st' 2) = Some None
    \<and> balances st' 7 = balances sample_chain 7 + 4000000000000"
proof -
  let ?X = "sample_externals 1"
    and ?h = "sample_child\<lparr>bh_validator_signature := Some 2, bh_pqc_signature := Some (PqcSignature [])\<rparr>"
    and ?r = "\<lparr>br_total = 10000000000000, br_miner_reward = 4000000000000, br_stakers_reward = 6000000000000\<rparr>"
  have "\<exists>st'. dispatch ?X runtime_config (Signed 2) (Validate_block 1 (PqcSignature [7])) sample_chain
      = Some (Inr (), st') \<and> CurrentPhase st' = Finalization
    \<and> BlockHeaders st' = (BlockHeaders sample_chain)(1 \<mapsto> sign_header ?X 2 1 (PqcSignature [7]) ?h)
    \<and> distribute_rewards ?X 7 (collect_stakers ?X sample_chain) ?r (balances sample_chain) = Some (balances st')"
    using any_stored_block_can_be_validated [OF sample_chain_voting _ _ _ sample_chain_elected,
        of ?h 7 "PqcSignature [7]"] by simp
  then obtain st' where st': "dispatch ?X runtime_config (Signed 2) (Validate_block 1 (PqcSignature [7])) sample_chain
      = Some (Inr (), st')" "CurrentPhase st' = Finalization"
    "BlockHeaders st' = (BlockHeaders sample_chain)(1 \<mapsto> sign_header ?X 2 1 (PqcSignature [7]) ?h)"
    "distribute_rewards ?X 7 (collect_stakers ?X sample_chain) ?r (balances sample_chain) = Some (balances st')" by blast
  have "balances st' 7 = balances sample_chain 7 + 4000000000000"
    using st'(4) sample_chain_stakers
    by (simp add: distribute_rewards_def pay_staker_def add_stake_def ledger_defs sample_chain_def genesis_storage_def
        add_w_def mul_w_def div_w_def) (drule sym, simp)
  with st' show ?thesis by (force simp: sample_headers)
qed

text \<open>
  C27: Any signed account can have any account slashed for any reason, with no evidence: the report
  is accepted, the target's stake shrinks by the reason's percentage (a missing stake becomes an
  entry of 0), no slashing record is written and no balance moves, so the tokens stay in escrow
  with no one entitled to them.
\<close>

theorem report_slashes_without_evidence:
  assumes "unat (or_default 0 (ValidatorStakes st v)) * unat (slash_percentage T reason) < 2 ^ 128"
  shows "\<exists>st'. dispatch X T (Signed who) (Report_misbehavior v reason) st = Some (Inr (), st')
    \<and> ValidatorStakes st' = (ValidatorStakes st)
        (v \<mapsto> cut_stake (slash_percentage T reason) (or_default 0 (ValidatorStakes st v)))
    \<and> SlashingRecords st' = SlashingRecords st \<and> balances st' = balances st"
  using slash_amount_of_fits(1) [OF assms, of "ext_overflow_checks X"]
  by (auto simp: dispatch_ok dispatch_call_def report_misbehavior_ok cut_stake_def)

theorem report_slashes_without_evidence_witness:
  "\<exists>st'. dispatch (sample_externals 1) runtime_config (Signed 55) (Report_misbehavior 2 DoubleSigning) sample_chain
      = Some (Inr (), st') \<and> ValidatorStakes st' 2 = Some 0"
proof -
  have "unat (or_default 0 (ValidatorStakes sample_chain 2)) * unat (slash_percentage runtime_config DoubleSigning) < 2 ^ 128"
    by (simp add: slash_percentage_def runtime_config_def)
  from report_slashes_without_evidence [OF this, of "sample_externals 1" 55] show ?thesis
    by (auto simp: slash_percentage_def runtime_config_def cut_stake_def saturating_sub_def)
qed

text \<open>The errors a call can fail with; a transfer's errors are those of \<open>pallet_balances\<close>.\<close>

definition transfer_error :: "('acc, 'bal) Externals \<Rightarrow> DispatchError \<Rightarrow> bool" where
  "transfer_error X e \<longleftrightarrow> (\<exists>a b amt req bal. ext_transfer X a b amt req bal = Inl e)"

definition may_fail_with :: "('acc, 'bal) Externals \<Rightarrow> 'acc Call \<Rightarrow> DispatchError \<Rightarrow> bool" where
  "may_fail_with X c e \<longleftrightarrow> e = BadOrigin \<or> (case c of
       Submit_block _ \<Rightarrow> e \<in> Module ` {InvalidPhaseTransition, InvalidBlockNumber, BlockNotFound,
         InvalidParentHash, InvalidPow, DifficultyTooLow, DifficultyTooHigh}
     | Stake _ \<Rightarrow> e = Module InsufficientStake \<or> transfer_error X e
     | Unstake _ \<Rightarrow> e \<in> Module ` {NotAValidator, InsufficientStake} \<or> transfer_error X e
     | Validate_block _ _ \<Rightarrow> e \<in> Module ` {NotAValidator, BlockNotFound, InvalidPhaseTransition,
         PqcPublicKeyNotFound, InvalidPqcSignature}
     | Report_misbehavior _ _ \<Rightarrow> False
     | Register_pqc_key _ \<Rightarrow> False)"

lemma validate_block_header_errors:
  "validate_block_header X d h p = Some (Inl e) \<Longrightarrow>
     e \<in> Module ` {InvalidBlockNumber, InvalidParentHash, InvalidPow, DifficultyTooLow, DifficultyTooHigh}"
  by (auto simp: validate_block_header_def bind_eq_Some_conv split: if_splits)

lemma case_eq_Some_conv:
  "(case r of Inl e \<Rightarrow> f e | Inr x \<Rightarrow> g x) = Some v
    \<longleftrightarrow> (\<exists>e. r = Inl e \<and> f e = Some v) \<or> (\<exists>x. r = Inr x \<and> g x = Some v)"
  "(case m of None \<Rightarrow> p | Some y \<Rightarrow> q y) = Some v
    \<longleftrightarrow> m = None \<and> p = Some v \<or> (\<exists>y. m = Some y \<and> q y = Some v)"
  by (auto split: sum.split option.split)

lemma submit_block_errors:
  "submit_block X origin h st = Some (Inl e, mid) \<Longrightarrow> may_fail_with X (Submit_block h) e"
  by (auto simp: submit_block_def may_fail_with_def bind_eq_Some_conv case_eq_Some_conv Let_def
      dest!: ensure_signed_Inl validate_block_header_errors split: if_splits)

lemma stake_errors: "stake X T origin amount st = Some (Inl e, mid) \<Longrightarrow> may_fail_with X (Stake amount) e"
  by (auto simp: stake_def may_fail_with_def bind_eq_Some_conv case_eq_Some_conv Let_def transfer_error_def
      dest!: ensure_signed_Inl split: if_splits)

lemma unstake_errors: "unstake X T origin amount st = Some (Inl e, mid) \<Longrightarrow> may_fail_with X (Unstake amount) e"
  by (auto simp: unstake_def may_fail_with_def bind_eq_Some_conv case_eq_Some_conv Let_def transfer_error_def
      dest!: ensure_signed_Inl split: if_splits)

lemma check_pqc_errors: "check_pqc X T v n sig st = Inl e \<Longrightarrow>
    e \<in> Module ` {PqcPublicKeyNotFound, InvalidPqcSignature}"
  by (auto simp: check_pqc_def Let_def split: if_splits option.splits)

lemma get_miner_error: "get_miner_for_block n st = Inl e \<Longrightarrow> e = Module BlockNotFound"
  by (simp add: get_miner_for_block_def split: option.splits)

lemma validate_block_errors:
  assumes "validate_block X T origin n sig st = Some (Inl e, mid)"
  shows "may_fail_with X (Validate_block n sig) e"
proof (cases "e = BadOrigin \<or> e \<in> Module ` {NotAValidator, BlockNotFound, InvalidPhaseTransition}")
  case False
  then show ?thesis using assms
    by (auto simp: validate_block_def may_fail_with_def bind_eq_Some_conv case_eq_Some_conv Let_def
        dest: ensure_signed_Inl dest!: check_pqc_errors get_miner_error split: if_splits)
qed (auto simp: may_fail_with_def)

text \<open>
  C32: A call that fails leaves the storage exactly as it was, and with one of the errors its guards
  name: in particular reporting and registering a key fail for unsigned origins only.
\<close>

theorem failed_call_errors:
  assumes "dispatch X T origin c st = Some (Inl e, st')"
  shows "st' = st \<and> may_fail_with X c e"
proof -
  obtain mid where mid: "dispatch_call X T origin c st = Some (Inl e, mid)" and "st' = st"
    using assms by (auto simp: dispatch_error)
  moreover have "may_fail_with X c e"
  proof (cases c)
    case (Report_misbehavior v r)
    with mid show ?thesis
      by (auto simp: dispatch_call_def report_misbehavior_def may_fail_with_def bind_eq_Some_conv Let_def
          dest: ensure_signed_Inl split: sum.splits)
  next
    case (Register_pqc_key k)
    with mid show ?thesis
      by (auto simp: dispatch_call_def register_pqc_key_def may_fail_with_def
          dest: ensure_signed_Inl split: sum.splits)
  qed (use mid in \<open>auto simp: dispatch_call_def
        intro: submit_block_errors stake_errors unstake_errors validate_block_errors\<close>)
  ultimately show ?thesis by simp
qed

theorem failed_call_errors_witness:
  "may_fail_with (sample_externals 1) (Unstake 301 :: u64 Call) (Module InsufficientStake)"
proof -
  have "dispatch (sample_externals 1) runtime_config (Signed 2) (Unstake 301) sample_chain
      = Some (Inl (Module InsufficientStake), sample_chain)"
    by (simp add: dispatch_error dispatch_call_def unstake_def)
  from failed_call_errors [OF this] show ?thesis by simp
qed

text \<open>A round up to its last step, with the validator the lottery elects for the mined block.\<close>

lemma round_runs:
  assumes "lists_keys (ext_key_order X)" and "finite (dom (ValidatorStakes st))"
    and "sum_values (ValidatorStakes st) < 2 ^ 64" and "0 < sum_values (ValidatorStakes st)"
    and "headers_sound X st" and "CurrentPhase st = PowMining" and "0 < bh_number h"
    and "BlockHeaders st (bh_number h - 1) = Some p" and "header_valid X (Difficulty st) h p"
  obtains v st2 where
    "dispatch X runtime_config (Signed miner) (Submit_block h) st = Some (Inr (), mined miner h st)"
    "ValidatorStakes st v \<noteq> None"
    "dispatch X runtime_config (Signed v) (Validate_block (bh_number h) sig) (mined miner h st)
      = Some (Inr (), st2)"
    "CurrentPhase st2 = Finalization"
    "BlockHeaders st2 = (BlockHeaders st)(bh_number h \<mapsto> sign_header X v (bh_number h) sig h)"
    "BlockProducers st2 = (BlockProducers st)(bh_number h \<mapsto> miner)"
    "ValidatorStakes st2 = ValidatorStakes st" "system_block_number st2 = system_block_number st"
proof -
  let ?st1 = "mined miner h st"
  have submit: "dispatch X runtime_config (Signed miner) (Submit_block h) st = Some (Inr (), ?st1)"
    using submission_ok_iff [OF assms(5)] assms(6-9) by blast
  have stakes: "ValidatorStakes ?st1 = ValidatorStakes st" by simp
  obtain s where s: "elected X ?st1 (bh_number h) = Some s" "s \<in> set (collect_stakers X ?st1)"
    using elected_Some [of X ?st1 "bh_number h"] weight_sum_collect [of X ?st1] assms(1-4) by auto
  have staker: "ValidatorStakes st (vs_account s) \<noteq> None"
    using collect_stakers_stake [of X ?st1, OF assms(1) _ s(2)] assms(2) by simp
  obtain st2 where validate: "dispatch X runtime_config (Signed (vs_account s))
      (Validate_block (bh_number h) sig) ?st1 = Some (Inr (), st2)"
    using validate_block_elected [of X ?st1 "bh_number h" h miner "vs_account s" sig] assms(1-4) s by auto
  have "CurrentPhase st2 = Finalization"
    "BlockHeaders st2 = (BlockHeaders st)(bh_number h \<mapsto> sign_header X (vs_account s) (bh_number h) sig h)"
    "BlockProducers st2 = (BlockProducers st)(bh_number h \<mapsto> miner)"
    "ValidatorStakes st2 = ValidatorStakes st" "system_block_number st2 = system_block_number st"
    using validate by (auto simp: dispatch_ok dispatch_call_def validate_block_ok)
  with that [OF submit staker validate] show thesis by blast
qed

text \<open>
  A round of the live runtime completes: from PowMining with sound headers, a positive total
  stake below 2^64 and a valid header on a stored parent, the miner's submission succeeds, then
  there is a staker whose validation of it succeeds, and the end of the block leads back to
  PowMining with the signed block and its miner stored.
\<close>

lemma round_completes:
  assumes "lists_keys (ext_key_order X)" and "finite (dom (ValidatorStakes st))"
    and "sum_values (ValidatorStakes st) < 2 ^ 64" and "0 < sum_values (ValidatorStakes st)"
    and "headers_sound X st" and "CurrentPhase st = PowMining" and "0 < bh_number h"
    and "BlockHeaders st (bh_number h - 1) = Some p" and "header_valid X (Difficulty st) h p"
  shows "\<exists>v st1 st2. dispatch X runtime_config (Signed miner) (Submit_block h) st = Some (Inr (), st1)
    \<and> dispatch X runtime_config (Signed v) (Validate_block (bh_number h) sig) st1 = Some (Inr (), st2)
    \<and> CurrentPhase (on_finalize k st2) = PowMining
    \<and> BlockProducers (on_finalize k st2) (bh_number h) = Some miner
    \<and> BlockHeaders (on_finalize k st2) (bh_number h) = Some (sign_header X v (bh_number h) sig h)"
proof -
  obtain v st2 where "dispatch X runtime_config (Signed miner) (Submit_block h) st = Some (Inr (), mined miner h st)"
    and "dispatch X runtime_config (Signed v) (Validate_block (bh_number h) sig) (mined miner h st)
      = Some (Inr (), st2)" and "CurrentPhase st2 = Finalization"
    and "BlockHeaders st2 = (BlockHeaders st)(bh_number h \<mapsto> sign_header X v (bh_number h) sig h)"
    and "BlockProducers st2 = (BlockProducers st)(bh_number h \<mapsto> miner)"
    by (rule round_runs [OF assms])
  then show ?thesis
    by (intro exI [of _ v] exI [of _ "mined miner h st"] exI [of _ st2]) simp
qed

end
