(* ===== verification/Ghost_Solvency.thy ===== *)
theory Ghost_Solvency
  imports Ghost_Safety
begin

text \<open>
  The escrow account and the stakes. The pallet promises that what it holds in escrow covers what
  the stakers may withdraw; the invariant that makes this true asks for one existential deposit on
  top of the stakes, and it is kept by every step of the chain under the documented laws of
  \<open>pallet_balances\<close>. Without that endowment an unstake can strand the remaining stakes, which the
  last property shows.
\<close>

section \<open>The invariant\<close>

definition escrow_free :: "('acc \<Rightarrow> 'bal \<Rightarrow> nat) \<Rightarrow> ('acc, 'bal) Externals \<Rightarrow> Config \<Rightarrow> 'bal \<Rightarrow> nat" where
  "escrow_free free X T bal = free (account_id X T) bal"

definition solvent ::
  "('acc \<Rightarrow> 'bal \<Rightarrow> nat) \<Rightarrow> nat \<Rightarrow> ('acc, 'bal) Externals \<Rightarrow> Config \<Rightarrow> ('acc, 'bal) Storage \<Rightarrow> bool" where
  "solvent free ed X T st \<longleftrightarrow> finite (dom (ValidatorStakes st))
     \<and> sum_values (ValidatorStakes st) + ed \<le> escrow_free free X T (balances st)"

text \<open>What the other pallets do never takes from an account that has no key.\<close>

definition spares_escrow ::
  "('acc \<Rightarrow> 'bal \<Rightarrow> nat) \<Rightarrow> ('acc, 'bal) Externals \<Rightarrow> Config \<Rightarrow> ('bal \<Rightarrow> 'bal \<Rightarrow> bool) \<Rightarrow> bool" where
  "spares_escrow free X T foreign \<longleftrightarrow>
     (\<forall>bal bal'. foreign bal bal' \<longrightarrow> escrow_free free X T bal \<le> escrow_free free X T bal')"

abbreviation currency_laws :: "('acc, 'bal) Externals \<Rightarrow> ('acc \<Rightarrow> 'bal \<Rightarrow> nat) \<Rightarrow> nat \<Rightarrow> bool" where
  "currency_laws X free ed \<equiv> balances_pallet (ext_transfer X) (ext_deposit_creating X) free ed"

section \<open>One call at a time\<close>

lemma sum_values_raise:
  assumes "finite (dom m)" and "unat v \<le> value_at m k + d"
  shows "sum_values (m(k \<mapsto> v)) \<le> sum_values m + d"
  using sum_values_update [OF assms(1), of k v] assms(2) by linarith

lemma sum_values_lower:
  assumes "finite (dom m)" and "m k = Some held" and "unat v + d \<le> unat held"
  shows "sum_values (m(k \<mapsto> v)) + d \<le> sum_values m"
  using sum_values_update [OF assms(1), of k v] assms(2,3) by simp

lemma add_w_le: "add_w chk a b = Some c \<Longrightarrow> unat c \<le> unat a + unat b"
  by (auto simp: add_w_def unat_word_ariths split: if_splits)

lemma value_or_default: "unat (or_default 0 (m k)) = value_at m k"
  by (cases "m k") auto

lemma stake_keeps_solvent:
  assumes laws: "currency_laws X free ed" and ok: "stake X T (Signed who) amount st = Some (Inr u, st')"
    and who: "who \<noteq> account_id X T" and inv: "solvent free ed X T st"
  shows "solvent free ed X T st'"
proof -
  obtain bal new where transfer: "ext_transfer X who (account_id X T) amount KeepAlive (balances st) = Inr bal"
    and new: "add_w (ext_overflow_checks X) (or_default 0 (ValidatorStakes st who)) amount = Some new"
    and st': "st' = staked who new bal st"
    using ok by (auto simp: stake_ok)
  have "escrow_free free X T bal = escrow_free free X T (balances st) + unat amount"
  proof (cases "amount = 0")
    case True
    then show ?thesis using balances_pallet.transfer_noop [OF laws, of amount] transfer by simp
  next
    case False
    then show ?thesis using balances_pallet.transfer_to [OF laws transfer who] by (simp add: escrow_free_def)
  qed
  moreover have "sum_values ((ValidatorStakes st)(who \<mapsto> new)) \<le> sum_values (ValidatorStakes st) + unat amount"
    using inv add_w_le [OF new] by (intro sum_values_raise) (auto simp: solvent_def value_or_default)
  ultimately show ?thesis using inv by (simp add: solvent_def st')
qed

lemma unstake_escrow_exact:
  assumes laws: "currency_laws X free ed" and who: "who \<noteq> account_id X T" and inv: "solvent free ed X T st"
    and held: "ValidatorStakes st who = Some held" "amount \<le> held"
    and transfer: "ext_transfer X (account_id X T) who amount AllowDeath (balances st) = Inr bal"
  shows "escrow_free free X T bal + unat amount = escrow_free free X T (balances st)"
proof -
  have "unat amount \<le> sum_values (ValidatorStakes st)"
    using value_at_le_sum [of "ValidatorStakes st" who] inv held by (simp add: solvent_def word_le_nat_alt)
  then have "ed + unat amount \<le> free (account_id X T) (balances st)"
    using inv by (simp add: solvent_def escrow_free_def)
  then show ?thesis
    using balances_pallet.transfer_from_exact [OF laws transfer] who by (auto simp: escrow_free_def)
qed

lemma unstake_keeps_solvent:
  assumes laws: "currency_laws X free ed" and ok: "unstake X T (Signed who) amount st = Some (Inr u, st')"
    and who: "who \<noteq> account_id X T" and inv: "solvent free ed X T st"
  shows "solvent free ed X T st'"
proof -
  obtain bal held where held: "ValidatorStakes st who = Some held" "amount \<le> held"
    and transfer: "ext_transfer X (account_id X T) who amount AllowDeath (balances st) = Inr bal"
    and st': "st' = staked who (held - amount) bal st"
    using ok by (auto simp: unstake_ok)
  have "sum_values ((ValidatorStakes st)(who \<mapsto> held - amount)) + unat amount \<le> sum_values (ValidatorStakes st)"
    using inv held by (intro sum_values_lower) (auto simp: solvent_def unat_sub_fits word_le_nat_alt)
  then show ?thesis
    using inv unstake_escrow_exact [OF laws who inv held transfer] by (simp add: solvent_def st')
qed

lemma pay_staker_le:
  assumes laws: "currency_laws X free ed" and "pay_staker X R t s bal = Some bal'"
  shows "free c bal \<le> free c bal'"
  using assms(2) balances_pallet.deposit_le [OF laws] by (auto simp: pay_staker_def bind_eq_Some_conv)

lemma distribute_rewards_le:
  assumes laws: "currency_laws X free ed" and "distribute_rewards X miner ss reward bal = Some bal'"
  shows "free c bal \<le> free c bal'"
proof -
  let ?mid = "ext_deposit_creating X miner (br_miner_reward reward) bal"
  have first: "free c bal \<le> free c ?mid" by (rule balances_pallet.deposit_le [OF laws])
  obtain t where "bal' = ?mid \<or> for_each (pay_staker X (br_stakers_reward reward) t) ss ?mid = Some bal'"
    using assms(2) by (auto simp: distribute_rewards_def Let_def bind_eq_Some_conv split: if_splits)
  then show ?thesis
  proof
    assume "for_each (pay_staker X (br_stakers_reward reward) t) ss ?mid = Some bal'"
    then show ?thesis
      using first pay_staker_le [OF laws]
      by (elim for_each_invariant [where I = "\<lambda>b. free c bal \<le> free c b", rotated 2])
        (auto intro: le_trans)
  qed (use first in simp)
qed

lemma report_keeps_solvent:
  assumes ok: "report_misbehavior X T (Signed who) v reason st = Some (Inr u, st')"
    and inv: "solvent free ed X T st"
  shows "solvent free ed X T st'"
proof -
  obtain amount where "ValidatorStakes st' = (ValidatorStakes st)
      (v \<mapsto> saturating_sub (or_default 0 (ValidatorStakes st v)) amount)" and "balances st' = balances st"
    using ok by (auto simp: report_misbehavior_ok)
  moreover have "sum_values ((ValidatorStakes st)(v \<mapsto> saturating_sub (or_default 0 (ValidatorStakes st v)) amount))
      \<le> sum_values (ValidatorStakes st) + 0"
    using inv by (intro sum_values_raise) (auto simp: solvent_def unat_saturating_sub value_or_default)
  ultimately show ?thesis using inv by (simp add: solvent_def)
qed

lemma dispatch_keeps_solvent:
  assumes laws: "currency_laws X free ed" and ok: "dispatch X T origin c st = Some (r, st')"
    and origin: "origin \<noteq> Signed (account_id X T)" and inv: "solvent free ed X T st"
  shows "solvent free ed X T st'"
  using ok
proof (cases rule: dispatch_cases)
  case succeeded
  show ?thesis
  proof (cases c)
    case (Submit_block h)
    then show ?thesis using succeeded inv by (auto simp: dispatch_call_def submit_block_ok solvent_def)
  next
    case (Stake amount)
    then have *: "stake X T origin amount st = Some (Inr (), st')" using succeeded by (simp add: dispatch_call_def)
    then obtain who where "origin = Signed who" by (auto simp: stake_ok)
    then show ?thesis using stake_keeps_solvent [OF laws _ _ inv] * origin by auto
  next
    case (Unstake amount)
    then have *: "unstake X T origin amount st = Some (Inr (), st')" using succeeded by (simp add: dispatch_call_def)
    then obtain who where "origin = Signed who" by (auto simp: unstake_ok)
    then show ?thesis using unstake_keeps_solvent [OF laws _ _ inv] * origin by auto
  next
    case (Validate_block n sig)
    then obtain miner reward bal where
      paid: "distribute_rewards X miner (collect_stakers X st) reward (balances st) = Some bal"
      and "balances st' = bal" and "ValidatorStakes st' = ValidatorStakes st"
      using succeeded by (auto simp: dispatch_call_def validate_block_ok)
    moreover have "escrow_free free X T (balances st) \<le> escrow_free free X T bal"
      unfolding escrow_free_def by (rule distribute_rewards_le [OF laws paid])
    ultimately show ?thesis using inv by (simp add: solvent_def)
  next
    case (Report_misbehavior v reason)
    then have *: "report_misbehavior X T origin v reason st = Some (Inr (), st')"
      using succeeded by (simp add: dispatch_call_def)
    then obtain who where "origin = Signed who" by (auto simp: report_misbehavior_ok)
    then show ?thesis using report_keeps_solvent [OF _ inv] * by auto
  next
    case (Register_pqc_key k)
    then show ?thesis using succeeded inv by (auto simp: dispatch_call_def register_pqc_key_ok solvent_def)
  qed
qed (use inv in simp)

section \<open>Every step\<close>

interpretation solvency: invariant_system "chain_step X T foreign"
  "\<lambda>st. currency_laws X free ed \<and> spares_escrow free X T foreign \<and> solvent free ed X T st"
  for X :: "('acc::linorder, 'bal) Externals" and T foreign free ed
proof unfold_locales
  fix s t :: "('acc, 'bal) Storage"
  assume I: "currency_laws X free ed \<and> spares_escrow free X T foreign \<and> solvent free ed X T s"
    and "chain_step X T foreign s t"
  then have laws: "currency_laws X free ed" and spares: "spares_escrow free X T foreign"
    and inv: "solvent free ed X T s" by blast+
  from \<open>chain_step X T foreign s t\<close> have "solvent free ed X T t"
  proof (cases rule: chain_step.cases)
    case (block_begins n w)
    note fields = on_initialize_fields [OF block_begins(3)]
    have "sum_values (ValidatorStakes t) \<le> sum_values (ValidatorStakes s)"
      using stakes_shrink_sum [OF fields(9)] by simp
    moreover have "dom (ValidatorStakes t) = dom (ValidatorStakes s)"
      using fields(9) by (simp add: stakes_shrink_def)
    ultimately show ?thesis using inv fields(6) by (simp add: solvent_def)
  next
    case (extrinsic origin c r)
    then show ?thesis using dispatch_keeps_solvent [OF laws _ _ inv] by blast
  next
    case block_ends
    then show ?thesis using inv by (simp add: solvent_def)
  next
    case (elsewhere bal)
    then show ?thesis using inv spares by (auto simp: solvent_def spares_escrow_def dest: order_trans)
  qed
  with laws spares show "currency_laws X free ed \<and> spares_escrow free X T foreign \<and> solvent free ed X T t"
    by blast
qed

lemma unstake_succeeds:
  assumes laws: "escrow_pallet (ext_transfer X) (ext_deposit_creating X) free ed (account_id X T)"
    and inv: "solvent free ed X T st" and who: "who \<noteq> account_id X T"
    and held: "ValidatorStakes st who = Some held" "amount \<le> held"
    and room: "ed \<le> free who (balances st) + unat amount" "free who (balances st) + unat amount < 2 ^ 128"
  obtains bal where
    "ext_transfer X (account_id X T) who amount AllowDeath (balances st) = Inr bal"
    "dispatch X T (Signed who) (Unstake amount) st = Some (Inr (), staked who (held - amount) bal st)"
    "free who bal = free who (balances st) + unat amount"
proof -
  have pallet: "currency_laws X free ed" using laws by (simp add: escrow_pallet_def)
  have "unat amount \<le> sum_values (ValidatorStakes st)"
    using value_at_le_sum [of "ValidatorStakes st" who] inv held by (simp add: solvent_def word_le_nat_alt)
  then have "unat amount \<le> free (account_id X T) (balances st)"
    using inv by (simp add: solvent_def escrow_free_def)
  then obtain bal where bal: "ext_transfer X (account_id X T) who amount AllowDeath (balances st) = Inr bal"
    using escrow_pallet.escrow_pays [OF laws who _ room] by blast
  moreover have "free who bal = free who (balances st) + unat amount"
  proof (cases "amount = 0")
    case True
    then show ?thesis using balances_pallet.transfer_noop [OF pallet, of amount] bal by simp
  next
    case False
    then show ?thesis using balances_pallet.transfer_to [OF pallet bal] who by simp
  qed
  moreover have "dispatch X T (Signed who) (Unstake amount) st = Some (Inr (), staked who (held - amount) bal st)"
    using held bal by (auto simp: dispatch_ok dispatch_call_def unstake_ok)
  ultimately show ?thesis using that by blast
qed

text \<open>What a stake moves.\<close>

lemma stake_moves:
  assumes laws: "currency_laws X free ed" and who: "who \<noteq> account_id X T" and amount: "amount \<noteq> 0"
    and ok: "dispatch X T (Signed who) (Stake amount) st = Some (Inr (), st')"
    and fits: "value_at (ValidatorStakes st) who + unat amount < 2 ^ 128"
  obtains new where "ValidatorStakes st' = (ValidatorStakes st)(who \<mapsto> new)"
    "unat new = value_at (ValidatorStakes st) who + unat amount"
    "free who (balances st') + unat amount = free who (balances st)" "ed \<le> free who (balances st')"
    "free (account_id X T) (balances st') = free (account_id X T) (balances st) + unat amount"
proof -
  obtain bal new where transfer: "ext_transfer X who (account_id X T) amount KeepAlive (balances st) = Inr bal"
    and new: "add_w (ext_overflow_checks X) (or_default 0 (ValidatorStakes st who)) amount = Some new"
    and st': "st' = staked who new bal st"
    using ok by (auto simp: dispatch_ok dispatch_call_def stake_ok)
  have "unat (or_default 0 (ValidatorStakes st who)) + unat amount < 2 ^ LENGTH(128)"
    using fits by (simp add: value_or_default)
  from add_w_fits [OF this] new unat_add_fits [OF this]
  have "unat new = value_at (ValidatorStakes st) who + unat amount" by (simp add: value_or_default)
  moreover have "ed \<le> free who bal"
    using balances_pallet.transfer_keeps_alive [OF laws transfer who amount] .
  moreover have "free who bal + unat amount = free who (balances st)"
    using balances_pallet.transfer_from [OF laws transfer who amount]
      balances_pallet.transfer_covered [OF laws transfer who amount] \<open>ed \<le> free who bal\<close>
    by (auto split: if_splits)
  moreover have "free (account_id X T) bal = free (account_id X T) (balances st) + unat amount"
    using balances_pallet.transfer_to [OF laws transfer who amount] .
  ultimately show ?thesis using that st' by simp
qed

section \<open>Properties\<close>

text \<open>Two stakers with 300 and 100 units; the escrow account 999 holds them and 10 more.\<close>

definition sample_escrow :: "nat \<Rightarrow> (u64, u64 ledger) Storage" where
  "sample_escrow extra = sample_chain\<lparr>balances := (\<lambda>_. 50)(999 := 400 + of_nat extra)\<rparr>"

lemma sample_escrow_simps [simp]:
  "ValidatorStakes (sample_escrow x) = [2 \<mapsto> 300, 3 \<mapsto> 100]"
  "balances (sample_escrow x) = (\<lambda>_. 50)(999 := 400 + of_nat x)"
  "account_id (sample_externals ed) T = 999"
  by (simp_all add: sample_escrow_def account_id_def)

lemma sample_escrow_stakes: "sum_values [2 :: u64 \<mapsto> 300, 3 \<mapsto> (100 :: u128)] = 400"
  using sample_chain_stakes by simp

lemma sample_solvent: "solvent ledger_free 10 (sample_externals 10) runtime_config (sample_escrow 10)"
  by (simp add: solvent_def sample_escrow_stakes escrow_free_def ledger_free_def)

text \<open>
  C3: Given a currency that obeys its documented laws, and other pallets that never lower the balance
  of the escrow account: once the escrow account holds the sum of all stakes and one existential
  deposit, it does so in every later state, whatever blocks, calls of other accounts, slashes and
  rewards happen. (The genesis state of the presets does not meet the start condition; somebody has
  to send one existential deposit to the escrow account first.)
\<close>

theorem escrow_stays_solvent:
  assumes "currency_laws X free ed" and "spares_escrow free X T foreign"
    and "solvent free ed X T st" and "(chain_step X T foreign)\<^sup>*\<^sup>* st st'"
  shows "solvent free ed X T st'"
  using solvency.run_keeps [OF assms(4)] assms(1-3) by blast

theorem escrow_stays_solvent_witness:
  "\<exists>st'. dispatch (sample_externals 10) runtime_config (Signed 2) (Unstake 295) (sample_escrow 10) = Some (Inr (), st')
    \<and> solvent ledger_free 10 (sample_externals 10) runtime_config st'"
proof -
  have pays: "escrow_pallet (ext_transfer (sample_externals 10)) (ext_deposit_creating (sample_externals 10))
      ledger_free 10 (account_id (sample_externals 10) runtime_config)"
    using account_ledger.escrow_pallet_axioms by simp
  obtain bal where ok: "dispatch (sample_externals 10) runtime_config (Signed 2) (Unstake 295) (sample_escrow 10)
      = Some (Inr (), staked 2 (300 - 295) bal (sample_escrow 10))"
    by (rule unstake_succeeds [OF pays sample_solvent, of 2 300 295]) (simp_all add: ledger_free_def)
  have "chain_step (sample_externals 10) runtime_config (=) (sample_escrow 10) (staked 2 (300 - 295) bal (sample_escrow 10))"
    by (rule chain_step.extrinsic [OF _ _ ok]) (simp_all add: call_typed_def)
  then have "solvent ledger_free 10 (sample_externals 10) runtime_config (staked 2 (300 - 295) bal (sample_escrow 10))"
    by (intro escrow_stays_solvent [OF sample_laws _ sample_solvent r_into_rtranclp])
      (simp_all add: spares_escrow_def)
  with ok show ?thesis by blast
qed

text \<open>
  C14: Given a currency that obeys its documented laws, in a solvent state (the escrow account holds
  all stakes and one existential deposit) every staker other than the escrow account can withdraw
  any part of the stake that leaves the staker a balance of at least the existential deposit and
  below 2^128: the call succeeds, the stake shrinks by the amount and the staker's balance grows
  by it.
\<close>

theorem covered_unstake_succeeds:
  assumes "escrow_pallet (ext_transfer X) (ext_deposit_creating X) free ed (account_id X T)"
    and "solvent free ed X T st" and "who \<noteq> account_id X T"
    and "ValidatorStakes st who = Some held" and "amount \<le> held"
    and "ed \<le> free who (balances st) + unat amount" and "free who (balances st) + unat amount < 2 ^ 128"
  shows "\<exists>st'. dispatch X T (Signed who) (Unstake amount) st = Some (Inr (), st')
    \<and> ValidatorStakes st' = (ValidatorStakes st)(who \<mapsto> held - amount)
    \<and> free who (balances st') = free who (balances st) + unat amount"
  by (rule unstake_succeeds [OF assms]) auto

theorem covered_unstake_succeeds_witness:
  "\<exists>st'. dispatch (sample_externals 10) runtime_config (Signed 2) (Unstake 295) (sample_escrow 10) = Some (Inr (), st')
    \<and> ledger_free 2 (balances st') = 345"
proof -
  have pays: "escrow_pallet (ext_transfer (sample_externals 10)) (ext_deposit_creating (sample_externals 10))
      ledger_free 10 (account_id (sample_externals 10) runtime_config)"
    using account_ledger.escrow_pallet_axioms by simp
  have "\<exists>st'. dispatch (sample_externals 10) runtime_config (Signed 2) (Unstake 295) (sample_escrow 10) = Some (Inr (), st')
    \<and> ValidatorStakes st' = (ValidatorStakes (sample_escrow 10))(2 \<mapsto> 300 - 295)
    \<and> ledger_free 2 (balances st') = ledger_free 2 (balances (sample_escrow 10)) + unat (295 :: u128)"
    by (rule covered_unstake_succeeds [OF pays sample_solvent]) (simp_all add: ledger_free_def)
  then show ?thesis by (auto simp: ledger_free_def)
qed

text \<open>
  C16: Staking and unstaking the same amount is a round trip in a solvent state: the second call
  succeeds and every stake, the staker's balance and the escrow are what they were (a staker that
  was new stays listed with stake 0).
\<close>

theorem stake_unstake_roundtrip:
  assumes "escrow_pallet (ext_transfer X) (ext_deposit_creating X) free ed (account_id X T)"
    and "solvent free ed X T st" and "who \<noteq> account_id X T" and "amount \<noteq> 0"
    and "dispatch X T (Signed who) (Stake amount) st = Some (Inr (), st1)"
    and "value_at (ValidatorStakes st) who + unat amount < 2 ^ 128" and "free who (balances st) < 2 ^ 128"
  shows "\<exists>st2. dispatch X T (Signed who) (Unstake amount) st1 = Some (Inr (), st2)
    \<and> value_at (ValidatorStakes st2) = value_at (ValidatorStakes st)
    \<and> free who (balances st2) = free who (balances st)
    \<and> escrow_free free X T (balances st2) = escrow_free free X T (balances st)"
proof -
  have laws: "currency_laws X free ed" using assms(1) by (simp add: escrow_pallet_def)
  obtain new where new: "ValidatorStakes st1 = (ValidatorStakes st)(who \<mapsto> new)"
      "unat new = value_at (ValidatorStakes st) who + unat amount"
    and left: "free who (balances st1) + unat amount = free who (balances st)" "ed \<le> free who (balances st1)"
    and escrow: "free (account_id X T) (balances st1) = free (account_id X T) (balances st) + unat amount"
    by (rule stake_moves [OF laws assms(3-6)])
  have inv: "solvent free ed X T st1"
    by (rule dispatch_keeps_solvent [OF laws assms(5) _ assms(2)]) (use assms(3) in simp)
  have held: "ValidatorStakes st1 who = Some new" "amount \<le> new"
    using new by (simp_all add: word_le_nat_alt)
  obtain bal where transfer: "ext_transfer X (account_id X T) who amount AllowDeath (balances st1) = Inr bal"
    and ok: "dispatch X T (Signed who) (Unstake amount) st1 = Some (Inr (), staked who (new - amount) bal st1)"
    and regained: "free who bal = free who (balances st1) + unat amount"
    by (rule unstake_succeeds [OF assms(1) inv assms(3) held]) (use left assms(7) in simp_all)
  have "value_at ((ValidatorStakes st)(who \<mapsto> new - amount)) = value_at (ValidatorStakes st)"
    using new held by (auto simp: value_at_def unat_sub_fits word_le_nat_alt fun_eq_iff)
  moreover have "escrow_free free X T bal = escrow_free free X T (balances st)"
    using unstake_escrow_exact [OF laws assms(3) inv held transfer] escrow by (simp add: escrow_free_def)
  ultimately show ?thesis using ok regained left new(1) by simp
qed

theorem stake_unstake_roundtrip_witness:
  "\<exists>st1 st2. dispatch (sample_externals 10) (runtime_config\<lparr>cfg_MinStake := 20\<rparr>) (Signed 5) (Stake 30) (sample_escrow 10)
      = Some (Inr (), st1)
    \<and> dispatch (sample_externals 10) (runtime_config\<lparr>cfg_MinStake := 20\<rparr>) (Signed 5) (Unstake 30) st1 = Some (Inr (), st2)
    \<and> ledger_free 5 (balances st2) = 50"
proof -
  let ?X = "sample_externals 10" and ?T = "runtime_config\<lparr>cfg_MinStake := 20\<rparr>"
  let ?bal = "(\<lambda>_. 50)(999 := 440, 5 := 20) :: u64 ledger"
  have pays: "escrow_pallet (ext_transfer ?X) (ext_deposit_creating ?X) ledger_free 10 (account_id ?X ?T)"
    using account_ledger.escrow_pallet_axioms by simp
  have inv: "solvent ledger_free 10 ?X ?T (sample_escrow 10)"
    using sample_solvent by (simp add: solvent_def escrow_free_def)
  have "ledger_transfer 10 5 999 30 KeepAlive ((\<lambda>_. 50)(999 := 410)) = Inr ?bal"
    by (auto simp: ledger_transfer_def fun_upd_twist)
  then have stake: "dispatch ?X ?T (Signed 5) (Stake 30) (sample_escrow 10) = Some (Inr (), staked 5 30 ?bal (sample_escrow 10))"
    by (simp add: dispatch_ok dispatch_call_def stake_ok add_w_def)
  have "\<exists>st2. dispatch ?X ?T (Signed 5) (Unstake 30) (staked 5 30 ?bal (sample_escrow 10)) = Some (Inr (), st2)
    \<and> value_at (ValidatorStakes st2) = value_at (ValidatorStakes (sample_escrow 10))
    \<and> ledger_free 5 (balances st2) = ledger_free 5 (balances (sample_escrow 10))
    \<and> escrow_free ledger_free ?X ?T (balances st2) = escrow_free ledger_free ?X ?T (balances (sample_escrow 10))"
    by (rule stake_unstake_roundtrip [OF pays inv _ _ stake]) (simp_all add: ledger_free_def)
  with stake show ?thesis by (auto simp: ledger_free_def)
qed

text \<open>
  C17: When the escrow holds exactly the stakes, as it does after stakes alone, an unstake that leaves
  less than the existential deposit removes the escrow account: its rest is lost, and stakes remain
  that nothing backs.
\<close>

theorem unstake_can_strand_stakes:
  assumes "currency_laws X free ed" and "who \<noteq> account_id X T" and "finite (dom (ValidatorStakes st))"
    and "sum_values (ValidatorStakes st) = escrow_free free X T (balances st)"
    and "amount \<noteq> 0" and "unat amount < escrow_free free X T (balances st)"
    and "escrow_free free X T (balances st) - unat amount < ed"
    and "dispatch X T (Signed who) (Unstake amount) st = Some (Inr (), st')"
  shows "escrow_free free X T (balances st') = 0 \<and> 0 < sum_values (ValidatorStakes st')"
proof -
  obtain bal held where held: "ValidatorStakes st who = Some held" "amount \<le> held"
    and transfer: "ext_transfer X (account_id X T) who amount AllowDeath (balances st) = Inr bal"
    and st': "st' = staked who (held - amount) bal st"
    using assms(8) by (auto simp: dispatch_ok dispatch_call_def unstake_ok)
  have "escrow_free free X T bal = 0"
    using balances_pallet.transfer_from [OF assms(1) transfer _ assms(5)] assms(2,7)
    by (auto simp: escrow_free_def)
  moreover have "sum_values ((ValidatorStakes st)(who \<mapsto> held - amount)) + unat held
      = sum_values (ValidatorStakes st) + unat (held - amount)"
    using sum_values_update [OF assms(3), of who "held - amount"] held by simp
  then have "0 < sum_values ((ValidatorStakes st)(who \<mapsto> held - amount))"
    using held assms(4,6) by (simp add: unat_sub_fits word_le_nat_alt)
  ultimately show ?thesis by (simp add: st')
qed

theorem unstake_can_strand_stakes_witness:
  "\<exists>st'. dispatch (sample_externals 10) runtime_config (Signed 2) (Unstake 295)
      ((sample_escrow 0)\<lparr>ValidatorStakes := [2 \<mapsto> 300], balances := (\<lambda>_. 50)(999 := 300)\<rparr>) = Some (Inr (), st')
    \<and> escrow_free ledger_free (sample_externals 10) runtime_config (balances st') = 0
    \<and> 0 < sum_values (ValidatorStakes st')"
proof -
  let ?st = "(sample_escrow 0)\<lparr>ValidatorStakes := [2 \<mapsto> 300], balances := (\<lambda>_. 50)(999 := 300)\<rparr>"
  let ?bal = "((\<lambda>_. 50)(999 := 0, 2 := 345)) :: u64 ledger"
  have "ledger_transfer 10 999 2 295 AllowDeath (balances ?st) = Inr ?bal"
    by (auto simp: ledger_transfer_def)
  then have ok: "dispatch (sample_externals 10) runtime_config (Signed 2) (Unstake 295) ?st
      = Some (Inr (), staked 2 (300 - 295) ?bal ?st)"
    by (simp add: dispatch_ok dispatch_call_def unstake_ok word_le_nat_alt)
  have sum: "sum_values [2 :: u64 \<mapsto> (300 :: u128)] = 300"
    using sum_values_update [of "Map.empty :: u64 \<rightharpoonup> u128" 2 300] by simp
  have "escrow_free ledger_free (sample_externals 10) runtime_config (balances (staked 2 (300 - 295) ?bal ?st)) = 0
    \<and> 0 < sum_values (ValidatorStakes (staked 2 (300 - 295) ?bal ?st))"
    by (rule unstake_can_strand_stakes [OF sample_laws _ _ _ _ _ _ ok])
      (simp_all add: sum escrow_free_def ledger_free_def)
  with ok show ?thesis by blast
qed

end
