(* ===== verification/Ghost_Issuance.thy ===== *)
theory Ghost_Issuance
  imports Ghost_Solvency
begin

text \<open>
  How many tokens the pallet creates. The balances of any finite set of accounts that contains the
  escrow and the signers grow by at most the rewards of the accepted validations, so a block
  creates at most one \<open>BlockReward\<close>, under either build profile.
\<close>

section \<open>The balances of a set of accounts\<close>

definition holdings :: "('acc \<Rightarrow> 'bal \<Rightarrow> nat) \<Rightarrow> 'acc set \<Rightarrow> 'bal \<Rightarrow> nat" where
  "holdings free A bal = (\<Sum>a \<in> A. free a bal)"

lemma holdings_remove:
  "finite A \<Longrightarrow> a \<in> A \<Longrightarrow> holdings free A bal = free a bal + holdings free (A - {a}) bal"
  by (simp add: holdings_def sum.remove)

lemma holdings_mono:
  "(\<And>c. c \<in> A \<Longrightarrow> free c bal \<le> free c bal') \<Longrightarrow> holdings free A bal \<le> holdings free A bal'"
  by (simp add: holdings_def sum_mono)

lemma holdings_cong:
  "(\<And>c. c \<in> A \<Longrightarrow> free c bal = free c bal') \<Longrightarrow> holdings free A bal = holdings free A bal'"
  by (simp add: holdings_def)

context balances_pallet
begin

lemma deposit_holdings:
  assumes "finite A"
  shows "holdings free A (deposit_creating a amt s) \<le> holdings free A s + unat amt"
proof (cases "a \<in> A")
  case True
  have "holdings free (A - {a}) (deposit_creating a amt s) = holdings free (A - {a}) s"
    by (rule holdings_cong) (simp add: deposit_other)
  then show ?thesis
    using holdings_remove [OF assms True, of free] deposit_bound [of a a amt s] by simp
next
  case False
  then have "holdings free A (deposit_creating a amt s) = holdings free A s"
    by (intro holdings_cong) (metis deposit_other)
  then show ?thesis by simp
qed

text \<open>A transfer from one of the accounts creates nothing.\<close>

lemma transfer_holdings:
  assumes ok: "transfer a b amt req s = Inr s'" and A: "finite A" "a \<in> A"
  shows "holdings free A s' \<le> holdings free A s"
proof (cases "amt = 0 \<or> a = b")
  case True
  then show ?thesis using transfer_noop [of amt a b req s] ok by simp
next
  case False
  then have ab: "a \<noteq> b" and amt: "amt \<noteq> 0" by auto
  have sender: "free a s' + unat amt \<le> free a s"
    using transfer_from [OF ok ab amt] transfer_covered [OF ok ab amt] by (auto split: if_splits)
  have rest: "holdings free (A - {a} - {b}) s' = holdings free (A - {a} - {b}) s"
    by (rule holdings_cong) (use transfer_other [OF ok] in auto)
  have "holdings free (A - {a}) s' \<le> holdings free (A - {a}) s + unat amt"
  proof (cases "b \<in> A")
    case True
    then have "b \<in> A - {a}" "finite (A - {a})" using ab A by auto
    from holdings_remove [OF this(2,1), of free] show ?thesis
      using rest transfer_to [OF ok ab amt] by simp
  next
    case False
    then have "A - {a} - {b} = A - {a}" by auto
    then show ?thesis using rest by simp
  qed
  then show ?thesis using holdings_remove [OF A, of free] sender by simp
qed

end

section \<open>Rewards\<close>

lemma mul_w_le: "mul_w chk a b = Some c \<Longrightarrow> unat c \<le> unat a * unat b"
  by (auto simp: mul_w_def unat_word_ariths split: if_splits)

text \<open>The split adds up to the whole reward, also where the product wraps around.\<close>

lemma reward_parts_sum:
  assumes "calculate_block_reward chk tot = Some r"
  shows "unat (br_miner_reward r) + unat (br_stakers_reward r) = unat tot"
proof -
  obtain forty m rest where forty: "mul_w chk tot 40 = Some forty" and m: "m = forty div 100"
    and rest: "sub_w chk tot m = Some rest"
    and r: "br_miner_reward r = m" "br_stakers_reward r = rest"
    using assms by (auto simp: calculate_block_reward_def div_w_def bind_eq_Some_conv split: if_splits)
  have "unat m \<le> unat tot * 40 div 100"
    using mul_w_le [OF forty] by (simp add: m unat_div div_le_mono)
  then have le: "unat m \<le> unat tot" by simp
  then have "rest = tot - m" using rest by (auto simp: sub_w_def split: if_splits)
  then show ?thesis using le r by (simp add: unat_sub_fits)
qed

lemma pay_staker_holdings:
  assumes laws: "currency_laws X free ed" and A: "finite A"
    and ok: "pay_staker X R t s bal = Some bal'"
  shows "holdings free A bal' \<le> holdings free A bal + staker_share (unat R) (unat t) s"
proof -
  obtain p where p: "mul_w (ext_overflow_checks X) R (vs_stake s) = Some p"
    and bal': "bal' = ext_deposit_creating X (vs_account s) (p div t) bal"
    using ok by (auto simp: pay_staker_def div_w_def bind_eq_Some_conv split: if_splits)
  have "unat (p div t) \<le> staker_share (unat R) (unat t) s"
    using mul_w_le [OF p] by (simp add: unat_div staker_share_def div_le_mono)
  then show ?thesis
    using balances_pallet.deposit_holdings [OF laws A, of "vs_account s" "p div t" bal] bal' by simp
qed

lemma pay_stakers_holdings:
  assumes laws: "currency_laws X free ed" and A: "finite A"
    and "for_each (pay_staker X R t) ss bal = Some bal'"
  shows "holdings free A bal' \<le> holdings free A bal + (\<Sum>s \<leftarrow> ss. staker_share (unat R) (unat t) s)"
  using assms(3)
proof (induction ss arbitrary: bal)
  case (Cons s ss)
  then obtain mid where "pay_staker X R t s bal = Some mid" and "for_each (pay_staker X R t) ss mid = Some bal'"
    by (auto simp: bind_eq_Some_conv)
  with Cons.IH pay_staker_holdings [OF laws A] show ?case by fastforce
qed simp

lemma shares_within: "(\<Sum>s \<leftarrow> ss. staker_share R (stake_sum ss) s) \<le> R"
  using sum_shares_le [of R "\<lambda>s. unat (vs_stake s)" "stake_sum ss" ss, folded stake_sum_def staker_share_def]
  by (cases "stake_sum ss = 0") (simp_all add: staker_share_def)

lemma distribute_rewards_holdings:
  assumes laws: "currency_laws X free ed" and A: "finite A" and fits: "stake_sum ss < 2 ^ 128"
    and ok: "distribute_rewards X miner ss r bal = Some bal'"
  shows "holdings free A bal' \<le> holdings free A bal + unat (br_miner_reward r) + unat (br_stakers_reward r)"
proof -
  let ?mid = "ext_deposit_creating X miner (br_miner_reward r) bal"
  obtain t where t: "for_each (add_stake (ext_overflow_checks X)) ss 0 = Some t" "unat t = stake_sum ss"
    using for_each_add_stake [of 0 ss "ext_overflow_checks X"] fits by auto
  have miner: "holdings free A ?mid \<le> holdings free A bal + unat (br_miner_reward r)"
    by (rule balances_pallet.deposit_holdings [OF laws A])
  show ?thesis
  proof (cases "t = 0")
    case True
    then show ?thesis using ok t(1) miner by (simp add: distribute_rewards_def)
  next
    case False
    then have "for_each (pay_staker X (br_stakers_reward r) t) ss ?mid = Some bal'"
      using ok t(1) by (simp add: distribute_rewards_def)
    from pay_stakers_holdings [OF laws A this] show ?thesis
      using shares_within [of "unat (br_stakers_reward r)" ss] miner t(2) by simp
  qed
qed

section \<open>Calls and blocks\<close>

text \<open>In a solvent state the sum of the stakes is a balance, which \<open>u128\<close> bounds.\<close>

definition balances_fit :: "('acc \<Rightarrow> 'bal \<Rightarrow> nat) \<Rightarrow> bool" where
  "balances_fit free \<longleftrightarrow> (\<forall>a bal. free a bal < 2 ^ 128)"

lemma solvent_stake_sum:
  assumes "balances_fit free" and "lists_keys (ext_key_order X)" and "solvent free ed X T st"
  shows "stake_sum (collect_stakers X st) < 2 ^ 128"
proof -
  have "sum_values (ValidatorStakes st) \<le> escrow_free free X T (balances st)"
    using assms(3) by (simp add: solvent_def)
  also have "\<dots> < 2 ^ 128" using assms(1) by (simp add: balances_fit_def escrow_free_def)
  finally show ?thesis using assms(2,3) by (simp add: stake_sum_collect solvent_def)
qed

lemma dispatch_holdings:
  assumes laws: "currency_laws X free ed" and fit: "balances_fit free"
    and keys: "lists_keys (ext_key_order X)" and inv: "solvent free ed X T st"
    and A: "finite A" "account_id X T \<in> A" "\<And>who. origin = Signed who \<Longrightarrow> who \<in> A"
    and ok: "dispatch X T origin c st = Some (r, st')"
  shows "holdings free A (balances st') \<le> holdings free A (balances st)
    + (if is_validation c \<and> r = Inr () then unat (cfg_BlockReward T) else 0)"
  using ok
proof (cases rule: dispatch_cases)
  case succeeded
  note transfer = balances_pallet.transfer_holdings [OF laws _ A(1)]
  show ?thesis
  proof (cases c)
    case (Submit_block h)
    then show ?thesis using succeeded by (auto simp: dispatch_call_def submit_block_ok)
  next
    case (Stake amount)
    then obtain who bal new where "origin = Signed who" "st' = staked who new bal st"
      "ext_transfer X who (account_id X T) amount KeepAlive (balances st) = Inr bal"
      using succeeded by (auto simp: dispatch_call_def stake_ok)
    with transfer A(3) show ?thesis by (simp add: trans_le_add1)
  next
    case (Unstake amount)
    then obtain who bal new where "origin = Signed who" "st' = staked who new bal st"
      "ext_transfer X (account_id X T) who amount AllowDeath (balances st) = Inr bal"
      using succeeded by (auto simp: dispatch_call_def unstake_ok)
    with transfer A(2) show ?thesis by (simp add: trans_le_add1)
  next
    case (Validate_block n sig)
    then obtain miner reward where
      "calculate_block_reward (ext_overflow_checks X) (cfg_BlockReward T) = Some reward"
      "distribute_rewards X miner (collect_stakers X st) reward (balances st) = Some (balances st')"
      using succeeded by (auto simp: dispatch_call_def validate_block_ok)
    with distribute_rewards_holdings [OF laws A(1) solvent_stake_sum [OF fit keys inv]] reward_parts_sum
    show ?thesis using succeeded Validate_block by (fastforce simp: is_validation_def)
  next
    case (Report_misbehavior v reason)
    then show ?thesis using succeeded by (auto simp: dispatch_call_def report_misbehavior_ok)
  next
    case (Register_pqc_key k)
    then show ?thesis using succeeded by (auto simp: dispatch_call_def register_pqc_key_ok)
  qed
qed simp

lemma extrinsics_holdings:
  assumes laws: "currency_laws X free ed" and fit: "balances_fit free"
    and keys: "lists_keys (ext_key_order X)" and A: "finite A" "account_id X T \<in> A"
    and "\<And>who c. (Signed who, c) \<in> set xs \<Longrightarrow> who \<in> A \<and> who \<noteq> account_id X T"
    and "solvent free ed X T st" and "apply_extrinsics X T xs st = Some (rs, st')"
  shows "holdings free A (balances st') \<le> holdings free A (balances st)
    + accepted is_validation xs rs * unat (cfg_BlockReward T)"
  using assms(6-)
proof (induction xs arbitrary: st rs)
  case (Cons x xs)
  obtain origin c where x: "x = (origin, c)" by (cases x)
  obtain r mid rs' where step: "dispatch X T origin c st = Some (r, mid)"
    and rest: "apply_extrinsics X T xs mid = Some (rs', st')" and rs: "rs = r # rs'"
    using Cons.prems by (auto simp: x bind_eq_Some_conv)
  have who: "\<And>who. origin = Signed who \<Longrightarrow> who \<in> A \<and> who \<noteq> account_id X T"
    using Cons.prems(1) by (auto simp: x)
  have mid: "solvent free ed X T mid"
    by (rule dispatch_keeps_solvent [OF laws step _ Cons.prems(2)]) (use who in auto)
  have "holdings free A (balances st') \<le> holdings free A (balances mid)
      + accepted is_validation xs rs' * unat (cfg_BlockReward T)"
    by (rule Cons.IH [OF _ mid rest]) (use Cons.prems(1) in auto)
  moreover have "holdings free A (balances mid) \<le> holdings free A (balances st)
      + (if is_validation c \<and> r = Inr () then unat (cfg_BlockReward T) else 0)"
    by (rule dispatch_holdings [OF laws fit keys Cons.prems(2) A _ step]) (use who in blast)
  ultimately show ?case by (auto simp: x rs split: if_splits)
qed simp

text \<open>
  A block creates at most one block reward: whatever extrinsics it holds, the balances of
  any finite set of accounts with the escrow and the signers in it grow by no more than
  \<open>BlockReward\<close>, also when products of the reward computation wrap around. (The start is solvent,
  and balances are \<open>u128\<close>.)
\<close>

lemma block_mints_at_most_one_reward:
  assumes "currency_laws X free ed" and "balances_fit free" and "lists_keys (ext_key_order X)"
    and "finite A" and "account_id X T \<in> A"
    and "\<forall>(origin, c) \<in> set xs. \<forall>who. origin = Signed who \<longrightarrow> who \<in> A \<and> who \<noteq> account_id X T"
    and "solvent free ed X T st" and "apply_extrinsics X T xs st = Some (rs, st')"
  shows "holdings free A (balances st') \<le> holdings free A (balances st) + unat (cfg_BlockReward T)"
proof -
  have "accepted is_validation xs rs \<le> 1"
    using accepted_by_phase [OF assms(8)] by (auto split: if_splits)
  then have "accepted is_validation xs rs * unat (cfg_BlockReward T) \<le> 1 * unat (cfg_BlockReward T)"
    by (rule mult_le_mono1)
  moreover have "holdings free A (balances st') \<le> holdings free A (balances st)
      + accepted is_validation xs rs * unat (cfg_BlockReward T)"
    by (rule extrinsics_holdings [OF assms(1-5) _ assms(7,8)]) (use assms(6) in fastforce)
  ultimately show ?thesis by linarith
qed

end
