(* ===== verification/Ghost_Supply.thy ===== *)
theory Ghost_Supply
  imports Ghost_Issuance
begin

text \<open>
  How fast the supply of tokens can grow. Of the operations of the pallet only an accepted validation
  creates tokens, and it uses up the phase in which it is possible: what the accounts hold, plus one
  reward while none has been paid in this round, never grows within a block.
\<close>

section \<open>Whole blocks\<close>

text \<open>What may happen between the two hooks of a block whose signers are in \<open>A\<close>, in any order.\<close>

inductive within_block ::
  "('acc::linorder, 'bal) Externals \<Rightarrow> Config \<Rightarrow> ('bal \<Rightarrow> 'bal \<Rightarrow> bool) \<Rightarrow> 'acc set
    \<Rightarrow> ('acc, 'bal) Storage \<Rightarrow> ('acc, 'bal) Storage \<Rightarrow> bool"
  for X T foreign A where
  call: "(\<And>who. origin = Signed who \<Longrightarrow> who \<in> A \<and> who \<noteq> account_id X T) \<Longrightarrow>
    dispatch X T origin c st = Some (r, st') \<Longrightarrow> within_block X T foreign A st st'"
| move: "foreign (balances st) bal \<Longrightarrow> within_block X T foreign A st (st\<lparr>balances := bal\<rparr>)"

definition whole_block ::
  "('acc::linorder, 'bal) Externals \<Rightarrow> Config \<Rightarrow> ('bal \<Rightarrow> 'bal \<Rightarrow> bool) \<Rightarrow> 'acc set
    \<Rightarrow> ('acc, 'bal) Storage \<Rightarrow> ('acc, 'bal) Storage \<Rightarrow> bool" where
  "whole_block X T foreign A st st' \<longleftrightarrow> (\<exists>n w begun finished.
     n = system_block_number st + 1
     \<and> on_initialize X T n (st\<lparr>system_block_number := n, system_events := []\<rparr>) = Some (w, begun)
     \<and> (within_block X T foreign A)\<^sup>*\<^sup>* begun finished \<and> st' = on_finalize n finished)"

text \<open>The other pallets burn and transfer, but create no tokens: with \<open>A\<close> all accounts in use.\<close>

definition creates_none :: "('acc \<Rightarrow> 'bal \<Rightarrow> nat) \<Rightarrow> 'acc set \<Rightarrow> ('bal \<Rightarrow> 'bal \<Rightarrow> bool) \<Rightarrow> bool" where
  "creates_none free A foreign \<longleftrightarrow> (\<forall>bal bal'. foreign bal bal' \<longrightarrow> holdings free A bal' \<le> holdings free A bal)"

section \<open>The budget of a round\<close>

definition budget :: "('acc \<Rightarrow> 'bal \<Rightarrow> nat) \<Rightarrow> 'acc set \<Rightarrow> Config \<Rightarrow> ('acc, 'bal) Storage \<Rightarrow> nat" where
  "budget free A T st = holdings free A (balances st)
     + (if CurrentPhase st = Finalization then 0 else unat (cfg_BlockReward T))"

text \<open>What the environment grants.\<close>

definition sound_money ::
  "('acc::linorder, 'bal) Externals \<Rightarrow> Config \<Rightarrow> ('acc \<Rightarrow> 'bal \<Rightarrow> nat) \<Rightarrow> nat \<Rightarrow> 'acc set
    \<Rightarrow> ('bal \<Rightarrow> 'bal \<Rightarrow> bool) \<Rightarrow> bool" where
  "sound_money X T free ed A foreign \<longleftrightarrow> currency_laws X free ed \<and> balances_fit free
     \<and> lists_keys (ext_key_order X) \<and> finite A \<and> account_id X T \<in> A
     \<and> spares_escrow free X T foreign \<and> creates_none free A foreign"

lemma dispatch_budget:
  assumes money: "sound_money X T free ed A foreign" and inv: "solvent free ed X T st"
    and who: "\<And>who. origin = Signed who \<Longrightarrow> who \<in> A \<and> who \<noteq> account_id X T"
    and ok: "dispatch X T origin c st = Some (r, st')"
  shows "solvent free ed X T st' \<and> budget free A T st' \<le> budget free A T st"
proof
  from money have laws: "currency_laws X free ed" "balances_fit free" "lists_keys (ext_key_order X)"
      "finite A" "account_id X T \<in> A" by (simp_all add: sound_money_def)
  show "solvent free ed X T st'"
    using dispatch_keeps_solvent [OF laws(1) ok _ inv] who by blast
  have "holdings free A (balances st') \<le> holdings free A (balances st)
      + (if is_validation c \<and> r = Inr () then unat (cfg_BlockReward T) else 0)"
    by (rule dispatch_holdings [OF laws(1-3) inv laws(4,5) _ ok]) (use who in blast)
  with ok show "budget free A T st' \<le> budget free A T st"
    using dispatch_phase [OF ok]
    by (cases c) (auto simp: budget_def is_submission_def is_validation_def split: if_splits)
qed

interpretation spending: invariant_system "within_block X T foreign A"
  "\<lambda>st. sound_money X T free ed A foreign \<and> solvent free ed X T st \<and> budget free A T st \<le> b"
  for X :: "('acc::linorder, 'bal) Externals" and T foreign A free ed b
proof unfold_locales
  fix s t :: "('acc, 'bal) Storage"
  assume I: "sound_money X T free ed A foreign \<and> solvent free ed X T s \<and> budget free A T s \<le> b"
    and step: "within_block X T foreign A s t"
  from step have "solvent free ed X T t \<and> budget free A T t \<le> budget free A T s"
  proof cases
    case (call origin c r)
    then show ?thesis using dispatch_budget [of X T free ed A foreign s origin c r t] I by blast
  next
    case (move bal)
    then show ?thesis
      using I by (fastforce simp: sound_money_def spares_escrow_def creates_none_def solvent_def budget_def)
  qed
  with I show "sound_money X T free ed A foreign \<and> solvent free ed X T t \<and> budget free A T t \<le> b"
    by (blast intro: order.trans)
qed

lemma whole_block_budget:
  assumes money: "sound_money X T free ed A foreign" and inv: "solvent free ed X T st"
    and block: "whole_block X T foreign A st st'"
  shows "solvent free ed X T st' \<and> CurrentPhase st' \<noteq> Finalization
    \<and> holdings free A (balances st') \<le> budget free A T st"
proof -
  obtain n w begun finished where n: "n = system_block_number st + 1"
    and init: "on_initialize X T n (st\<lparr>system_block_number := n, system_events := []\<rparr>) = Some (w, begun)"
    and run: "(within_block X T foreign A)\<^sup>*\<^sup>* begun finished" and st': "st' = on_finalize n finished"
    using block unfolding whole_block_def by blast
  note fields = on_initialize_fields [OF init]
  have "solvent free ed X T begun"
    using inv fields(6,9) stakes_shrink_sum [OF fields(9)]
    by (auto simp: solvent_def stakes_shrink_def intro: order.trans)
  moreover have "budget free A T begun = budget free A T st" using fields(1,6) by (simp add: budget_def)
  ultimately have "solvent free ed X T finished \<and> budget free A T finished \<le> budget free A T st"
    using spending.run_keeps [OF run, of free ed "budget free A T st"] money by simp
  then show ?thesis by (auto simp: st' on_finalize_def solvent_def budget_def split: if_splits)
qed

section \<open>Properties\<close>

text \<open>
  C15: The supply grows by at most one block reward per block of the chain: whatever calls the blocks
  hold, accepted or not, and in whatever order, what all accounts in use hold together after \<open>k\<close>
  blocks is at most \<open>k\<close> times \<open>BlockReward\<close> more than before, also when products of the reward
  computation wrap around, and the stakes stay covered. (The start is solvent, and the currency
  obeys its laws.)
\<close>

theorem supply_grows_by_one_reward_per_block:
  assumes "sound_money X T free ed A foreign" and "solvent free ed X T st"
    and "(whole_block X T foreign A ^^ k) st st'"
  shows "solvent free ed X T st'
    \<and> holdings free A (balances st') \<le> holdings free A (balances st) + k * unat (cfg_BlockReward T)"
  using assms(3)
proof (induction k arbitrary: st')
  case (Suc k)
  then obtain mid where "(whole_block X T foreign A ^^ k) st mid" and last: "whole_block X T foreign A mid st'"
    by auto
  with Suc.IH have mid: "solvent free ed X T mid"
    "holdings free A (balances mid) \<le> holdings free A (balances st) + k * unat (cfg_BlockReward T)" by blast+
  from whole_block_budget [OF assms(1) mid(1) last] mid(2) show ?case
    by (auto simp: budget_def split: if_splits)
qed (use assms(2) in simp)

theorem supply_grows_by_one_reward_per_block_witness:
  "\<exists>st' st''. dispatch (sample_externals 1) runtime_config (Signed 2) (Validate_block 1 (PqcSignature [7])) sample_chain
      = Some (Inr (), st')
    \<and> whole_block (sample_externals 1) runtime_config (=) {2, 3, 7, 999} (sample_chain\<lparr>system_block_number := 4\<rparr>) st''
    \<and> st'' = on_finalize 5 st'
    \<and> holdings ledger_free {2, 3, 7, 999} (balances st'') \<le> 4000 + 10000000000000"
proof -
  let ?X = "sample_externals 1" and ?A = "{2, 3, 7, 999}" and ?st = "sample_chain\<lparr>system_block_number := 4\<rparr>"
  obtain st' where st': "dispatch ?X runtime_config (Signed 2) (Validate_block 1 (PqcSignature [7])) sample_chain
      = Some (Inr (), st')"
    using validate_block_elected [OF sample_chain_voting, of 1 _ 7 2] sample_chain_elected by auto
  have "within_block ?X runtime_config (=) ?A sample_chain st'"
    by (rule within_block.call [OF _ st']) auto
  moreover have "on_initialize ?X runtime_config 5 sample_chain = Some (Weight 10000 0, sample_chain)"
    by (simp add: on_initialize_def)
  moreover have "?st\<lparr>system_block_number := 5, system_events := []\<rparr> = sample_chain"
    by (simp add: sample_chain_def genesis_storage_def)
  ultimately have block: "whole_block ?X runtime_config (=) ?A ?st (on_finalize 5 st')"
    unfolding whole_block_def by (intro exI [of _ 5] exI [of _ sample_chain] exI [of _ st'] exI [of _ "Weight 10000 0"]) auto
  have "balances sample_chain = (\<lambda>_. 1000)" by (simp add: sample_chain_def genesis_storage_def)
  then have start: "holdings ledger_free ?A (balances ?st) = 4000"
    and solvent: "solvent ledger_free 1 ?X runtime_config ?st"
    using sample_chain_stakes by (simp_all add: holdings_def ledger_free_def solvent_def escrow_free_def)
  have "balances_fit (ledger_free :: u64 \<Rightarrow> _)"
    using unat_bound [where 'a = 128] by (simp add: balances_fit_def ledger_free_def)
  then have "sound_money ?X runtime_config ledger_free 1 ?A (=)"
    using sample_laws [of 1] by (simp add: sound_money_def lists_keys_sorted spares_escrow_def creates_none_def)
  moreover have "(whole_block ?X runtime_config (=) ?A ^^ 1) ?st (on_finalize 5 st')"
    using block by (simp only: relpowp_1)
  ultimately have "holdings ledger_free ?A (balances (on_finalize 5 st'))
      \<le> holdings ledger_free ?A (balances ?st) + 1 * unat (cfg_BlockReward runtime_config)"
    using supply_grows_by_one_reward_per_block [OF _ solvent] by blast
  with start have "holdings ledger_free ?A (balances (on_finalize 5 st')) \<le> 4000 + unat (cfg_BlockReward runtime_config)"
    by (simp only: nat_mult_1)
  then have "holdings ledger_free ?A (balances (on_finalize 5 st')) \<le> 4000 + 10000000000000"
    by (simp only: runtime_config_def Config.simps) simp
  with st' block show ?thesis by blast
qed

end
