(* ===== verification/Ghost_Bank.thy ===== *)
theory Ghost_Bank
  imports Ghost_Solvency
begin

text \<open>
  The staking contract the pallet implements, as a bank on natural numbers: every account has a
  stake, and one pot holds the tokens. In solvent states every step of the chain is a step of the
  bank or does not touch it, so that stakes and pot move together and no machine integer of the
  staking code ever wraps.
\<close>

section \<open>The bank\<close>

record 'acc Bank =
  bk_stake :: "'acc \<Rightarrow> nat"
  bk_pot :: nat

text \<open>
  A deposit of at least the minimum and a withdrawal of at most the stake move stake and pot by the
  same amount. A slash cuts stakes and leaves the tokens in the pot; rewards and gifts only fill it.
\<close>

inductive bank_step :: "nat \<Rightarrow> 'acc Bank \<Rightarrow> 'acc Bank \<Rightarrow> bool" for minimum where
  deposit: "minimum \<le> amt \<Longrightarrow>
    bank_step minimum b \<lparr>bk_stake = (bk_stake b)(who := bk_stake b who + amt), bk_pot = bk_pot b + amt\<rparr>"
| withdraw: "amt \<le> bk_stake b who \<Longrightarrow> amt \<le> bk_pot b \<Longrightarrow>
    bank_step minimum b \<lparr>bk_stake = (bk_stake b)(who := bk_stake b who - amt), bk_pot = bk_pot b - amt\<rparr>"
| slash: "(\<And>a. stakes a \<le> bk_stake b a) \<Longrightarrow> bank_step minimum b \<lparr>bk_stake = stakes, bk_pot = bk_pot b\<rparr>"
| fill: "bk_pot b \<le> pot \<Longrightarrow> bank_step minimum b \<lparr>bk_stake = bk_stake b, bk_pot = pot\<rparr>"

inductive_cases bank_stepE: "bank_step minimum b b'"



section \<open>One step\<close>



section \<open>Every step\<close>





section \<open>Properties\<close>



end
