(* ===== verification/Ghost_Links.thy ===== *)
theory Ghost_Links
  imports Ghost_Safety
begin

text \<open>
  The hash links between stored headers. A mined header names the hash of its parent as it was
  stored then; signing or replacing a header changes its hash. Links therefore survive exactly as
  long as nobody writes a header that has a stored successor, which neither \<open>submit_block\<close> nor
  \<open>validate_block\<close> prevents.
\<close>

section \<open>The invariant\<close>

definition all_linked :: "('acc, 'bal) Externals \<Rightarrow> ('acc, 'bal) Storage \<Rightarrow> bool" where
  "all_linked X st \<longleftrightarrow> (\<forall>n h p. BlockProducers st n \<noteq> None \<longrightarrow> BlockHeaders st n = Some h
     \<longrightarrow> BlockHeaders st (n - 1) = Some p \<longrightarrow> bh_parent_hash h = ext_hash_of_header X p)"

lemma all_linkedD:
  "all_linked X st \<Longrightarrow> BlockProducers st n \<noteq> None \<Longrightarrow> BlockHeaders st n = Some h
    \<Longrightarrow> BlockHeaders st (n - 1) = Some p \<Longrightarrow> bh_parent_hash h = ext_hash_of_header X p"
  by (simp add: all_linked_def)

text \<open>A change of headers that leaves alone what has a stored successor.\<close>

definition tip_only :: "('acc, 'bal) Storage \<Rightarrow> ('acc, 'bal) Storage \<Rightarrow> bool" where
  "tip_only s t \<longleftrightarrow> (\<forall>n. BlockHeaders t n \<noteq> BlockHeaders s n \<longrightarrow> BlockHeaders s (n + 1) = None)"

lemma pred_differs [simp]: "n - 1 \<noteq> (n :: u32)"
  by simp

lemma header_written_keeps_links:
  assumes linked: "all_linked X s" and tip: "tip_only s t"
    and headers: "BlockHeaders t = (BlockHeaders s)(m \<mapsto> h)"
    and producers: "\<And>n. n \<noteq> m \<Longrightarrow> BlockProducers t n = BlockProducers s n"
    and own: "\<And>p. BlockHeaders s (m - 1) = Some p \<Longrightarrow> BlockProducers t m \<noteq> None \<Longrightarrow>
      bh_parent_hash h = ext_hash_of_header X p"
  shows "all_linked X t"
  unfolding all_linked_def
proof (intro allI impI)
  fix n h' p
  assume mined: "BlockProducers t n \<noteq> None" and h': "BlockHeaders t n = Some h'"
    and p: "BlockHeaders t (n - 1) = Some p"
  show "bh_parent_hash h' = ext_hash_of_header X p"
  proof (cases "n = m")
    case True
    then show ?thesis using mined h' p own headers by auto
  next
    case False
    then have stored: "BlockHeaders s n = Some h'" and "BlockProducers s n \<noteq> None"
      using mined h' headers producers by auto
    moreover have "BlockHeaders s (n - 1) = Some p"
      using tip p stored by (auto simp: tip_only_def dest!: spec [of _ "n - 1"])
    ultimately show ?thesis using all_linkedD [OF linked] by blast
  qed
qed

interpretation links: invariant_system "\<lambda>s t. chain_step X T foreign s t \<and> tip_only s t" "all_linked X"
  for X :: "('acc::linorder, 'bal) Externals" and T foreign
proof unfold_locales
  fix s t :: "('acc, 'bal) Storage"
  assume linked: "all_linked X s" and both: "chain_step X T foreign s t \<and> tip_only s t"
  then have step: "chain_step X T foreign s t" and tip: "tip_only s t" by blast+
  from step show "all_linked X t"
  proof (cases rule: chain_step_cases)
    case same
    then show ?thesis using linked by (simp add: all_linked_def)
  next
    case (submitted miner h p)
    then have "header_valid X (Difficulty s) h p" by (intro accepted_has_pow)
    then show ?thesis
      using submitted by (intro header_written_keeps_links [OF linked tip]) (auto simp: header_valid_def)
  next
    case (validated v n sig h w m rw bal)
    then show ?thesis
      using all_linkedD [OF linked, of n h] by (intro header_written_keeps_links [OF linked tip]) auto
  next
    case finalized
    then show ?thesis using linked by (simp add: all_linked_def)
  qed
qed

section \<open>The history below a tip\<close>

text \<open>The headers \<open>n - k\<close> to \<open>n\<close> are stored, and all but the last of them were mined.\<close>

definition mined_back :: "('acc, 'bal) Storage \<Rightarrow> u32 \<Rightarrow> nat \<Rightarrow> bool" where
  "mined_back st n k \<longleftrightarrow> (\<forall>i \<le> k. BlockHeaders st (n - of_nat i) \<noteq> None)
     \<and> (\<forall>i < k. BlockProducers st (n - of_nat i) \<noteq> None)"

lemma mined_back_mono: "mined_back st n k \<Longrightarrow> j \<le> k \<Longrightarrow> mined_back st n j"
  by (auto simp: mined_back_def)

lemma parent_named:
  assumes "all_linked X st" and "mined_back st n (Suc k)"
  obtains h p where "BlockHeaders st (n - of_nat k) = Some h" "BlockHeaders st (n - of_nat (Suc k)) = Some p"
    "bh_parent_hash h = ext_hash_of_header X p"
proof -
  from assms(2) have "BlockHeaders st (n - of_nat k) \<noteq> None" "BlockHeaders st (n - of_nat (Suc k)) \<noteq> None"
    "BlockProducers st (n - of_nat k) \<noteq> None"
    unfolding mined_back_def by (meson le_SucI lessI order_refl)+
  then obtain h p where "BlockHeaders st (n - of_nat k) = Some h" "BlockHeaders st (n - of_nat (Suc k)) = Some p"
    "BlockProducers st (n - of_nat k) \<noteq> None" by blast
  moreover have "n - of_nat (Suc k) = n - of_nat k - 1" by simp
  ultimately show thesis using all_linkedD [OF assms(1), of "n - of_nat k" h p] that by metis
qed

lemma same_history:
  assumes "all_linked X s" and "all_linked X t"
    and "inj_on (ext_hash_of_header X) (ran (BlockHeaders s) \<union> ran (BlockHeaders t))"
    and "mined_back s n k" and "mined_back t n k" and "BlockHeaders s n = BlockHeaders t n"
  shows "BlockHeaders s (n - of_nat k) = BlockHeaders t (n - of_nat k)"
  using assms(4,5)
proof (induction k)
  case (Suc k)
  then have same: "BlockHeaders s (n - of_nat k) = BlockHeaders t (n - of_nat k)"
    by (meson mined_back_mono le_SucI order_refl)
  obtain h p where h: "BlockHeaders s (n - of_nat k) = Some h" "BlockHeaders s (n - of_nat (Suc k)) = Some p"
      "bh_parent_hash h = ext_hash_of_header X p"
    by (rule parent_named [OF assms(1) Suc.prems(1)])
  obtain h' p' where h': "BlockHeaders t (n - of_nat k) = Some h'" "BlockHeaders t (n - of_nat (Suc k)) = Some p'"
      "bh_parent_hash h' = ext_hash_of_header X p'"
    by (rule parent_named [OF assms(2) Suc.prems(2)])
  have "ext_hash_of_header X p = ext_hash_of_header X p'" using h h' same by simp
  then have "p = p'" using assms(3) h(2) h'(2) by (auto simp: inj_on_def ran_def)
  then show ?case using h(2) h'(2) by simp
qed (simp add: assms(6))

section \<open>Properties\<close>

text \<open>
  C8: As long as only headers without a stored successor are written, the stored chain stays hash
  linked: every mined header names the hash of its parent as it is stored, with its signatures.
\<close>

theorem tip_writes_keep_links:
  assumes "all_linked X st"
    and "(\<lambda>s t. chain_step X T foreign s t \<and> tip_only s t)\<^sup>*\<^sup>* st st'"
    and "BlockProducers st' n \<noteq> None" and "BlockHeaders st' n = Some h"
    and "BlockHeaders st' (n - 1) = Some p"
  shows "bh_parent_hash h = ext_hash_of_header X p"
  using links.run_keeps [OF assms(2,1)] assms(3-5) by (rule all_linkedD)

text \<open>
  C13: The tip determines the history: take two runs, of any two nodes or configurations, in which
  only headers without a stored successor are written. If they end with the same header at height
  \<open>n\<close>, they have the same header at every height down to which both stored mined blocks, unless two
  of the headers they store have the same hash.
\<close>

theorem same_tip_same_history:
  assumes "all_linked X s" and "(\<lambda>s t. chain_step X T foreign s t \<and> tip_only s t)\<^sup>*\<^sup>* s s'"
    and "all_linked X t" and "(\<lambda>s t. chain_step X T' foreign' s t \<and> tip_only s t)\<^sup>*\<^sup>* t t'"
    and "BlockHeaders s' n = BlockHeaders t' n" and "mined_back s' n k" and "mined_back t' n k"
    and "inj_on (ext_hash_of_header X) (ran (BlockHeaders s') \<union> ran (BlockHeaders t'))"
  shows "\<forall>i \<le> k. BlockHeaders s' (n - of_nat i) = BlockHeaders t' (n - of_nat i)"
  using same_history [OF links.run_keeps [OF assms(2,1)] links.run_keeps [OF assms(4,3)] assms(8)]
    mined_back_mono [OF assms(6)] mined_back_mono [OF assms(7)] assms(5) by blast


text \<open>Hashes that depend on the nonce; block 1 is replaced by one with another nonce under block 2.\<close>

definition nonce_externals :: "(u64, u64 ledger) Externals" where
  "nonce_externals = (sample_externals 1)\<lparr>ext_hash_of_header := (\<lambda>h. ucast (bh_nonce h))\<rparr>"

definition sample_links :: "(u64, u64 ledger) Storage" where
  "sample_links = (genesis_storage (\<lambda>_. 1000))\<lparr>Difficulty := 100,
     BlockHeaders := [0 \<mapsto> sample_parent, 1 \<mapsto> sample_child\<lparr>bh_parent_hash := 0\<rparr>,
       2 \<mapsto> sample_child\<lparr>bh_number := 2, bh_parent_hash := 90\<rparr>],
     BlockProducers := [1 \<mapsto> 7, 2 \<mapsto> 8]\<rparr>"

lemma sample_links_simps [simp]:
  "BlockHeaders sample_links = [0 \<mapsto> sample_parent, 1 \<mapsto> sample_child\<lparr>bh_parent_hash := 0\<rparr>,
       2 \<mapsto> sample_child\<lparr>bh_number := 2, bh_parent_hash := 90\<rparr>]"
  "BlockProducers sample_links = [1 \<mapsto> 7, 2 \<mapsto> 8]" "CurrentPhase sample_links = PowMining"
  "Difficulty sample_links = 100" "system_block_number sample_links = 0"
  "ext_hash_of_header nonce_externals h = ucast (bh_nonce h)"
  by (simp_all add: sample_links_def nonce_externals_def genesis_storage_def ConsensusPhase_default_def)

lemma nonce_pow [simp]: "verify_pow_enhanced nonce_externals h t \<longleftrightarrow> bh_nonce h \<le> t"
  by (simp add: nonce_externals_def verify_pow_enhanced_def pow_input_of_def)

lemma sample_links_ok: "headers_sound nonce_externals sample_links" "all_linked nonce_externals sample_links"
  by (auto simp: headers_sound_def all_linked_def sample_headers split: if_splits)

theorem tip_writes_keep_links_witness:
  "bh_parent_hash (sample_child\<lparr>bh_parent_hash := 0\<rparr>) = ext_hash_of_header nonce_externals sample_parent"
proof (rule tip_writes_keep_links [where n = 1, OF sample_links_ok(2)])
  show "(\<lambda>s t. chain_step nonce_externals runtime_config (=) s t \<and> tip_only s t)\<^sup>*\<^sup>* sample_links
      (on_finalize 0 sample_links)"
    using chain_step.block_ends [of nonce_externals runtime_config "(=)" sample_links]
    by (intro r_into_rtranclp) (simp add: tip_only_def)
qed (simp_all add: sample_headers)

text \<open>A chain of one block, and the same at the end of the runtime's block.\<close>

definition sample_short :: "ConsensusPhase \<Rightarrow> (u64, u64 ledger) Storage" where
  "sample_short phase = sample_links\<lparr>CurrentPhase := phase,
     BlockHeaders := [0 \<mapsto> sample_parent, 1 \<mapsto> sample_child\<lparr>bh_parent_hash := 0\<rparr>]\<rparr>"

theorem same_tip_same_history_witness:
  "BlockHeaders (sample_short PowMining) 0 = BlockHeaders (on_finalize 0 (sample_short Finalization)) 0"
proof -
  have linked: "all_linked nonce_externals (sample_short phase)" for phase
    by (auto simp: all_linked_def sample_short_def sample_headers split: if_splits)
  have step: "chain_step nonce_externals runtime_config (=) (sample_short Finalization)
      (on_finalize 0 (sample_short Finalization))"
    using chain_step.block_ends [of nonce_externals runtime_config "(=)" "sample_short Finalization"]
    by (simp add: sample_short_def)
  have mined: "mined_back (sample_short PowMining) 1 1" "mined_back (on_finalize 0 (sample_short Finalization)) 1 1"
    by (auto simp: mined_back_def sample_short_def on_finalize_def le_Suc_eq)
  have "inj_on (ext_hash_of_header nonce_externals) (ran (BlockHeaders (sample_short PowMining))
      \<union> ran (BlockHeaders (on_finalize 0 (sample_short Finalization))))"
    by (auto simp: inj_on_def ran_def sample_short_def on_finalize_def sample_headers split: if_splits)
  then have "\<forall>i \<le> 1. BlockHeaders (sample_short PowMining) (1 - of_nat i)
      = BlockHeaders (on_finalize 0 (sample_short Finalization)) (1 - of_nat i)"
    by (intro same_tip_same_history [OF linked rtranclp.rtrancl_refl linked r_into_rtranclp _ mined])
      (use step in \<open>simp_all add: tip_only_def sample_short_def on_finalize_def\<close>)
  then show ?thesis by (auto dest: spec [of _ 1])
qed



end
