(* ===== verification/Ghost_Shannon.thy ===== *)
theory Ghost_Shannon
  imports Ghost_Entropy Complex_Main
begin

text \<open>
  How well the fixed-point entropy approximates the Shannon entropy. The code's logarithm joins the
  powers of two by straight lines; on \<open>[1, 2]\<close> the chord \<open>y - 1\<close> lies below \<open>log 2 y\<close> by at most 0.108,
  which a tangent and rational bounds of \<open>ln 2\<close> show. The entropy of the window inherits this.
\<close>

section \<open>The logarithm between two powers of two\<close>

lemma ln_2_bounds: "2 / 3 \<le> ln (2 :: real)" "ln (2 :: real) \<le> 698 / 1000"
proof -
  have "exp (2 / 3 :: real) = exp (1 / 12) ^ 8" by (simp flip: exp_of_nat_mult)
  also have "\<dots> \<le> (1 + 1 / 12 + (1 / 12)\<^sup>2) ^ 8"
    by (intro power_mono exp_bound) auto
  also have "\<dots> \<le> 2" by (simp add: power_divide field_simps)
  finally show "2 / 3 \<le> ln (2 :: real)" by (subst ln_ge_iff) auto
  have "(2 :: real) \<le> (1 + 1745 / 10000 + (1745 / 10000)\<^sup>2 / 2) ^ 4" by (simp add: power_divide)
  also have "\<dots> \<le> exp (1745 / 10000) ^ 4"
    by (intro power_mono exp_lower_Taylor_quadratic) auto
  also have "\<dots> = exp (698 / 1000)" by (simp flip: exp_of_nat_mult)
  finally have "ln (2 :: real) \<le> ln (exp (698 / 1000))" by (subst ln_le_cancel_iff) auto
  then show "ln (2 :: real) \<le> 698 / 1000" by (simp only: ln_exp)
qed

lemma chord_below:
  assumes "0 \<le> f" and "f \<le> (1 :: real)"
  shows "f \<le> log 2 (1 + f)"
proof -
  let ?y = "1 + f"
  have y: "0 < ?y" using assms by simp
  have "(1 - f) * ln (1 / ?y) + f * ln (2 / ?y) \<le> (1 - f) * (1 / ?y - 1) + f * (2 / ?y - 1)"
    using assms y by (intro add_mono mult_left_mono ln_le_minus_one) auto
  also have "\<dots> = 0" using y by (simp add: field_simps)
  finally have "f * ln 2 \<le> ln ?y"
    using y by (simp add: ln_div algebra_simps)
  then show ?thesis by (simp add: log_def pos_le_divide_eq)
qed

lemma log_three_halves: "log 2 (3 / 2) \<le> (24 / 41 :: real)"
proof -
  have "real 41 * log 2 (3 / 2) = log 2 ((3 / 2) ^ 41)" by (subst log_nat_power) auto
  also have "\<dots> \<le> log 2 (2 ^ 24)" by (subst log_le_cancel_iff) (simp_all add: power_divide)
  also have "\<dots> = 24" by (subst log_nat_power) auto
  finally show ?thesis by simp
qed

lemma tangent_above:
  assumes "0 \<le> f" and "f \<le> (1 :: real)"
  shows "log 2 (1 + f) \<le> f + 108 / 1000"
proof -
  define s where "s = 2 / (3 * ln (2 :: real))"
  have s: "2 / (3 * (698 / 1000)) \<le> s" "s \<le> 1"
    unfolding s_def using ln_2_bounds by (auto simp: field_simps intro: order.trans)
  have quotient: "ln ((1 + f) / (3 / 2)) = ln (1 + f) - ln (3 / 2)"
    using assms by (subst ln_div) auto
  have "ln ((1 + f) / (3 / 2)) \<le> (1 + f) / (3 / 2) - 1"
    using assms by (intro ln_le_minus_one) auto
  then have "ln (1 + f) \<le> ln (3 / 2) + 2 / 3 * (f - 1 / 2)" unfolding quotient by argo
  then have "log 2 (1 + f) \<le> log 2 (3 / 2) + s * (f - 1 / 2)"
    unfolding log_def s_def by (simp add: field_simps)
  also have "\<dots> \<le> 24 / 41 + s * (f - 1 / 2)" using log_three_halves by simp
  also have "\<dots> \<le> f + 108 / 1000"
  proof (cases "f \<le> 1 / 2")
    case True
    have "s * (f - 1 / 2) \<le> 2 / (3 * (698 / 1000)) * (f - 1 / 2)"
      using s True by (intro mult_right_mono_neg) auto
    then show ?thesis using assms True by (simp add: field_simps)
  next
    case False
    have "s * (f - 1 / 2) \<le> 1 * (f - 1 / 2)"
      using s False by (intro mult_right_mono) auto
    then show ?thesis using assms by simp
  qed
  finally show ?thesis .
qed

section \<open>The scaled logarithm\<close>

lemma div_bounds:
  "real (m div n) \<le> real m / real n" "real m / real n - real (m div n) \<le> 1"
proof -
  show "real (m div n) \<le> real m / real n" by (rule of_nat_div_le_of_nat)
  show "real m / real n - real (m div n) \<le> 1"
  proof (cases "n = 0")
    case False
    then have "real m \<le> real (n + n * (m div n))"
      using dividend_less_times_div [of n m] by (intro of_nat_mono) simp
    with False show ?thesis by (simp add: field_simps)
  qed simp
qed

lemma log2_scaled_close:
  assumes "1 \<le> n"
  shows "real (log2_scaled n) \<le> 1000000 * log 2 (real n)"
    and "1000000 * log 2 (real n) \<le> real (log2_scaled n) + 108001"
proof -
  define k where "k = ilog2 n"
  define f where "f = real (n - 2 ^ k) / 2 ^ k"
  have b: "2 ^ k \<le> n" "n < 2 * 2 ^ k" using ilog2_bounds [OF assms] by (auto simp: k_def)
  then have "real (n - 2 ^ k) \<le> real (2 ^ k)" by (intro of_nat_mono) simp
  then have f: "0 \<le> f" "f \<le> 1" by (simp_all add: f_def)
  have n: "real n = 2 ^ k * (1 + f)" using b by (simp add: f_def of_nat_diff field_simps)
  have log: "log 2 (real n) = real k + log 2 (1 + f)"
    using f by (simp add: n log_mult log_nat_power)
  let ?q = "(n - 2 ^ k) * 1000000 div 2 ^ k"
  have "real ?q \<le> real ((n - 2 ^ k) * 1000000) / real (2 ^ k)" by (rule div_bounds)
  moreover have "real ((n - 2 ^ k) * 1000000) / real (2 ^ k) - real ?q \<le> 1" by (rule div_bounds)
  moreover have "real ((n - 2 ^ k) * 1000000) / real (2 ^ k) = 1000000 * f" by (simp add: f_def)
  ultimately have q: "real ?q \<le> 1000000 * f" "1000000 * f \<le> real ?q + 1" by auto
  have L: "real (log2_scaled n) = 1000000 * real k + real ?q" by (simp add: log2_scaled_def k_def)
  show "real (log2_scaled n) \<le> 1000000 * log 2 (real n)"
    using chord_below [OF f] q(1) by (simp add: L log)
  show "1000000 * log 2 (real n) \<le> real (log2_scaled n) + 108001"
    using tangent_above [OF f] q(2) by (simp add: L log)
qed

section \<open>The entropy\<close>

definition shannon :: "'acc list \<Rightarrow> real" where
  "shannon ps = (\<Sum>p \<in> set ps. real (count_list ps p) / real (length ps)
     * log 2 (real (length ps) / real (count_list ps p)))"

lemma rounded_close: "\<bar>a - b\<bar> \<le> e \<Longrightarrow> x \<le> a \<Longrightarrow> a \<le> x + 1 \<Longrightarrow> \<bar>x - b\<bar> \<le> e + 1" for a b x e :: real
  by linarith

lemma share_close:
  assumes "1 \<le> c" and "c \<le> n"
  shows "\<bar>real (share n c) - 1000000 * (real c / real n * log 2 (real n / real c))\<bar>
    \<le> real c / real n * 108001 + 1"
proof -
  let ?w = "real c / real n" and ?d = "real (log2_scaled n) - real (log2_scaled c)"
  have n: "0 < n" using assms by simp
  have "log2_scaled c \<le> log2_scaled n" by (rule log2_scaled_mono [OF assms])
  then have "real (c * (log2_scaled n - log2_scaled c)) / real n = ?w * ?d"
    by (simp add: of_nat_diff)
  moreover have "real (share n c) \<le> real (c * (log2_scaled n - log2_scaled c)) / real n"
    unfolding share_def by (rule div_bounds)
  moreover have "real (c * (log2_scaled n - log2_scaled c)) / real n - real (share n c) \<le> 1"
    unfolding share_def by (rule div_bounds)
  ultimately have rounding: "real (share n c) \<le> ?w * ?d" "?w * ?d \<le> real (share n c) + 1" by auto
  have quotient: "log 2 (real n / real c) = log 2 (real n) - log 2 (real c)"
    using assms n by (simp add: log_divide)
  have "\<bar>?d - 1000000 * log 2 (real n / real c)\<bar> \<le> 108001"
    using log2_scaled_close [of n] log2_scaled_close [of c] assms by (simp add: quotient)
  then have "?w * \<bar>?d - 1000000 * log 2 (real n / real c)\<bar> \<le> ?w * 108001"
    by (intro mult_left_mono) auto
  moreover have split: "?w * ?d - 1000000 * (?w * log 2 (real n / real c))
      = ?w * (?d - 1000000 * log 2 (real n / real c))" by (simp add: algebra_simps)
  ultimately have "\<bar>?w * ?d - 1000000 * (?w * log 2 (real n / real c))\<bar> \<le> ?w * 108001"
    unfolding split abs_mult by simp
  then show ?thesis using rounding by (rule rounded_close)
qed

lemma entropy_nat_close:
  "\<bar>real (entropy_nat ps) - 1000000 * shannon ps\<bar> \<le> 108001 + real (length ps)"
proof (cases "ps = []")
  case False
  let ?n = "length ps" and ?c = "count_list ps"
  let ?h = "\<lambda>p. real (?c p) / real ?n * log 2 (real ?n / real (?c p))"
  have c: "1 \<le> ?c p" "?c p \<le> ?n" if "p \<in> set ps" for p
    using that count_list_0_iff [of ps p] by (auto simp: count_le_length Suc_le_eq)
  have "real (entropy_nat ps) - 1000000 * shannon ps
      = (\<Sum>p \<in> set ps. real (share ?n (?c p)) - 1000000 * ?h p)"
    by (simp add: entropy_nat_def shannon_def sum_subtractf sum_distrib_left)
  also have "\<bar>\<dots>\<bar> \<le> (\<Sum>p \<in> set ps. real (?c p) / real ?n * 108001 + 1)"
    by (rule order.trans [OF sum_abs]) (intro sum_mono share_close c)
  also have "\<dots> = (\<Sum>p \<in> set ps. real (?c p)) / real ?n * 108001 + real (card (set ps))"
    by (simp add: sum.distrib sum_distrib_right sum_divide_distrib)
  also have "(\<Sum>p \<in> set ps. real (?c p)) = real ?n"
    using sum_count_set [of ps "set ps"] by (simp flip: of_nat_sum)
  also have "real ?n / real ?n * 108001 + real (card (set ps)) \<le> 108001 + real ?n"
    using False card_length [of ps] by simp
  finally show ?thesis .
qed (simp add: entropy_nat_def shannon_def)

section \<open>Properties\<close>

text \<open>
  C35: The entropy the pallet computes is the Shannon entropy of the window, in millionths, up to an
  error of 0.11 bits, for windows of up to 1000 producers (the pallet keeps 100).
\<close>

theorem entropy_approximates_shannon:
  assumes "length ps \<le> 1000"
  shows "\<exists>e. calculate_entropy chk ps = Some e \<and> \<bar>real (unat e) / 1000000 - shannon ps\<bar> \<le> 0.11"
proof -
  obtain e where e: "calculate_entropy chk ps = Some e" "unat e = entropy_nat ps"
    using calculate_entropy_eq [of ps chk] assms by auto
  have "\<bar>real (unat e) - 1000000 * shannon ps\<bar> \<le> 110000"
    using entropy_nat_close [of ps] assms by (simp add: e(2))
  then have "\<bar>real (unat e) / 1000000 - shannon ps\<bar> \<le> 0.11" by (simp add: abs_le_iff field_simps)
  with e(1) show ?thesis by blast
qed

theorem entropy_approximates_shannon_witness:
  "\<exists>e. calculate_entropy True [4, 9, 4, 4 :: nat] = Some e \<and> \<bar>real (unat e) / 1000000 - shannon [4, 9, 4, 4 :: nat]\<bar> \<le> 0.11"
  by (rule entropy_approximates_shannon) simp

end
