(* ===== verification/Ghost_Downtime.thy ===== *)
theory Ghost_Downtime
  imports Ghost_Safety
begin

text \<open>
  What the downtime check of \<open>on_initialize\<close> does to a validator over time. The check compares the
  block number of \<open>frame_system\<close> with \<open>LastActiveBlock\<close>, which holds the number of the pallet
  header that was validated; and it forgets nothing, so that one absence is punished at every
  tenth block until it ends. Blocks without extrinsics are run as the runtime runs them.
\<close>

section \<open>Blocks without extrinsics\<close>

definition empty_block ::
  "('acc::linorder, 'bal) Externals \<Rightarrow> Config \<Rightarrow> ('acc, 'bal) Storage \<Rightarrow> ('acc, 'bal) Storage option" where
  "empty_block X T st =
     (let n = system_block_number st + 1 in do {
        (w, st) \<leftarrow> on_initialize X T n (st\<lparr>system_block_number := n, system_events := []\<rparr>);
        Some (on_finalize n st)
      })"

primrec empty_blocks ::
  "('acc::linorder, 'bal) Externals \<Rightarrow> Config \<Rightarrow> nat \<Rightarrow> ('acc, 'bal) Storage \<Rightarrow> ('acc, 'bal) Storage option" where
  "empty_blocks X T 0 st = Some st"
| "empty_blocks X T (Suc k) st = Option.bind (empty_blocks X T k st) (empty_block X T)"

section \<open>One check\<close>

lemma on_initialize_slashes:
  assumes "lists_keys (ext_key_order X)" and "finite (dom (LastActiveBlock st))" and "slashable T st"
    and "on_initialize X T n st = Some (w, st')"
  shows "ValidatorStakes st' a = (if n mod 10 = 0 \<and> down T st a
      then map_option (cut_stake (cfg_DowntimeSlashPercentage T)) (ValidatorStakes st a)
      else ValidatorStakes st a)"
proof (cases "n mod 10 = 0")
  case True
  obtain mid where mid: "check_downtime_slashing X T st = Some mid"
    and stakes: "\<forall>a. ValidatorStakes mid a =
          (if down T st a then map_option (cut_stake (cfg_DowntimeSlashPercentage T)) (ValidatorStakes st a)
           else ValidatorStakes st a)"
    using check_downtime_eq [OF assms(1-3)] by blast
  have "ValidatorStakes st' = ValidatorStakes mid"
    using assms(4) True mid by (auto simp: on_initialize_def bind_eq_Some_conv adjust_difficulty_fields split: if_splits)
  with stakes True show ?thesis by simp
next
  case False
  then show ?thesis
    using assms(4) by (auto simp: on_initialize_def bind_eq_Some_conv adjust_difficulty_fields split: if_splits)
qed

lemma slashable_shrinks:
  assumes "slashable T st" and "stakes_shrink (ValidatorStakes st) (ValidatorStakes st')"
  shows "slashable T st'"
  unfolding slashable_def
proof
  fix v' assume "v' \<in> ran (ValidatorStakes st')"
  then obtain a where a: "ValidatorStakes st' a = Some v'" by (auto simp: ran_def)
  with assms(2) obtain v where v: "ValidatorStakes st a = Some v" by (fastforce simp: stakes_shrink_def)
  have "unat v' \<le> unat v"
    using assms(2) a v unfolding stakes_shrink_def by (metis value_at_simps(2))
  moreover have "unat v * unat (cfg_DowntimeSlashPercentage T) < 2 ^ 128"
    using assms(1) v by (auto simp: slashable_def ran_def)
  ultimately show "unat v' * unat (cfg_DowntimeSlashPercentage T) < 2 ^ 128"
    by (rule le_less_trans [OF mult_le_mono1])
qed

lemma down_later:
  assumes "down T st a" and "LastActiveBlock st' = LastActiveBlock st"
    and "unat (system_block_number st) \<le> unat (system_block_number st')"
  shows "down T st' a"
  using assms by (auto simp: down_def split: option.splits)

text \<open>What a run of empty blocks keeps, and what one of them does to a validator that is down.\<close>

definition idle :: "('acc, 'bal) Externals \<Rightarrow> Config \<Rightarrow> ('acc, 'bal) Storage \<Rightarrow> bool" where
  "idle X T st \<longleftrightarrow> lists_keys (ext_key_order X) \<and> finite (dom (LastActiveBlock st)) \<and> slashable T st
     \<and> length (RecentBlockProducers st) \<le> 100"

lemma empty_block_idle:
  assumes "idle X T st" and "unat (system_block_number st) + 1 < 2 ^ 32" and "down T st a"
  obtains st' where "empty_block X T st = Some st'" "idle X T st'" "down T st' a"
    "unat (system_block_number st') = unat (system_block_number st) + 1"
    "ValidatorStakes st' a = (if unat (system_block_number st') mod 10 = 0
      then map_option (cut_stake (cfg_DowntimeSlashPercentage T)) (ValidatorStakes st a)
      else ValidatorStakes st a)"
proof -
  let ?n = "system_block_number st + 1"
  let ?st = "st\<lparr>system_block_number := ?n, system_events := []\<rparr>"
  have n: "unat ?n = unat (system_block_number st) + 1" using assms(2) by (simp add: unat_add_fits)
  have n10: "?n mod 10 = 0 \<longleftrightarrow> unat ?n mod 10 = 0" by (simp add: word_unat_eq_iff unat_mod)
  have idle: "lists_keys (ext_key_order X)" "finite (dom (LastActiveBlock ?st))" "slashable T ?st"
      "length (RecentBlockProducers ?st) \<le> 2 ^ 32"
    using assms(1) by (simp_all add: idle_def slashable_def)
  obtain st1 where init: "on_initialize X T ?n ?st = Some (default_weight, st1)"
    using on_initialize_total [OF idle] by blast
  note fields = on_initialize_fields [OF init]
  have down: "down T ?st a" by (rule down_later [OF assms(3)]) (simp_all add: n)
  show thesis
  proof (rule that)
    show "empty_block X T st = Some (on_finalize ?n st1)" using init by (simp add: empty_block_def Let_def)
    show "idle X T (on_finalize ?n st1)"
      using idle fields(4,5) slashable_shrinks [OF idle(3) fields(9)] assms(1) by (simp add: idle_def slashable_def)
    show "unat (system_block_number (on_finalize ?n st1)) = unat (system_block_number st) + 1"
      using fields(7) n by (simp add: on_finalize_def)
    show "down T (on_finalize ?n st1) a"
      by (rule down_later [OF down]) (use fields(4,7) in \<open>simp_all add: on_finalize_def\<close>)
    show "ValidatorStakes (on_finalize ?n st1) a = (if unat (system_block_number (on_finalize ?n st1)) mod 10 = 0
      then map_option (cut_stake (cfg_DowntimeSlashPercentage T)) (ValidatorStakes st a)
      else ValidatorStakes st a)"
      using on_initialize_slashes [OF idle(1-3) init, of a] down fields(7) n10 by (simp add: on_finalize_def)
  qed
qed

text \<open>A tenth of the stake goes, rounded down; after \<open>c\<close> cuts little more than \<open>0.9 ^ c\<close> is left.\<close>

lemma ten_percent_cut:
  assumes "unat v * 10 < 2 ^ 128"
  shows "10 * unat (cut_stake 10 v) \<le> 9 * unat v + 9"
proof -
  have "unat (cut_stake 10 v) = unat v - unat v * 10 div 100" using unat_cut [of v 10] assms by simp
  moreover have "unat v * 10 div 100 = unat v div 10" using div_mult_mult2 [of 10 "unat v" 10] by simp
  moreover have "unat v = 10 * (unat v div 10) + unat v mod 10" and "unat v mod 10 < 10" by simp_all
  ultimately show ?thesis by linarith
qed

lemma cuts_compose:
  fixes left held cut :: nat
  assumes "10 ^ c * left \<le> 9 ^ c * held + 9 * 10 ^ c" and "10 * cut \<le> 9 * left + 9"
  shows "10 ^ Suc c * cut \<le> 9 ^ Suc c * held + 9 * 10 ^ Suc c"
proof -
  have "10 ^ Suc c * cut \<le> 10 ^ c * (9 * left + 9)"
    using mult_le_mono2 [OF assms(2), of "10 ^ c"] by (simp add: mult.assoc mult.left_commute)
  also have "\<dots> = 9 * (10 ^ c * left) + 9 * 10 ^ c" by (simp add: algebra_simps)
  also have "\<dots> \<le> 9 * (9 ^ c * held + 9 * 10 ^ c) + 9 * 10 ^ c" using assms(1) by simp
  also have "\<dots> = 9 ^ Suc c * held + 9 * 10 ^ Suc c" by simp
  finally show ?thesis .
qed

definition checks_between :: "nat \<Rightarrow> nat \<Rightarrow> nat" where
  "checks_between n k = (n + k) div 10 - n div 10"

lemma checks_between_simps [simp]:
  "checks_between n 0 = 0"
  "checks_between n (Suc k) = (if (n + k + 1) mod 10 = 0 then Suc (checks_between n k) else checks_between n k)"
proof -
  have "n div 10 \<le> (n + k) div 10" by (rule div_le_mono) simp
  then show "checks_between n (Suc k)
      = (if (n + k + 1) mod 10 = 0 then Suc (checks_between n k) else checks_between n k)"
    using div_Suc [of "n + k" 10]
    by (simp only: checks_between_def add_Suc_right Suc_eq_plus1 [symmetric] Suc_diff_le split: if_splits) simp_all
qed (simp add: checks_between_def)

lemma absent_run:
  assumes "idle X runtime_config st" and "down runtime_config st v" and "ValidatorStakes st v = Some held"
    and "unat (system_block_number st) + k < 2 ^ 32"
  shows "\<exists>st' left. empty_blocks X runtime_config k st = Some st' \<and> idle X runtime_config st'
    \<and> down runtime_config st' v \<and> unat (system_block_number st') = unat (system_block_number st) + k
    \<and> ValidatorStakes st' v = Some left
    \<and> (let c = checks_between (unat (system_block_number st)) k
       in 10 ^ c * unat left \<le> 9 ^ c * unat held + 9 * 10 ^ c)"
  using assms(4)
proof (induction k)
  case 0
  then show ?case using assms(1-3) by simp
next
  case (Suc k)
  let ?c = "checks_between (unat (system_block_number st)) k"
  obtain mid left where mid: "empty_blocks X runtime_config k st = Some mid" "idle X runtime_config mid"
      "down runtime_config mid v" "unat (system_block_number mid) = unat (system_block_number st) + k"
      "ValidatorStakes mid v = Some left" "10 ^ ?c * unat left \<le> 9 ^ ?c * unat held + 9 * 10 ^ ?c"
    using Suc by (auto simp: Let_def)
  obtain st' where st': "empty_block X runtime_config mid = Some st'" "idle X runtime_config st'"
      "down runtime_config st' v" "unat (system_block_number st') = unat (system_block_number mid) + 1"
      "ValidatorStakes st' v = (if unat (system_block_number st') mod 10 = 0
        then map_option (cut_stake (cfg_DowntimeSlashPercentage runtime_config)) (ValidatorStakes mid v)
        else ValidatorStakes mid v)"
    using empty_block_idle [OF mid(2) _ mid(3)] mid(4) Suc.prems by auto
  have "unat left * 10 < 2 ^ 128"
    using mid(2,5) by (auto simp: idle_def slashable_def ran_def runtime_config_def)
  from ten_percent_cut [OF this] have "10 ^ Suc ?c * unat (cut_stake 10 left) \<le> 9 ^ Suc ?c * unat held + 9 * 10 ^ Suc ?c"
    by (rule cuts_compose [OF mid(6)])
  then show ?case
    using mid(1,4-6) st' by (cases "unat (system_block_number st') mod 10 = 0")
      (simp_all add: Let_def runtime_config_def)
qed

section \<open>Properties\<close>

text \<open>
  C25: One absence is punished again and again. While no block is mined or validated, every tenth
  block takes another tenth of the stake of each validator that is down: after \<open>c\<close> such blocks at
  most \<open>0.9 ^ c\<close> of the stake and nine units are left.
\<close>

theorem absence_drains_stake:
  assumes "lists_keys (ext_key_order X)" and "finite (dom (LastActiveBlock st))"
    and "slashable runtime_config st" and "length (RecentBlockProducers st) \<le> 100"
    and "down runtime_config st v" and "ValidatorStakes st v = Some held"
    and "unat (system_block_number st) + k < 2 ^ 32"
    and "c = (unat (system_block_number st) + k) div 10 - unat (system_block_number st) div 10"
  shows "\<exists>st' left. empty_blocks X runtime_config k st = Some st' \<and> ValidatorStakes st' v = Some left
    \<and> 10 ^ c * unat left \<le> 9 ^ c * unat held + 9 * 10 ^ c"
  using absent_run [of X st v held k] assms by (auto simp: idle_def Let_def checks_between_def)

theorem absence_drains_stake_witness:
  "\<exists>st' left. empty_blocks (sample_externals 1) runtime_config 300 sample_validators = Some st'
    \<and> ValidatorStakes st' 1 = Some left \<and> unat left \<le> 51"
proof -
  have "\<exists>st' left. empty_blocks (sample_externals 1) runtime_config 300 sample_validators = Some st'
      \<and> ValidatorStakes st' 1 = Some left \<and> 10 ^ 30 * unat left \<le> 9 ^ 30 * unat (1000 :: u128) + 9 * 10 ^ 30"
    by (rule absence_drains_stake [OF _ _ sample_slashable])
      (simp_all add: lists_keys_sorted down_def runtime_config_def)
  then show ?thesis by fastforce
qed

text \<open>
  C26: Being active does not help once the numbers of the pallet's headers lag behind those of the
  chain: when a validator's validation of header \<open>n\<close> was accepted in the block before, and the block
  that begins now has a number divisible by 10 that lies more than \<open>MaxDowntimeBlocks\<close> above \<open>n\<close>,
  the validator is slashed for downtime as it begins. (No stake times the slash percentage leaves
  \<open>u128\<close>, the window holds at most 100 producers, and the storage map is iterated over every key.)
\<close>

theorem active_validator_slashed:
  assumes "lists_keys (ext_key_order X)" and "finite (dom (LastActiveBlock st))" and "slashable T st"
    and "length (RecentBlockProducers st) \<le> 100"
    and "dispatch X T (Signed v) (Validate_block n sig) st = Some (Inr (), st1)"
    and "m = system_block_number st + 1" and "m mod 10 = 0"
    and "unat (cfg_MaxDowntimeBlocks T) < unat m - unat n" and "ValidatorStakes st v = Some held"
  shows "\<exists>st2. on_initialize X T m
      ((on_finalize (system_block_number st) st1)\<lparr>system_block_number := m, system_events := []\<rparr>)
      = Some (default_weight, st2)
    \<and> ValidatorStakes st2 v = Some (cut_stake (cfg_DowntimeSlashPercentage T) held)"
proof -
  let ?st = "(on_finalize (system_block_number st) st1)\<lparr>system_block_number := m, system_events := []\<rparr>"
  obtain h w mi r bal where st1: "st1 = validated X v n sig h w mi r bal st"
    using assms(5) by (auto simp: dispatch_ok dispatch_call_def validate_block_ok)
  have idle: "finite (dom (LastActiveBlock ?st))" "slashable T ?st" "length (RecentBlockProducers ?st) \<le> 2 ^ 32"
    using assms(2-4) by (simp_all add: st1 slashable_def)
  obtain st2 where st2: "on_initialize X T m ?st = Some (default_weight, st2)"
    using on_initialize_total [OF assms(1) idle] by blast
  have "down T ?st v" using assms(8) by (simp add: down_def st1)
  then have "ValidatorStakes st2 v = Some (cut_stake (cfg_DowntimeSlashPercentage T) held)"
    using on_initialize_slashes [OF assms(1) idle(1,2) st2, of v] assms(7,9) by (simp add: st1)
  with st2 show ?thesis by blast
qed

text \<open>Account 2 validates block 1 in block 119, and loses a tenth of its 300 units in block 120.\<close>

theorem active_validator_slashed_witness:
  "\<exists>st1 st2. dispatch (sample_externals 1) runtime_config (Signed 2) (Validate_block 1 (PqcSignature []))
      (sample_chain\<lparr>system_block_number := 119\<rparr>) = Some (Inr (), st1)
    \<and> on_initialize (sample_externals 1) runtime_config 120
      ((on_finalize 119 st1)\<lparr>system_block_number := 120, system_events := []\<rparr>) = Some (default_weight, st2)
    \<and> ValidatorStakes st2 2 = Some 270"
proof -
  let ?X = "sample_externals 1" and ?st = "sample_chain\<lparr>system_block_number := 119\<rparr>"
  have same: "elected ?X ?st 1 = elected ?X sample_chain 1"
    by (simp add: elected_def collect_stakers_def)
  have "(\<exists>st1. dispatch ?X runtime_config (Signed 2) (Validate_block 1 (PqcSignature [])) ?st = Some (Inr (), st1))
      \<longleftrightarrow> map_option vs_account (elected ?X ?st 1) = Some 2"
    by (rule validate_block_elected) (use sample_chain_voting in simp_all)
  then obtain st1 where call: "dispatch ?X runtime_config (Signed 2) (Validate_block 1 (PqcSignature [])) ?st
      = Some (Inr (), st1)"
    using same sample_chain_elected by auto
  have "v \<in> {100, 300}" if "v \<in> ran (ValidatorStakes ?st)" for v
    using that by (auto simp: ran_def split: if_splits)
  then have slashable: "slashable runtime_config ?st"
    unfolding slashable_def by (force simp: runtime_config_def)
  have "\<exists>st2. on_initialize ?X runtime_config 120
      ((on_finalize (system_block_number ?st) st1)\<lparr>system_block_number := 120, system_events := []\<rparr>)
      = Some (default_weight, st2)
    \<and> ValidatorStakes st2 2 = Some (cut_stake (cfg_DowntimeSlashPercentage runtime_config) 300)"
    by (rule active_validator_slashed [OF _ _ slashable _ call])
      (simp_all add: lists_keys_sorted runtime_config_def sample_chain_def genesis_storage_def)
  moreover have "cut_stake 10 300 = 270" by (simp add: cut_stake_def saturating_sub_def)
  ultimately show ?thesis using call by (auto simp: runtime_config_def)
qed

end
