(* ===== verification/Ghost_Growth.thy ===== *)
theory Ghost_Growth
  imports Ghost_Downtime
begin

text \<open>
  The chain as a whole can go on: from any state of the live runtime in which the pallet's
  invariants hold and somebody has a stake, there is a run that mines, validates and finalizes as
  many blocks as the 32-bit block numbers leave room for, one in every block of the runtime,
  downtime checks and retargeting included, unless the hash function leaves no header with a proof
  of work on the tip.
\<close>

section \<open>States from which a block can be made\<close>

text \<open>Whether the search for a proof of work on the tip \<open>n\<close> must fail: no header passes the hash check.\<close>

definition search_fails :: "('acc, 'bal) Externals \<Rightarrow> ('acc, 'bal) Storage \<Rightarrow> u32 \<Rightarrow> bool" where
  "search_fails X st n \<longleftrightarrow> (\<exists>p. BlockHeaders st n = Some p
     \<and> (\<forall>h. bh_number h = n + 1 \<longrightarrow> bh_parent_hash h = ext_hash_of_header X p
          \<longrightarrow> \<not> verify_pow_enhanced X h (Difficulty st)))"

text \<open>Otherwise a header that claims the stored target and carries no signature is valid.\<close>

lemma search_succeeds:
  assumes "\<not> search_fails X st n" and "BlockHeaders st n = Some p" and "bh_number p = n"
  obtains h where "header_typed h" "header_valid X (Difficulty st) h p"
proof -
  obtain h where h: "bh_number h = n + 1" "bh_parent_hash h = ext_hash_of_header X p"
      "verify_pow_enhanced X h (Difficulty st)"
    using assms(1,2) by (auto simp: search_fails_def)
  let ?h = "h\<lparr>bh_difficulty := Difficulty st, bh_validator_signature := None, bh_pqc_signature := None\<rparr>"
  have "verify_pow_enhanced X ?h (Difficulty st)"
    using h(3) by (simp add: verify_pow_enhanced_def pow_input_of_def)
  then have "header_valid X (Difficulty st) ?h p" using h(1,2) assms(3) by (simp add: header_valid_def)
  then show thesis by (rule that [rotated]) (simp add: header_typed_def)
qed

definition ready :: "('acc, 'bal) Externals \<Rightarrow> ('acc, 'bal) Storage \<Rightarrow> bool" where
  "ready X st \<longleftrightarrow> storage_typed st \<and> headers_sound X st \<and> CurrentPhase st = PowMining
     \<and> ValidatorStakes st (account_id X runtime_config) = None
     \<and> 0 < sum_values (ValidatorStakes st) \<and> sum_values (ValidatorStakes st) < 2 ^ 64"

text \<open>
  A block of the runtime begins; then it gets a block of the pallet, or no header can be mined.
\<close>

definition block_start :: "('acc::linorder, 'bal) Externals \<Rightarrow> ('acc, 'bal) Storage \<Rightarrow> ('acc, 'bal) Storage option" where
  "block_start X st = map_option snd (on_initialize X runtime_config (system_block_number st + 1)
     (st\<lparr>system_block_number := system_block_number st + 1, system_events := []\<rparr>))"

definition stuck_after :: "('acc::linorder, 'bal) Externals \<Rightarrow> ('acc, 'bal) Storage \<Rightarrow> u32 \<Rightarrow> bool" where
  "stuck_after X st n \<longleftrightarrow> (\<exists>begun. block_start X st = Some begun \<and> search_fails X begun n)"

text \<open>
  A round: a block of the runtime in which block \<open>n + 1\<close> of the pallet is mined by the given account,
  validated by the elected one, and finalized.
\<close>

definition block_round :: "('acc::linorder, 'bal) Externals \<Rightarrow> 'acc \<Rightarrow> u32 \<Rightarrow> ('acc, 'bal) Storage
    \<Rightarrow> ('acc, 'bal) Storage \<Rightarrow> bool" where
  "block_round X miner n st st' \<longleftrightarrow> (\<exists>begun h mid v sig voted.
     block_start X st = Some begun \<and> bh_number h = n + 1
     \<and> dispatch X runtime_config (Signed miner) (Submit_block h) begun = Some (Inr (), mid)
     \<and> dispatch X runtime_config (Signed v) (Validate_block (n + 1) sig) mid = Some (Inr (), voted)
     \<and> st' = on_finalize (system_block_number voted) voted)"

primrec rounds :: "('acc::linorder, 'bal) Externals \<Rightarrow> 'acc \<Rightarrow> u32 \<Rightarrow> nat \<Rightarrow> ('acc, 'bal) Storage
    \<Rightarrow> ('acc, 'bal) Storage \<Rightarrow> bool" where
  "rounds X miner n 0 st st' \<longleftrightarrow> st' = st"
| "rounds X miner n (Suc j) st st' \<longleftrightarrow>
     (\<exists>mid. rounds X miner n j st mid \<and> block_round X miner (n + of_nat j) mid st')"

lemma low_stakes_slashable:
  assumes "finite (dom (ValidatorStakes st))" and "sum_values (ValidatorStakes st) < 2 ^ 64"
  shows "slashable runtime_config st"
  unfolding slashable_def
proof
  fix v assume "v \<in> ran (ValidatorStakes st)"
  then obtain a where "ValidatorStakes st a = Some v" by (auto simp: ran_def)
  then have "unat v \<le> sum_values (ValidatorStakes st)" using value_at_le_sum [OF assms(1), of a] by simp
  with assms(2) show "unat v * unat (cfg_DowntimeSlashPercentage runtime_config) < 2 ^ 128"
    by (simp add: runtime_config_def)
qed

text \<open>A slash of ten percent, rounded down, never takes the whole of a stake.\<close>

lemma block_begins_ready:
  assumes keys: "lists_keys (ext_key_order X)" and ready: "ready X st"
    and room: "unat (system_block_number st) + 1 < 2 ^ 32"
  obtains st' where "chain_step X runtime_config foreign st st'" "block_start X st = Some st'" "ready X st'"
    "BlockHeaders st' = BlockHeaders st" "BlockProducers st' = BlockProducers st"
    "unat (system_block_number st') = unat (system_block_number st) + 1"
proof -
  let ?n = "system_block_number st + 1"
  let ?st = "st\<lparr>system_block_number := ?n, system_events := []\<rparr>"
  note typed = storage_typedD [of st]
  have fin: "finite (dom (ValidatorStakes st))" "finite (dom (LastActiveBlock st))"
    and window: "length (RecentBlockProducers ?st) \<le> 2 ^ 32"
    using ready typed by (auto simp: ready_def)
  have slashable: "slashable runtime_config ?st"
    using low_stakes_slashable [OF fin(1)] ready by (simp add: ready_def slashable_def)
  obtain st' where init: "on_initialize X runtime_config ?n ?st = Some (default_weight, st')"
    using on_initialize_total [OF keys _ slashable window] fin(2) by auto
  note fields = on_initialize_fields [OF init]
  have step: "chain_step X runtime_config foreign st st'"
    by (rule chain_step.block_begins [OF room refl init])
  have domain: "dom (ValidatorStakes st') = dom (ValidatorStakes st)"
    using fields(9) by (simp add: stakes_shrink_def)
  have "\<exists>a. 0 < value_at (ValidatorStakes st') a"
  proof -
    obtain a v where a: "ValidatorStakes st a = Some v" "0 < unat v"
      using ready sum_values_pos [OF fin(1)] by (auto simp: ready_def value_at_def split: option.splits)
    have "unat v * 10 < 2 ^ 128" using slashable a(1) by (auto simp: slashable_def ran_def runtime_config_def)
    then have "0 < unat (cut_stake 10 v)" using a(2) unat_cut [of v 10] by simp
    then show ?thesis
      using on_initialize_slashes [OF keys _ slashable init, of a] fin(2) a
      by (intro exI [of _ a]) (auto simp: runtime_config_def value_at_def)
  qed
  moreover have "sum_values (ValidatorStakes st') < 2 ^ 64"
    using stakes_shrink_sum [OF fields(9)] ready by (simp add: ready_def)
  moreover have "storage_typed st'" "headers_sound X st'"
    using ready step typing.step_keeps headers.step_keeps unfolding ready_def by blast+
  moreover have "ValidatorStakes st' (account_id X runtime_config) = None"
  proof -
    have "account_id X runtime_config \<notin> dom (ValidatorStakes st)" using ready by (simp add: ready_def domIff)
    then show ?thesis by (simp only: domain [symmetric] domIff not_not)
  qed
  ultimately have "ready X st'"
    using ready fields(1) sum_values_pos [of "ValidatorStakes st'"] domain fin(1) by (simp add: ready_def)
  then show thesis
    using that [OF step] init fields(2,3,7) room by (simp add: unat_add_fits block_start_def)
qed

lemma grow_one:
  assumes keys: "lists_keys (ext_key_order X)" and ready: "ready X st"
    and not_stuck: "\<not> stuck_after X st n" and miner: "miner \<noteq> account_id X runtime_config"
    and tip: "BlockHeaders st n \<noteq> None" and room: "unat n + 1 < 2 ^ 32" "unat (system_block_number st) + 1 < 2 ^ 32"
  obtains st' h where "(chain_step X runtime_config foreign)\<^sup>*\<^sup>* st st'" "block_round X miner n st st'" "ready X st'"
    "BlockHeaders st' = (BlockHeaders st)(n + 1 \<mapsto> h)" "bh_validator_signature h \<noteq> None"
    "BlockProducers st' = (BlockProducers st)(n + 1 \<mapsto> miner)"
    "unat (system_block_number st') = unat (system_block_number st) + 1"
proof -
  let ?step = "chain_step X runtime_config foreign" and ?sig = "PqcSignature (replicate 4627 0)"
  obtain st1 where begins: "?step st st1" and start: "block_start X st = Some st1" and ready1: "ready X st1" and kept: "BlockHeaders st1 = BlockHeaders st"
      "BlockProducers st1 = BlockProducers st" "unat (system_block_number st1) = unat (system_block_number st) + 1"
    by (rule block_begins_ready [OF keys ready room(2)])
  obtain p where p: "BlockHeaders st1 n = Some p" using tip kept by auto
  then have number: "bh_number p = n" using ready1 by (auto simp: ready_def headers_sound_def)
  have n: "n \<noteq> - 1" using room(1) by (auto simp: unat_minus_one_max)
  have "\<not> search_fails X st1 n" using not_stuck start by (auto simp: stuck_after_def)
  from search_succeeds [OF this p number] obtain h where h: "header_typed h" "header_valid X (Difficulty st1) h p" .
  then have hn: "bh_number h = n + 1" using number by (simp add: header_valid_def)
  have pos: "0 < bh_number h" using n by (simp add: hn word_neq_0_conv [symmetric] eq_neg_iff_add_eq_0)
  have fin: "finite (dom (ValidatorStakes st1))" using ready1 storage_typedD(6) by (auto simp: ready_def)
  obtain v st2 where submit: "dispatch X runtime_config (Signed miner) (Submit_block h) st1 = Some (Inr (), mined miner h st1)"
    and v: "ValidatorStakes st1 v \<noteq> None"
    and validate: "dispatch X runtime_config (Signed v) (Validate_block (bh_number h) ?sig) (mined miner h st1) = Some (Inr (), st2)"
    and st2: "CurrentPhase st2 = Finalization"
      "BlockHeaders st2 = (BlockHeaders st1)(bh_number h \<mapsto> sign_header X v (bh_number h) ?sig h)"
      "BlockProducers st2 = (BlockProducers st1)(bh_number h \<mapsto> miner)"
      "ValidatorStakes st2 = ValidatorStakes st1" "system_block_number st2 = system_block_number st1"
    by (rule round_runs [OF keys fin, of h p miner ?sig])
      (use ready1 pos p h in \<open>simp_all add: ready_def hn\<close>)
  let ?st3 = "on_finalize (system_block_number st2) st2"
  have "?step st1 (mined miner h st1)"
    using miner h by (intro chain_step.extrinsic [OF _ _ submit]) (simp_all add: call_typed_def)
  moreover have "?step (mined miner h st1) st2"
    using v ready1 by (intro chain_step.extrinsic [OF _ _ validate])
      (auto simp: ready_def call_typed_def signature_typed_def)
  moreover have "?step st2 ?st3" by (rule chain_step.block_ends)
  ultimately have run: "?step\<^sup>*\<^sup>* st1 ?st3" by (meson converse_rtranclp_into_rtranclp rtranclp.rtrancl_refl)
  then have "storage_typed ?st3" "headers_sound X ?st3"
    using ready1 typing.run_keeps headers.run_keeps unfolding ready_def by blast+
  then have "ready X ?st3" using ready1 st2 by (simp add: ready_def)
  moreover have "block_round X miner n st ?st3"
    unfolding block_round_def using start submit validate hn by metis
  ultimately show thesis
    using converse_rtranclp_into_rtranclp [OF begins run] that [of ?st3 "sign_header X v (n + 1) ?sig h"] st2 kept
    by (simp add: hn on_finalize_def sign_header_def)
qed

lemma grow_many:
  assumes keys: "lists_keys (ext_key_order X)" and ready: "ready X st"
    and miner: "miner \<noteq> account_id X runtime_config" and tip: "BlockHeaders st n \<noteq> None"
    and room: "unat n + k < 2 ^ 32" "unat (system_block_number st) + k < 2 ^ 32"
  shows "\<exists>j \<le> k. \<exists>st'. (chain_step X runtime_config foreign)\<^sup>*\<^sup>* st st' \<and> rounds X miner n j st st' \<and> ready X st'
    \<and> unat (system_block_number st') = unat (system_block_number st) + j
    \<and> BlockHeaders st' (n + of_nat j) \<noteq> None
    \<and> (\<forall>i. 0 < i \<and> i \<le> j \<longrightarrow> BlockProducers st' (n + of_nat i) = Some miner
        \<and> (\<exists>h. BlockHeaders st' (n + of_nat i) = Some h \<and> bh_validator_signature h \<noteq> None))
    \<and> (j = k \<or> stuck_after X st' (n + of_nat j))"
  using room
proof (induction k)
  case 0
  from ready tip show ?case by (auto intro!: exI [of _ st])
next
  case (Suc k)
  have "unat n + k < 2 ^ 32" "unat (system_block_number st) + k < 2 ^ 32" using Suc.prems by simp_all
  from Suc.IH [OF this] obtain j st1 where j: "j \<le> k"
    and st1: "(chain_step X runtime_config foreign)\<^sup>*\<^sup>* st st1" "ready X st1"
      "rounds X miner n j st st1"
      "unat (system_block_number st1) = unat (system_block_number st) + j"
      "BlockHeaders st1 (n + of_nat j) \<noteq> None"
      "\<forall>i. 0 < i \<and> i \<le> j \<longrightarrow> BlockProducers st1 (n + of_nat i) = Some miner
        \<and> (\<exists>h. BlockHeaders st1 (n + of_nat i) = Some h \<and> bh_validator_signature h \<noteq> None)"
      "j = k \<or> stuck_after X st1 (n + of_nat j)"
    by (elim exE conjE) (rule that)
  show ?case
  proof (cases "stuck_after X st1 (n + of_nat j)")
    case True
    then show ?thesis using j st1(1-6) by (intro exI [of _ j] conjI exI [of _ st1]) auto
  next
    case False
    then have k: "j = k" using st1(7) by simp
    have "unat (of_nat k :: u32) = k" using Suc.prems(1) by (simp add: unat_of_nat)
    then have nk: "unat (n + of_nat k) = unat n + k" using Suc.prems(1) by (simp add: unat_add_fits)
    obtain st' h where st': "(chain_step X runtime_config foreign)\<^sup>*\<^sup>* st1 st'" "block_round X miner (n + of_nat k) st1 st'" "ready X st'"
        "BlockHeaders st' = (BlockHeaders st1)(n + of_nat k + 1 \<mapsto> h)" "bh_validator_signature h \<noteq> None"
        "BlockProducers st' = (BlockProducers st1)(n + of_nat k + 1 \<mapsto> miner)"
        "unat (system_block_number st') = unat (system_block_number st1) + 1"
      by (rule grow_one [OF keys st1(2) False miner st1(5)]) (use Suc.prems nk st1(4) k in simp_all)
    have rounds: "rounds X miner n (Suc k) st st'" using st1(3) st'(2) k by auto
    have next_number: "n + of_nat k + 1 = n + of_nat (Suc k)" by simp
    have run: "(chain_step X runtime_config foreign)\<^sup>*\<^sup>* st st'" using st1(1) st'(1) by simp
    have "BlockProducers st' (n + of_nat i) = Some miner
        \<and> (\<exists>h. BlockHeaders st' (n + of_nat i) = Some h \<and> bh_validator_signature h \<noteq> None)"
      if "0 < i" "i \<le> Suc k" for i
    proof (cases "i = Suc k")
      case True
      then show ?thesis using st' next_number by simp
    next
      case False
      then show ?thesis using spec [OF st1(6), of i] st' that k by auto
    qed
    then show ?thesis
      using run rounds st' st1(4) next_number k by (intro exI [of _ "Suc k"] conjI exI [of _ st']) auto
  qed
qed

section \<open>Properties\<close>

text \<open>
  C2: Nothing but the search for a proof of work can keep the live runtime's chain from growing. From
  every state with the pallet's invariants in the phase PowMining, with a stored tip and a positive
  total stake below 2^64, none of it the escrow's, and for every number \<open>k\<close> of blocks that the
  32-bit numbers leave room for, there is a run of rounds: in each block of the runtime, after its
  hook, one more block of the pallet is submitted by the given account (not the escrow) and accepted,
  validated by a staker, and finalized. It goes on for \<open>k\<close> rounds, or to a block of the runtime in
  which no header on the tip has a hash that meets the stored target.
\<close>

theorem chain_can_grow:
  assumes "lists_keys (ext_key_order X)"
    and "storage_typed st" and "headers_sound X st" and "CurrentPhase st = PowMining"
    and "ValidatorStakes st (account_id X runtime_config) = None"
    and "0 < sum_values (ValidatorStakes st)" and "sum_values (ValidatorStakes st) < 2 ^ 64"
    and "miner \<noteq> account_id X runtime_config" and "BlockHeaders st n \<noteq> None"
    and "unat n + k < 2 ^ 32" and "unat (system_block_number st) + k < 2 ^ 32"
  shows "\<exists>j \<le> k. \<exists>st'. (chain_step X runtime_config foreign)\<^sup>*\<^sup>* st st'
    \<and> rounds X miner n j st st' \<and> CurrentPhase st' = PowMining
    \<and> unat (system_block_number st') = unat (system_block_number st) + j
    \<and> (\<forall>i. 0 < i \<and> i \<le> j \<longrightarrow> BlockProducers st' (n + of_nat i) = Some miner
        \<and> (\<exists>h. BlockHeaders st' (n + of_nat i) = Some h \<and> bh_validator_signature h \<noteq> None))
    \<and> (j = k \<or> stuck_after X st' (n + of_nat j))"
proof -
  have "ready X st" using assms(2-7) by (simp add: ready_def)
  from grow_many [OF assms(1) this assms(8-11), of foreign] show ?thesis by (auto simp: ready_def)
qed

lemma sample_never_stuck: "\<not> stuck_after (sample_externals ed) st n"
proof
  assume "stuck_after (sample_externals ed) st n"
  then obtain begun where "search_fails (sample_externals ed) begun n" by (auto simp: stuck_after_def)
  then obtain p where "\<forall>h. bh_number h = n + 1 \<longrightarrow> bh_parent_hash h = ext_hash_of_header (sample_externals ed) p
      \<longrightarrow> \<not> verify_pow_enhanced (sample_externals ed) h (Difficulty begun)"
    by (simp only: search_fails_def) blast
  from spec [OF this, of "sample_parent\<lparr>bh_number := n + 1, bh_parent_hash := ext_hash_of_header (sample_externals ed) p\<rparr>"]
  show False by (simp add: sample_parent_def)
qed

definition sample_start :: "(u64, u64 ledger) Storage" where
  "sample_start = sample_chain\<lparr>CurrentPhase := PowMining, BlockHeaders := [0 \<mapsto> sample_parent],
     BlockProducers := Map.empty\<rparr>"

lemma sample_start_ready: "ready (sample_externals 1) sample_start"
proof -
  have "storage_typed sample_start"
    by (intro storage_typedI)
      (auto simp: sample_start_def sample_chain_def genesis_storage_def header_typed_def sample_parent_def
        split: if_splits)
  moreover have "headers_sound (sample_externals 1) sample_start"
    by (simp add: headers_sound_def sample_start_def sample_parent_def)
  moreover have "sum_values (ValidatorStakes sample_start) = 400"
    using sample_chain_stakes by (simp add: sample_start_def)
  ultimately show ?thesis by (simp add: ready_def account_id_def) (simp add: sample_start_def)
qed

theorem chain_can_grow_witness:
  "\<exists>st'. (chain_step (sample_externals 1) runtime_config (=))\<^sup>*\<^sup>* sample_start st'
    \<and> BlockProducers st' 1000 = Some 7 \<and> BlockHeaders st' 1000 \<noteq> None"
proof -
  let ?X = "sample_externals 1"
  have "\<exists>j \<le> 1000. \<exists>st'. (chain_step ?X runtime_config (=))\<^sup>*\<^sup>* sample_start st'
    \<and> rounds ?X 7 0 j sample_start st' \<and> CurrentPhase st' = PowMining
    \<and> unat (system_block_number st') = unat (system_block_number sample_start) + j
    \<and> (\<forall>i. 0 < i \<and> i \<le> j \<longrightarrow> BlockProducers st' (0 + of_nat i) = Some 7
        \<and> (\<exists>h. BlockHeaders st' (0 + of_nat i) = Some h \<and> bh_validator_signature h \<noteq> None))
    \<and> (j = 1000 \<or> stuck_after ?X st' (0 + of_nat j))"
    by (rule chain_can_grow)
      (use sample_start_ready in \<open>simp_all add: ready_def lists_keys_sorted account_id_def\<close>,
       simp_all add: sample_start_def)
  then obtain st' where run: "(chain_step ?X runtime_config (=))\<^sup>*\<^sup>* sample_start st'"
    and blocks: "\<And>i. 0 < i \<Longrightarrow> i \<le> 1000 \<Longrightarrow> BlockProducers st' (0 + of_nat i) = Some 7
        \<and> (\<exists>h. BlockHeaders st' (0 + of_nat i) = Some h \<and> bh_validator_signature h \<noteq> None)"
    using sample_never_stuck by blast
  from blocks [of 1000] run show ?thesis by (intro exI [of _ st']) auto
qed

end
