(* ===== verification/Ghost_Target.thy ===== *)
theory Ghost_Target
  imports Ghost_Growth
begin

text \<open>
  The PoW target over a run. No run raises it (\<open>Ghost_Safety\<close>); here is how fast it
  falls while few accounts produce the blocks: the entropy factor of one adjustment multiplies with
  that of the next, because the placeholder block times never bring the target back.
\<close>

section \<open>One adjustment\<close>

lemma on_initialize_difficulty:
  assumes "on_initialize X T n st = Some (w, st')" and "length (RecentBlockProducers st) \<le> 100"
  obtains e where "unat e = entropy_nat (RecentBlockProducers st)"
    "Difficulty st' = (if n mod 100 = 0 then calculate_difficulty_adjustment (Difficulty st) 5 5 e else Difficulty st)"
proof -
  obtain mid where mid: "(if n mod 10 = 0 then check_downtime_slashing X T st else Some st) = Some mid"
    and last: "(if n mod 100 = 0 then adjust_difficulty X mid else Some mid) = Some st'"
    using assms(1) by (auto simp: on_initialize_def bind_eq_Some_conv)
  have "but_slashes mid = but_slashes st"
    using mid by (auto split: if_splits dest: check_downtime_frame)
  note same = but_slashesD [OF this]
  have "length (RecentBlockProducers mid) \<le> 2 ^ 32" using assms(2) by (simp only: same(6)) simp
  from adjust_difficulty_eq [OF this, of X] obtain e adjusted where e: "adjust_difficulty X mid = Some adjusted"
      "unat e = entropy_nat (RecentBlockProducers st)"
      "Difficulty adjusted = calculate_difficulty_adjustment (Difficulty st) 5 5 e"
    unfolding same by blast
  show thesis
    by (rule that [OF e(2)]) (use last e same(1) in \<open>auto split: if_splits\<close>)
qed

lemma low_entropy_step:
  assumes "e \<le> E" and "E < 4000000"
  shows "8000000 * adjusted d 5 5 e \<le> max 8000000 ((4000000 + E) * d)"
proof -
  let ?t = "retarget_step d 5 5"
  have t: "?t \<le> max 1 d"
    using div_le_mono [of "min u64_max (d * 5)" "d * 5" 5] by (auto simp: retarget_step_def)
  let ?q = "min u64_max (?t * (4000000 + e)) div 8000000"
  have "8000000 * ?q \<le> ?t * (4000000 + e)"
    by (rule le_trans [OF times_div_less_eq_dividend]) simp
  also have "\<dots> \<le> max 1 d * (4000000 + E)"
    using t assms(1) by (intro mult_le_mono) auto
  also have "\<dots> \<le> max 8000000 ((4000000 + E) * d)"
    using assms(2) by (cases "d = 0") (auto simp: max_def mult.commute)
  finally have "8000000 * max ?q 1 \<le> max 8000000 ((4000000 + E) * d)"
    by (simp only: nat_mult_max_right max.bounded_iff nat_mult_1_right max.cobounded1 simp_thms)
  then show ?thesis using assms by (simp add: adjusted_def entropy_step_def)
qed

lemma dispatch_keeps_number:
  assumes "dispatch X T origin c st = Some (r, st')"
  shows "system_block_number st' = system_block_number st"
  using assms
proof (cases rule: dispatch_cases)
  case succeeded
  then show ?thesis by (cases c) (auto simp: dispatch_call_def call_ok)
qed simp

section \<open>Runs with few producers\<close>

text \<open>A step taken while the window of recent producers has at most the entropy \<open>E\<close>.\<close>

definition centralized_step ::
  "('acc::linorder, 'bal) Externals \<Rightarrow> Config \<Rightarrow> ('bal \<Rightarrow> 'bal \<Rightarrow> bool) \<Rightarrow> nat
    \<Rightarrow> ('acc, 'bal) Storage \<Rightarrow> ('acc, 'bal) Storage \<Rightarrow> bool" where
  "centralized_step X T foreign E st st' \<longleftrightarrow>
     chain_step X T foreign st st' \<and> entropy_nat (RecentBlockProducers st) \<le> E"

text \<open>The target after the adjustments since block \<open>n\<close>, when it was \<open>d\<close>.\<close>

definition fallen :: "nat \<Rightarrow> nat \<Rightarrow> nat \<Rightarrow> ('acc, 'bal) Storage \<Rightarrow> bool" where
  "fallen E d n st \<longleftrightarrow> n \<le> unat (system_block_number st) \<and> length (RecentBlockProducers st) \<le> 100
     \<and> (let c = unat (system_block_number st) div 100 - n div 100
        in 8000000 ^ c * unat (Difficulty st) \<le> max (8000000 ^ c) ((4000000 + E) ^ c * d))"

lemma falls_further:
  assumes "8000000 ^ c * x \<le> max (8000000 ^ c) (F ^ c * d)" and "8000000 * y \<le> max 8000000 (F * x)"
    and "F \<le> (8000000 :: nat)"
  shows "8000000 ^ Suc c * y \<le> max (8000000 ^ Suc c) (F ^ Suc c * d)"
proof -
  have "8000000 ^ Suc c * y = 8000000 ^ c * (8000000 * y)" by simp
  also have "\<dots> \<le> 8000000 ^ c * max 8000000 (F * x)" by (rule mult_le_mono2 [OF assms(2)])
  also have "\<dots> = max (8000000 ^ Suc c) (F * (8000000 ^ c * x))" by (simp add: nat_mult_max_right ac_simps)
  also have "\<dots> \<le> max (8000000 ^ Suc c) (F * max (8000000 ^ c) (F ^ c * d))"
    by (intro max.mono order_refl mult_le_mono2 assms(1))
  also have "\<dots> \<le> max (8000000 ^ Suc c) (F ^ Suc c * d)"
    using mult_le_mono1 [OF assms(3), of "8000000 ^ c"] by (auto simp: nat_mult_max_right ac_simps)
  finally show ?thesis .
qed

lemma fallen_start:
  "length (RecentBlockProducers st) \<le> 100 \<Longrightarrow> fallen E (unat (Difficulty st)) (unat (system_block_number st)) st"
  by (simp add: fallen_def)

interpretation falling: invariant_system "centralized_step X T foreign E" "\<lambda>st. E < 4000000 \<and> fallen E d n st"
  for X :: "('acc::linorder, 'bal) Externals" and T foreign E d n
proof unfold_locales
  fix s t :: "('acc, 'bal) Storage"
  assume inv: "E < 4000000 \<and> fallen E d n s" and "centralized_step X T foreign E s t"
  then have step: "chain_step X T foreign s t" and low: "entropy_nat (RecentBlockProducers s) \<le> E"
    by (simp_all add: centralized_step_def)
  let ?c = "\<lambda>st :: ('acc, 'bal) Storage. unat (system_block_number st) div 100 - n div 100"
  from step show "E < 4000000 \<and> fallen E d n t"
  proof (cases rule: chain_step.cases)
    case (block_begins m w)
    let ?st = "s\<lparr>system_block_number := m, system_events := []\<rparr>"
    note fields = on_initialize_fields [OF block_begins(3)]
    have m: "unat m = unat (system_block_number s) + 1" using block_begins(1,2) by (simp add: unat_add_fits)
    then have now: "unat (system_block_number t) = Suc (unat (system_block_number s))"
      "unat m = Suc (unat (system_block_number s))"
      using fields(7) by simp_all
    obtain e where e: "unat e = entropy_nat (RecentBlockProducers s)"
      "Difficulty t = (if m mod 100 = 0 then calculate_difficulty_adjustment (Difficulty s) 5 5 e else Difficulty s)"
      by (rule on_initialize_difficulty [OF block_begins(3)]) (use inv in \<open>simp_all add: fallen_def\<close>)
    have "fallen E d n t"
    proof (cases "unat m mod 100 = 0")
      case True
      have "n div 100 \<le> unat (system_block_number s) div 100"
        using inv by (intro div_le_mono) (simp add: fallen_def)
      then have c: "?c t = Suc (?c s)"
        using True unfolding now div_Suc [of "unat (system_block_number s)"] by (simp only: simp_thms if_True Suc_diff_le)
      have "m mod 100 = 0" using True by (simp add: word_unat_eq_iff unat_mod)
      then have "8000000 * unat (Difficulty t) \<le> max 8000000 ((4000000 + E) * unat (Difficulty s))"
        using e low_entropy_step [of "unat e" E "unat (Difficulty s)"] low inv by (simp add: unat_adjustment)
      note further = falls_further [OF _ this]
      have bound: "8000000 ^ ?c t * unat (Difficulty t) \<le> max (8000000 ^ ?c t) ((4000000 + E) ^ ?c t * d)"
        unfolding c by (rule further) (use inv in \<open>simp_all add: fallen_def Let_def\<close>)
      have "n \<le> unat (system_block_number t) \<and> length (RecentBlockProducers t) \<le> 100"
        using inv now(1) fields(5) by (simp add: fallen_def)
      then show ?thesis using bound unfolding fallen_def Let_def by (elim conjE) (intro conjI)
    next
      case False
      then have "m mod 100 \<noteq> 0" by (simp add: word_unat_eq_iff unat_mod)
      moreover have "?c t = ?c s"
        using False unfolding now div_Suc [of "unat (system_block_number s)"] by (simp only: simp_thms if_False)
      ultimately show ?thesis using inv e fields(5,7) m by (simp add: fallen_def)
    qed
    with inv show ?thesis by simp
  next
    case (extrinsic origin c r)
    note number = dispatch_keeps_number [OF extrinsic(3)]
    from extrinsic(3) show ?thesis
      by (cases rule: dispatch_consensus_cases) (use inv number push_recent_length in \<open>auto simp: fallen_def\<close>)
  qed (use inv in \<open>auto simp: fallen_def on_finalize_def\<close>)
qed

lemma single_producer_entropy:
  assumes "set ps \<subseteq> {m}"
  shows "entropy_nat ps = 0"
proof (cases "ps = []")
  case False
  with assms have "set ps = {m}" by (metis set_empty subset_singletonD)
  moreover from assms have "count_list ps m = length ps" by (induction ps) auto
  ultimately show ?thesis by (simp add: entropy_nat_def share_def)
qed (simp add: entropy_nat_def)

text \<open>A factor that halves the target in \<open>h\<close> adjustments brings any \<open>u64\<close> down to 1 in \<open>64 * h\<close>.\<close>

lemma halved_away:
  assumes "G ^ c * x \<le> max (G ^ c) (F ^ c * d)" and "F \<le> G" and "2 * F ^ h \<le> G ^ h"
    and "0 < (G :: nat)" and "d < 2 ^ 64" and "64 * h \<le> c"
  shows "x \<le> 1"
proof -
  obtain r where c: "c = h * 64 + r" using assms(6) by (auto simp: le_iff_add mult.commute)
  have "F ^ c * d \<le> F ^ c * 2 ^ 64" using assms(5) by (intro mult_le_mono2) simp
  also have "\<dots> = (2 * F ^ h) ^ 64 * F ^ r"
    unfolding c power_add power_mult power_mult_distrib by (simp only: ac_simps)
  also have "\<dots> \<le> (G ^ h) ^ 64 * G ^ r"
    by (intro mult_le_mono power_mono assms(2,3)) simp_all
  also have "\<dots> = G ^ c" unfolding c power_add power_mult ..
  finally have "G ^ c * x \<le> G ^ c * 1" using assms(1) by simp
  then show ?thesis using assms(4) by (simp only: mult_le_cancel1) simp
qed

text \<open>What a run with low entropy makes of the target.\<close>

lemma centralized_run:
  assumes "storage_typed st" and "E < 4000000" and "(centralized_step X T foreign E)\<^sup>*\<^sup>* st st'"
    and "c = unat (system_block_number st') div 100 - unat (system_block_number st) div 100"
  shows "8000000 ^ c * unat (Difficulty st') \<le> max (8000000 ^ c) ((4000000 + E) ^ c * unat (Difficulty st))"
proof -
  have "fallen E (unat (Difficulty st)) (unat (system_block_number st)) st"
    using storage_typedD(1) [OF assms(1)] by (rule fallen_start)
  with falling.run_keeps [OF assms(3), of "unat (Difficulty st)" "unat (system_block_number st)"] assms(2,4)
  show ?thesis by (simp add: fallen_def Let_def)
qed

text \<open>A chain one block before its first adjustment.\<close>

definition sample_retarget :: "u64 list \<Rightarrow> (u64, u64 ledger) Storage" where
  "sample_retarget ps = sample_start\<lparr>Difficulty := 1000, RecentBlockProducers := ps, system_block_number := 99\<rparr>"

lemma sample_retarget_step:
  assumes "length ps \<le> 100"
  obtains st' where "chain_step (sample_externals 1) runtime_config (=) (sample_retarget ps) st'"
    "unat (system_block_number st') div 100 - unat (system_block_number (sample_retarget ps)) div 100 = 1"
    "storage_typed (sample_retarget ps)" "RecentBlockProducers (sample_retarget ps) = ps"
    "unat (Difficulty (sample_retarget ps)) = 1000"
proof -
  have ready: "ready (sample_externals 1) (sample_retarget ps)"
    using assms sample_start_ready
    by (simp add: sample_retarget_def ready_def storage_typed_def headers_sound_def)
  obtain st' where "chain_step (sample_externals 1) runtime_config (=) (sample_retarget ps) st'"
    "unat (system_block_number st') = 100"
    by (rule block_begins_ready [OF _ ready, of "(=)"]) (simp_all add: lists_keys_sorted sample_retarget_def)
  with ready show thesis by (intro that [of st']) (simp_all add: ready_def sample_retarget_def)
qed

section \<open>The bound for any entropy\<close>

text \<open>
  Few producers make mining ever harder, and nothing brings the target back: in every run in
  which the window's entropy stays at most \<open>E\<close>, under the threshold, each of the \<open>c\<close> adjustments
  multiplies the target by at most \<open>(threshold + E) / (2 * threshold)\<close>, down to 1. At entropy 0, that
  of a sole producer, the target is at most 1 after 64 adjustments, 6400 blocks, wherever it started.
\<close>

lemma centralization_collapses_target:
  assumes "storage_typed st" and "E < 4000000" and "(centralized_step X T foreign E)\<^sup>*\<^sup>* st st'"
    and "c = unat (system_block_number st') div 100 - unat (system_block_number st) div 100"
  shows "8000000 ^ c * unat (Difficulty st') \<le> max (8000000 ^ c) ((4000000 + E) ^ c * unat (Difficulty st))
    \<and> (E = 0 \<longrightarrow> 64 \<le> c \<longrightarrow> unat (Difficulty st') \<le> 1)"
  using centralized_run [OF assms]
    halved_away [of 8000000 c "unat (Difficulty st')" 4000000 "unat (Difficulty st)" 1]
    unsigned_less [of "Difficulty st", where ?'a = nat]
  by auto

end
