(* ===== verification/Ghost_Producers.thy ===== *)
theory Ghost_Producers
  imports Ghost_Shannon Ghost_Target
begin

text \<open>
  How many different accounts must produce blocks to keep the target. A window of \<open>k\<close> producers has
  at most \<open>log 2 k\<close> bits of entropy, so up to 14 of them stay below the pallet's threshold of four
  bits, however evenly they share the blocks, and the target collapses.
\<close>

section \<open>The greatest entropy of \<open>k\<close> producers\<close>

lemma weighted_log:
  fixes w k :: real
  assumes "0 < w" and "0 < k"
  shows "w * ln (1 / w) \<le> w * ln k + (1 / k - w)"
proof -
  have "w * ln (1 / (k * w)) \<le> w * (1 / (k * w) - 1)"
    using assms by (intro mult_left_mono ln_le_minus_one) auto
  also have "\<dots> = 1 / k - w" using assms by (simp add: field_simps)
  also have "ln (1 / (k * w)) = ln (1 / w) - ln k" using assms by (simp add: ln_div ln_mult)
  finally show ?thesis by (simp add: algebra_simps)
qed

lemma shannon_le_log_card:
  assumes "ps \<noteq> []"
  shows "shannon ps \<le> log 2 (real (card (set ps)))"
proof -
  define w where "w p = real (count_list ps p) / real (length ps)" for p
  let ?k = "real (card (set ps))"
  have k: "0 < ?k" using assms by (simp add: card_gt_0_iff)
  have pos: "0 < w p" if "p \<in> set ps" for p
    using that assms count_list_0_iff [of ps p] by (simp add: w_def)
  have one: "(\<Sum>p \<in> set ps. w p) = 1"
    using assms sum_count_set [of ps "set ps"] by (simp add: w_def flip: sum_divide_distrib of_nat_sum)
  have "ln 2 * shannon ps = (\<Sum>p \<in> set ps. w p * ln (1 / w p))"
    by (simp add: shannon_def sum_distrib_left log_def w_def)
  also have "\<dots> \<le> (\<Sum>p \<in> set ps. w p * ln ?k + (1 / ?k - w p))"
    by (intro sum_mono weighted_log pos k)
  also have "\<dots> = (\<Sum>p \<in> set ps. w p) * ln ?k + (?k * (1 / ?k) - (\<Sum>p \<in> set ps. w p))"
    by (simp only: sum.distrib sum_subtractf sum_distrib_right sum_constant)
  also have "\<dots> = ln ?k" using assms one by simp
  finally show ?thesis by (simp add: log_def pos_le_divide_eq mult.commute)
qed

lemma share_le:
  assumes "1 \<le> c" and "c \<le> n"
  shows "real (share n c) \<le> real c / real n * (1000000 * log 2 (real n / real c) + 108001)"
proof -
  have n: "0 < n" using assms by simp
  have "real (share n c) \<le> real (c * (log2_scaled n - log2_scaled c)) / real n"
    unfolding share_def by (rule div_bounds)
  also have "\<dots> = real c / real n * (real (log2_scaled n) - real (log2_scaled c))"
    using log2_scaled_mono [OF assms] by (simp add: of_nat_diff)
  also have "\<dots> \<le> real c / real n * (1000000 * log 2 (real n / real c) + 108001)"
    using log2_scaled_close [of n] log2_scaled_close [of c] assms n
    by (intro mult_left_mono) (simp_all add: log_divide)
  finally show ?thesis .
qed

lemma entropy_nat_le_shannon: "real (entropy_nat ps) \<le> 1000000 * shannon ps + 108001"
proof (cases "ps = []")
  case False
  let ?n = "length ps" and ?c = "count_list ps"
  have "real (entropy_nat ps) \<le> (\<Sum>p \<in> set ps. real (?c p) / real ?n * (1000000 * log 2 (real ?n / real (?c p)) + 108001))"
    unfolding entropy_nat_def of_nat_sum
    using count_list_0_iff [of ps] by (intro sum_mono share_le) (auto simp: count_le_length Suc_le_eq)
  also have "\<dots> = 1000000 * shannon ps + (\<Sum>p \<in> set ps. real (?c p)) / real ?n * 108001"
    by (simp add: shannon_def distrib_left sum.distrib sum_distrib_left sum_distrib_right sum_divide_distrib ac_simps)
  also have "(\<Sum>p \<in> set ps. real (?c p)) = real ?n"
    using sum_count_set [of ps "set ps"] by (simp flip: of_nat_sum)
  finally show ?thesis using False by simp
qed (simp add: entropy_nat_def shannon_def)

lemma log_14: "log 2 14 \<le> (80 / 21 :: real)"
proof -
  have "real 21 * log 2 14 = log 2 (14 ^ 21)" by (subst log_nat_power) auto
  also have "\<dots> \<le> log 2 (2 ^ 80)" by (subst log_le_cancel_iff) simp_all
  also have "\<dots> = 80" by (subst log_nat_power) auto
  finally show ?thesis by simp
qed

lemma few_producers_entropy:
  assumes "card (set ps) \<le> 14"
  shows "entropy_nat ps \<le> 3917525"
proof (cases "ps = []")
  case False
  then have "0 < card (set ps)" by (simp add: card_gt_0_iff)
  then have "log 2 (real (card (set ps))) \<le> log 2 14" using assms by simp
  with shannon_le_log_card [OF False] log_14 have "shannon ps \<le> 80 / 21" by linarith
  with entropy_nat_le_shannon [of ps] have "real (entropy_nat ps) < real 3917526" by simp
  then show ?thesis by (simp only: of_nat_less_iff)
qed (simp add: entropy_nat_def)

text \<open>The factor at that entropy is 99/100, which halves within 69 adjustments.\<close>

lemma in_percent:
  assumes "8000000 ^ c * x \<le> max (8000000 ^ c) (7920000 ^ c * d)"
  shows "100 ^ c * x \<le> max (100 ^ c) (99 ^ c * (d :: nat))"
proof -
  have "(8000000 :: nat) ^ c = 80000 ^ c * 100 ^ c" "(7920000 :: nat) ^ c = 80000 ^ c * 99 ^ c"
    by (simp_all flip: power_mult_distrib)
  then have "80000 ^ c * (100 ^ c * x) \<le> 80000 ^ c * max (100 ^ c) (99 ^ c * d)"
    using assms by (simp add: nat_mult_max_right mult.assoc)
  then show ?thesis by (simp only: mult_le_cancel1) simp
qed

lemma percent_halves: "2 * 99 ^ 69 \<le> (100 ^ 69 :: nat)"
  by simp

section \<open>A full window\<close>

text \<open>
  In a full window the rounding down matters too. The share of a producer is a concave function of
  its blocks, greatest in sum when the 100 blocks are spread as evenly as they can be.
\<close>

lemma log2_scaled_at:
  "2 ^ k \<le> n \<Longrightarrow> n < 2 * 2 ^ k \<Longrightarrow> log2_scaled n = k * 1000000 + (n - 2 ^ k) * 1000000 div 2 ^ k"
  by (simp add: log2_scaled_def ilog2_unique)

lemma chord_table:
  "list_all (\<lambda>k. list_all (\<lambda>c. 2 * (c * (6562500 - (k * 1000000 + (c - 2 ^ k) * 1000000 div 2 ^ k)))
     \<le> 21000000 + 4625000 * (c :: nat)) [2 ^ k ..< 2 * 2 ^ k]) [1, 2, 3, 4, 5, 6]"
  by simp

lemma log2_scaled_100: "log2_scaled 100 = 6562500"
  using log2_scaled_at [of 6 100] by simp

text \<open>The chord of \<open>c * (log 100 - log c)\<close> between 6 and 7 blocks lies above it everywhere.\<close>

lemma below_chord:
  assumes "1 \<le> c" and "c \<le> 100"
  shows "2 * (c * (log2_scaled 100 - log2_scaled c)) \<le> 21000000 + 4625000 * c"
proof (cases "c = 1")
  case False
  define k where "k = ilog2 c"
  have b: "2 ^ k \<le> c" "c < 2 * 2 ^ k" using ilog2_bounds [OF assms(1)] by (simp_all add: k_def)
  have "k \<noteq> 0" using b False assms by (intro notI) simp
  moreover have "k \<le> 6"
    using ilog2_mono [of c 100] assms ilog2_unique [of 6 100] by (simp add: k_def)
  ultimately have "k \<in> set [1, 2, 3, 4, 5, 6]" by auto
  then show ?thesis
    using chord_table b unfolding log2_scaled_100 log2_scaled_at [OF b] list_all_iff set_upt
    by (simp only: atLeastLessThan_iff)
qed (simp add: log2_scaled_100)

lemma sixteen_entropy:
  assumes len: "length ps = 100" and few: "card (set ps) \<le> 16"
  shows "entropy_nat ps \<le> 3992500"
proof -
  let ?c = "count_list ps"
  have "2 * (\<Sum>p \<in> set ps. ?c p * (log2_scaled 100 - log2_scaled (?c p)))
      \<le> (\<Sum>p \<in> set ps. 21000000 + 4625000 * ?c p)"
    unfolding sum_distrib_left
    using count_list_0_iff [of ps] count_le_length [of ps] len
    by (intro sum_mono below_chord) (auto simp: Suc_le_eq)
  also have "\<dots> = card (set ps) * 21000000 + 4625000 * 100"
    using sum_count_set [of ps "set ps"] len by (simp add: sum.distrib flip: sum_distrib_left)
  also have "\<dots> \<le> 2 * 399250000" using few by simp
  finally have "(\<Sum>p \<in> set ps. ?c p * (log2_scaled 100 - log2_scaled (?c p))) div 100 \<le> 3992500"
    by simp
  moreover have "entropy_nat ps \<le> (\<Sum>p \<in> set ps. ?c p * (log2_scaled 100 - log2_scaled (?c p))) div 100"
    unfolding entropy_nat_def share_def len by (rule sum_div_le) simp
  ultimately show ?thesis by simp
qed

definition spread :: "(nat \<Rightarrow> nat) \<Rightarrow> nat \<Rightarrow> nat list" where
  "spread f n = concat (map (\<lambda>i. replicate (f i) i) [0 ..< n])"

lemma count_list_replicate: "count_list (replicate m i) p = (if i = p then m else 0)"
  by (induction m) auto

lemma spread_count: "count_list (spread f n) p = (if p < n then f p else 0)"
  by (induction n) (auto simp: spread_def count_list_replicate)

lemma spread_length: "length (spread f n) = sum_list (map f [0 ..< n])"
  by (simp add: spread_def length_concat comp_def)

lemma spread_set: "set (spread f n) = {i. i < n \<and> 0 < f i}"
  by (auto simp: spread_def)

lemma upto_17: "[0 ..< 17] = [0, 1, 2, 3, 4, 5, 6, 7, 8, 9, 10, 11, 12, 13, 14, 15, 16 :: nat]"
  by (simp add: upt_conv_Cons upt_rec [of "Suc 0"])

lemma seventeen:
  fixes qs defines "qs \<equiv> spread (\<lambda>i. if i < 15 then 6 else 5) 17"
  shows "length qs = 100" "set qs = {..< 17}" "entropy_nat qs = 4087500"
proof -
  show l: "length qs = 100" by (simp add: qs_def spread_length upto_17)
  show s: "set qs = {..< 17}" by (auto simp: qs_def spread_set)
  have six: "share 100 6 = 243750" "share 100 5 = 215625"
    using log2_scaled_at [of 2 6] log2_scaled_at [of 2 5] by (simp_all add: share_def log2_scaled_100)
  have "entropy_nat qs = (\<Sum>p \<in> {..< 17 :: nat}. share 100 (if p < 15 then 6 else 5))"
    unfolding entropy_nat_def l s by (intro sum.cong refl) (simp add: qs_def spread_count)
  also have "\<dots> = (\<Sum>p \<in> {..< 17 :: nat}. if p < 15 then 243750 else 215625)"
    by (intro sum.cong refl) (simp add: six)
  also have "\<dots> = sum_list (map (\<lambda>p. if p < 15 then 243750 else 215625) [0 ..< 17])"
    by (simp only: interv_sum_list_conv_sum_set_nat atLeast0LessThan set_upt)
  also have "\<dots> = 4087500" by (simp add: upto_17)
  finally show "entropy_nat qs = 4087500" .
qed
section \<open>Properties\<close>

text \<open>
  C31: A full window of 100 reaches the entropy threshold only with 17 different producers: up to 16,
  whose entropy \<open>log 2 16\<close> the source gives as the threshold, always stay below it, since 100
  blocks are not divided evenly by 16; 17 can reach it.
\<close>

theorem full_window_needs_seventeen:
  assumes "length ps = 100" and "card (set ps) \<le> 16"
  shows "(\<exists>e. calculate_entropy chk ps = Some e \<and> e < entropy_threshold)
    \<and> (\<exists>(qs :: nat list) e. length qs = 100 \<and> card (set qs) = 17
         \<and> calculate_entropy chk qs = Some e \<and> entropy_threshold \<le> e)"
proof
  show "\<exists>e. calculate_entropy chk ps = Some e \<and> e < entropy_threshold"
    using calculate_entropy_eq [of ps chk] sixteen_entropy [OF assms] assms(1)
    by (auto simp: entropy_threshold_def word_less_nat_alt)
  obtain qs :: "nat list" where qs: "length qs = 100" "set qs = {..< 17}" "entropy_nat qs = 4087500"
    using seventeen by blast
  moreover obtain e where "calculate_entropy chk qs = Some e" "unat e = entropy_nat qs"
    using calculate_entropy_eq [of qs chk] qs(1) by auto
  ultimately show "\<exists>(qs :: nat list) e. length qs = 100 \<and> card (set qs) = 17
         \<and> calculate_entropy chk qs = Some e \<and> entropy_threshold \<le> e"
    by (intro exI [of _ qs] exI [of _ e]) (simp add: entropy_threshold_def word_le_nat_alt)
qed

text \<open>Sixteen producers, twelve with six blocks and four with seven.\<close>

theorem full_window_needs_seventeen_witness:
  "\<exists>e. calculate_entropy True (spread (\<lambda>i. if i < 12 then 6 else 7) 16) = Some e \<and> e < entropy_threshold"
proof -
  have "[0 ..< 16] = [0, 1, 2, 3, 4, 5, 6, 7, 8, 9, 10, 11, 12, 13, 14, 15 :: nat]"
    using upto_17 upt_Suc_append [of 0 16] by simp
  then have "length (spread (\<lambda>i. if i < 12 then 6 else 7) 16) = 100" by (simp add: spread_length)
  moreover have "set (spread (\<lambda>i. if i < 12 then 6 else 7) 16) = {..< 16}" by (auto simp: spread_set)
  ultimately show ?thesis
    using full_window_needs_seventeen [of "spread (\<lambda>i. if i < 12 then 6 else 7) 16" True] by simp
qed

text \<open>
  C30: Fourteen producers are too few: in every run in which the window never holds more than 14
  different accounts, however evenly they share the blocks, each adjustment takes at least one
  percent of the target, and after 4416 adjustments (441600 blocks, 26 days) nothing above 1 is left
  of it.
\<close>

theorem fourteen_producers_are_too_few:
  assumes "storage_typed st"
    and "(\<lambda>s t. chain_step X T foreign s t \<and> card (set (RecentBlockProducers s)) \<le> 14)\<^sup>*\<^sup>* st st'"
    and "c = unat (system_block_number st') div 100 - unat (system_block_number st) div 100"
  shows "100 ^ c * unat (Difficulty st') \<le> max (100 ^ c) (99 ^ c * unat (Difficulty st))
    \<and> (4416 \<le> c \<longrightarrow> unat (Difficulty st') \<le> 1)"
proof -
  have "(centralized_step X T foreign 3920000)\<^sup>*\<^sup>* st st'"
    using assms(2) by (rule rtranclp_mono [THEN predicate2D, rotated])
      (auto simp: centralized_step_def dest: few_producers_entropy)
  from centralized_run [OF assms(1) _ this assms(3)]
  have bound: "100 ^ c * unat (Difficulty st') \<le> max (100 ^ c) (99 ^ c * unat (Difficulty st))"
    by (intro in_percent) simp
  moreover have "unat (Difficulty st') \<le> 1" if "4416 \<le> c"
    by (rule halved_away [OF bound _ percent_halves])
      (use that unsigned_less [of "Difficulty st", where ?'a = nat] in simp_all)
  ultimately show ?thesis by blast
qed

theorem fourteen_producers_are_too_few_witness:
  "\<exists>st'. chain_step (sample_externals 1) runtime_config (=)
      (sample_retarget [1, 2, 3, 4, 5, 6, 7, 8, 9, 10, 11, 12, 13, 14]) st'
    \<and> 100 * unat (Difficulty st') \<le> 99 * 1000"
proof -
  define ps :: "u64 list" where "ps = [1, 2, 3, 4, 5, 6, 7, 8, 9, 10, 11, 12, 13, 14]"
  let ?X = "sample_externals 1"
  have length: "length ps = 14" by (simp add: ps_def)
  then obtain st' where step: "chain_step ?X runtime_config (=) (sample_retarget ps) st'"
    and start: "unat (system_block_number st') div 100 - unat (system_block_number (sample_retarget ps)) div 100 = 1"
      "storage_typed (sample_retarget ps)" "RecentBlockProducers (sample_retarget ps) = ps"
      "unat (Difficulty (sample_retarget ps)) = 1000"
    using sample_retarget_step [of ps] by auto
  have "(\<lambda>s t. chain_step ?X runtime_config (=) s t \<and> card (set (RecentBlockProducers s)) \<le> 14)\<^sup>*\<^sup>* (sample_retarget ps) st'"
    by (rule r_into_rtranclp) (use step start(3) length card_length [of ps] in simp)
  from fourteen_producers_are_too_few [OF start(2) this refl] step start(1,4)
  show ?thesis by (auto simp: ps_def)
qed

end
