(* ===== verification/Ghost_Pqc.thy ===== *)
theory Ghost_Pqc
  imports Ghost_Safety
begin

text \<open>
  What the post-quantum signature of \<open>validate_block\<close> protects. With \<open>PqcRequired\<close> an accepted
  validation carries a signature that verifies under the validator's registered key; but the
  verifier only exists with the feature \<open>std\<close>, which the WASM runtime does not have, so there the
  requirement halts the chain. The signed message is the hash of validator and block number, so
  a signature is good for every block with that number.
\<close>

section \<open>With the requirement\<close>

lemma check_pqc_required:
  assumes "cfg_PqcRequired T"
  shows "check_pqc X T v n sig st = Inr () \<longleftrightarrow> (\<exists>key. ValidatorPqcPublicKeys st v = Some key
    \<and> verify_pqc_signature X (as_bytes (ext_hash_of_signed X (v, n))) (pqc_bytes sig) key)"
  using assms by (simp add: check_pqc_def Let_def split: option.split)

lemma verify_needs_std: "verify_pqc_signature X message sig key \<Longrightarrow> ext_std X"
  by (simp add: verify_pqc_signature_def split: if_splits)

lemma no_std_rejects_validation:
  assumes "cfg_PqcRequired T" and "\<not> ext_std X"
  shows "dispatch X T origin (Validate_block n sig) st \<noteq> Some (Inr (), st')"
  using assms verify_needs_std [of X]
  by (auto simp: dispatch_ok dispatch_call_def validate_block_ok check_pqc_required)

text \<open>Without a verifier the validation phase is a trap.\<close>

definition trapped :: "('acc, 'bal) Externals \<Rightarrow> Config \<Rightarrow> ('acc, 'bal) Storage \<Rightarrow> bool" where
  "trapped X T st \<longleftrightarrow> cfg_PqcRequired T \<and> \<not> ext_std X \<and> CurrentPhase st = PosValidation"

interpretation trap: invariant_system "chain_step X T foreign" "trapped X T"
  for X :: "('acc::linorder, 'bal) Externals" and T foreign
proof unfold_locales
  fix s t :: "('acc, 'bal) Storage"
  assume trapped: "trapped X T s" and "chain_step X T foreign s t"
  from this(2) show "trapped X T t"
  proof (cases rule: chain_step.cases)
    case (block_begins n w)
    from on_initialize_fields(1) [OF this(3)] show ?thesis using trapped by (simp add: trapped_def)
  next
    case (extrinsic origin c r)
    from extrinsic(3) show ?thesis
    proof (cases rule: dispatch_consensus_cases)
      case (validated v n sig h w m rw bal)
      then show ?thesis
        using no_std_rejects_validation [of T X origin n sig s t] extrinsic(3) trapped
        by (simp add: trapped_def)
    qed (use trapped in \<open>simp_all add: trapped_def\<close>)
  qed (use trapped in \<open>simp_all add: trapped_def\<close>)
qed

section \<open>Properties\<close>

text \<open>
  Where \<open>PqcRequired\<close> is set, a validation that succeeds was made by an account with a
  registered key under which the given signature verifies for the hash of validator and number.
\<close>

lemma accepted_validation_verified:
  assumes "cfg_PqcRequired T"
    and "dispatch X T (Signed v) (Validate_block n sig) st = Some (Inr (), st')"
  shows "\<exists>key s pk. ValidatorPqcPublicKeys st v = Some key
    \<and> ext_signature_from_bytes X (pqc_bytes sig) = Some s \<and> ext_public_key_from_bytes X key = Some pk
    \<and> ext_verify_detached_signature X s (as_bytes (ext_hash_of_signed X (v, n))) pk"
  using assms
  by (auto simp: dispatch_ok dispatch_call_def validate_block_ok check_pqc_required verify_pqc_signature_def
      split: if_splits option.splits)

text \<open>
  C10: In a runtime without \<open>std\<close>, as the WASM runtime is, setting \<open>PqcRequired\<close> halts the pallet at
  the first mined block: the phase stays PosValidation in every run, and no block is submitted or
  validated ever again, whatever keys are registered.
\<close>

theorem pqc_requirement_halts_wasm:
  assumes "cfg_PqcRequired T" and "\<not> ext_std X" and "CurrentPhase st = PosValidation"
    and "(chain_step X T foreign)\<^sup>*\<^sup>* st st'"
  shows "CurrentPhase st' = PosValidation
    \<and> dispatch X T origin (Validate_block n sig) st' \<noteq> Some (Inr (), st'')
    \<and> dispatch X T origin (Submit_block h) st' \<noteq> Some (Inr (), st'')"
proof -
  have "trapped X T st" using assms(1-3) by (simp add: trapped_def)
  with assms(4) have "trapped X T st'" by (rule trap.run_keeps)
  then have "dispatch X T origin (Submit_block h) st' \<noteq> Some (Inr (), st'')"
    by (auto simp: trapped_def dispatch_ok dispatch_call_def submit_block_ok)
  then show ?thesis
    using no_std_rejects_validation [OF assms(1,2)] \<open>trapped X T st'\<close> by (simp add: trapped_def)
qed

theorem pqc_requirement_halts_wasm_witness:
  "dispatch (sample_externals 1\<lparr>ext_std := False\<rparr>) mock_config (Signed 2) (Validate_block 2 (PqcSignature []))
    (on_finalize 5 sample_chain) \<noteq> Some (Inr (), sample_chain)"
  by (rule pqc_requirement_halts_wasm [THEN conjunct2, THEN conjunct1, OF _ _ _ block_end_run
        [of "sample_externals 1\<lparr>ext_std := False\<rparr>" mock_config "(=)" sample_chain, unfolded sample_chain_simps]])
    (simp_all add: mock_config_def)

text \<open>
  C11: Neither signature of a validated block binds its contents: a validation that succeeds also
  succeeds, with the same PQC signature, when any other header is stored under the number, and
  both blocks carry the same signatures afterwards.
\<close>

theorem signatures_do_not_bind_the_block:
  assumes "dispatch X T (Signed v) (Validate_block n sig) st = Some (Inr (), st1)"
    and "BlockHeaders st n = Some h"
  shows "\<exists>st2. dispatch X T (Signed v) (Validate_block n sig) (st\<lparr>BlockHeaders := (BlockHeaders st)(n \<mapsto> other)\<rparr>)
      = Some (Inr (), st2)
    \<and> (\<exists>h1 h2. BlockHeaders st1 n = Some h1 \<and> BlockHeaders st2 n = Some h2
      \<and> h1 = sign_header X v n sig h \<and> h2 = sign_header X v n sig other
      \<and> bh_validator_signature h1 = bh_validator_signature h2 \<and> bh_pqc_signature h1 = bh_pqc_signature h2)"
proof -
  let ?st = "st\<lparr>BlockHeaders := (BlockHeaders st)(n \<mapsto> other)\<rparr>"
  have stakers: "collect_stakers X ?st = collect_stakers X st" by (simp add: collect_stakers_def)
  have check: "check_pqc X T v n sig ?st = check_pqc X T v n sig st" by (simp add: check_pqc_def)
  from assms obtain sel reward miner bal where call: "ValidatorStakes st v \<noteq> None"
      "CurrentPhase st = PosValidation"
      "select_pos_validator (ext_overflow_checks X) (system_block_number st) (collect_stakers X st)
        (ext_hash_of_seed X (n, system_block_number st)) = Some (Some sel)"
      "sel_validator sel = v" "check_pqc X T v n sig st = Inr ()"
      "calculate_block_reward (ext_overflow_checks X) (cfg_BlockReward T) = Some reward"
      "BlockProducers st n = Some miner"
      "distribute_rewards X miner (collect_stakers X st) reward (balances st) = Some bal"
      and st1: "st1 = validated X v n sig h (sel_weight sel) miner reward bal st"
    by (auto simp: dispatch_ok dispatch_call_def validate_block_ok)
  have "dispatch X T (Signed v) (Validate_block n sig) ?st
      = Some (Inr (), validated X v n sig other (sel_weight sel) miner reward bal ?st)"
    using call by (simp add: dispatch_ok dispatch_call_def validate_block_ok stakers check)
  then show ?thesis using st1 by (simp add: sign_header_def)
qed

theorem signatures_do_not_bind_the_block_witness:
  "\<exists>st1 st2. dispatch (sample_externals 1) runtime_config (Signed 2) (Validate_block 1 (PqcSignature [])) sample_chain
      = Some (Inr (), st1)
    \<and> dispatch (sample_externals 1) runtime_config (Signed 2) (Validate_block 1 (PqcSignature []))
      (sample_chain\<lparr>BlockHeaders := (BlockHeaders sample_chain)(1 \<mapsto> sample_parent)\<rparr>) = Some (Inr (), st2)
    \<and> map_option bh_validator_signature (BlockHeaders st1 1) = map_option bh_validator_signature (BlockHeaders st2 1)"
proof -
  have "(\<exists>st1. dispatch (sample_externals 1) runtime_config (Signed 2) (Validate_block 1 (PqcSignature []))
      sample_chain = Some (Inr (), st1)) \<longleftrightarrow> map_option vs_account (elected (sample_externals 1) sample_chain 1) = Some 2"
    by (rule validate_block_elected [OF sample_chain_voting]) simp_all
  then obtain st1 where call: "dispatch (sample_externals 1) runtime_config (Signed 2) (Validate_block 1 (PqcSignature []))
      sample_chain = Some (Inr (), st1)"
    using sample_chain_elected by auto
  have "\<exists>h. BlockHeaders sample_chain 1 = Some h" by simp
  with call signatures_do_not_bind_the_block [OF call, of _ sample_parent] show ?thesis
    by (metis option.map(2))
qed

end
