(* ===== verification/Ghost_Mock.thy ===== *)
theory Ghost_Mock
  imports Ghost_Safety
begin

text \<open>
  The pallet's test runtime, after \<open>pallets/pallet-ghost-consensus/src/mock.rs\<close>: the genesis that
  \<open>ExtBuilder\<close> builds and the headers of \<open>create_block_header\<close>. What the runtime takes from
  \<open>pallet_balances\<close> is its free balances after genesis, observed by \<open>free\<close>. The repository's
  longest test, a whole round of the protocol, is replayed on the model for every environment.
\<close>

section \<open>The genesis of the test runtime\<close>

definition mock_endowed :: "(u64 \<times> u128) list" where
  "mock_endowed =
     [(1, 100000000000000000000), (2, 100000000000000000000), (3, 100000000000000000000),
      (4, 50000000000000000000), (5, 25000000000000000000)]"

text \<open>The balances \<open>bal\<close> are those that \<open>pallet_balances\<close> assimilates from the list.\<close>

definition endowed_with :: "(u64 \<Rightarrow> 'bal \<Rightarrow> nat) \<Rightarrow> (u64 \<times> u128) list \<Rightarrow> 'bal \<Rightarrow> bool" where
  "endowed_with free ps bal \<longleftrightarrow> (\<forall>a. free a bal = value_at (map_of ps) a)"

definition ExtBuilder_build :: "'bal \<Rightarrow> (u64, 'bal) Storage" where
  "ExtBuilder_build bal =
     (let st = genesis_storage bal;
          st = st\<lparr>Difficulty := 1000000000000\<rparr>;
          st = st\<lparr>CurrentPhase := PowMining\<rparr>
      in st)"

text \<open>
  \<open>create_block_header\<close>, with the two instances of \<open>BlakeTwo256::hash_of\<close> it uses: at a block
  number, and at a pair of a block number and a string.
\<close>

definition create_block_header ::
  "(u32 \<Rightarrow> H256) \<Rightarrow> (u32 \<times> string \<Rightarrow> H256) \<Rightarrow> u32 \<Rightarrow> u64 \<Rightarrow> GhostBlockHeader" where
  "create_block_header hash_of_number hash_of_tagged number nonce =
     (let parent_hash = (if number = 0 then 0 else hash_of_number (number - 1))
      in \<lparr>bh_number = number, bh_parent_hash = parent_hash,
          bh_state_root = hash_of_tagged (number, ''state''),
          bh_extrinsics_root = hash_of_tagged (number, ''extrinsics''),
          bh_nonce = nonce, bh_difficulty = 1000000000000,
          bh_validator_signature = None, bh_pqc_signature = None\<rparr>)"

lemma create_block_header_fields [simp]:
  "bh_number (create_block_header hn ht number nonce) = number"
  "bh_nonce (create_block_header hn ht number nonce) = nonce"
  by (simp_all add: create_block_header_def)

section \<open>A round of the test runtime\<close>

text \<open>
  \<open>test_submit_block_tracks_miner_and_validate_block_distributes_rewards\<close> of \<open>tests.rs\<close>: account 2
  stakes 10 GHOST and registers a key, account 1 submits block 1 on a header stored by hand,
  account 2 validates it. The key and the signature are arguments.
\<close>

definition test_round ::
  "(u64, 'bal) Externals \<Rightarrow> (u32 \<Rightarrow> H256) \<Rightarrow> (u32 \<times> string \<Rightarrow> H256) \<Rightarrow> bytes \<Rightarrow> PqcSignature \<Rightarrow> 'bal
    \<Rightarrow> ((DispatchError + unit) list \<times> (u64, 'bal) Storage) option" where
  "test_round X hash_of_number hash_of_tagged public_key pqc_signature bal =
     (let st = ExtBuilder_build bal;
          st = st\<lparr>Difficulty := - 1\<rparr>;
          st = st\<lparr>CurrentPhase := PowMining\<rparr>
      in do {
        (r1, st) \<leftarrow> dispatch X mock_config (Signed 2) (Stake 10000000000000000000) st;
        (r2, st) \<leftarrow> dispatch X mock_config (Signed 2) (Register_pqc_key public_key) st;
        let parent_header = create_block_header hash_of_number hash_of_tagged 0 99;
        let st = st\<lparr>BlockHeaders := (BlockHeaders st)(0 \<mapsto> parent_header)\<rparr>;
        let child_header = (create_block_header hash_of_number hash_of_tagged 1 123)
          \<lparr>bh_parent_hash := ext_hash_of_header X parent_header, bh_difficulty := - 1\<rparr>;
        (r3, st) \<leftarrow> dispatch X mock_config (Signed 1) (Submit_block child_header) st;
        (r4, st) \<leftarrow> dispatch X mock_config (Signed 2) (Validate_block 1 pqc_signature) st;
        Some ([r1, r2, r3, r4], st)
      })"

lemma lists_one_key:
  assumes "lists_keys order"
  shows "storage_iter order [k \<mapsto> v] = [(k, v)]"
proof -
  have keys: "set (order {k}) = {k}" "distinct (order {k})"
    using assms by (simp_all add: lists_keys_def)
  then have "length (order {k}) = 1" using distinct_card [of "order {k}"] by simp
  then obtain x where "order {k} = [x]" by (auto simp: length_Suc_conv)
  with keys show ?thesis by (simp add: storage_iter_def)
qed

lemma one_staker_elected:
  assumes "0 < unat (vs_weight s)"
  shows "select_pos_validator chk n [s] seed = Some (Some (selection_of n s))"
  using assms unat_bound [of "vs_weight s"]
  by (subst select_pos_validator_pick) simp_all

lemma validate_block_applies:
  assumes "ValidatorStakes st v \<noteq> None" and "BlockHeaders st n = Some h" and "CurrentPhase st = PosValidation"
    and "select_pos_validator (ext_overflow_checks X) (system_block_number st) (collect_stakers X st)
      (ext_hash_of_seed X (n, system_block_number st)) = Some (Some sel)"
    and "sel_validator sel = v" and "sel_weight sel = w" and "check_pqc X T v n sig st = Inr ()"
    and "calculate_block_reward (ext_overflow_checks X) (cfg_BlockReward T) = Some r"
    and "BlockProducers st n = Some m"
    and "distribute_rewards X m (collect_stakers X st) r (balances st) = Some bal"
  shows "dispatch X T (Signed v) (Validate_block n sig) st = Some (Inr (), validated X v n sig h w m r bal st)"
  using assms by (auto simp: dispatch_ok dispatch_call_def validate_block_ok)

lemma mock_reward:
  "calculate_block_reward chk (cfg_BlockReward mock_config)
    = Some \<lparr>br_total = 10000000000000000000, br_miner_reward = 4000000000000000000,
            br_stakers_reward = 6000000000000000000\<rparr>"
  by (subst calculate_block_reward_eq) (simp_all add: mock_config_def)

section \<open>Properties\<close>

text \<open>
  C37: A whole round succeeds in the test runtime and pays what the repository's test expects: for
  every environment in which account 2 can pay its stake and the given signature verifies under
  the registered key, all four calls are accepted, the block is attributed and signed, the miner
  ends with 104 and the validator with 96 GHOST, and the escrow account keeps the stake.
\<close>

theorem mock_round_pays:
  assumes keys: "lists_keys (ext_key_order X)"
    and laws: "balances_pallet (ext_transfer X) (ext_deposit_creating X) free 1"
    and genesis: "endowed_with free mock_endowed bal"
    and escrow: "account_id X mock_config \<notin> fst ` set mock_endowed"
    and pays: "ext_transfer X 2 (account_id X mock_config) 10000000000000000000 KeepAlive bal = Inr paid"
    and signed: "verify_pqc_signature X (as_bytes (ext_hash_of_signed X (2, 1))) (pqc_bytes sig) key"
  shows "\<exists>st h. test_round X hash_of_number hash_of_tagged key sig bal = Some ([Inr (), Inr (), Inr (), Inr ()], st)
    \<and> CurrentPhase st = Finalization \<and> BlockProducers st 1 = Some 1
    \<and> BlockHeaders st 1 = Some h \<and> bh_validator_signature h \<noteq> None
    \<and> free 1 (balances st) = 104000000000000000000
    \<and> free 2 (balances st) = 96000000000000000000
    \<and> free (account_id X mock_config) (balances st) = 10000000000000000000"
proof -
  let ?escrow = "account_id X mock_config" and ?s = "\<lparr>vs_account = 2 :: u64,
    vs_stake = 10000000000000000000, vs_weight = 10000000000000000000\<rparr>"
  let ?r = "\<lparr>br_total = 10000000000000000000, br_miner_reward = 4000000000000000000 :: u128,
            br_stakers_reward = 6000000000000000000\<rparr>"
  let ?parent = "create_block_header hash_of_number hash_of_tagged 0 99"
  let ?child = "(create_block_header hash_of_number hash_of_tagged 1 123)
    \<lparr>bh_parent_hash := ext_hash_of_header X ?parent, bh_difficulty := - 1\<rparr>"
  let ?st0 = "(ExtBuilder_build bal :: (u64, 'a) Storage)\<lparr>Difficulty := - 1, CurrentPhase := PowMining\<rparr>"
  let ?st1 = "staked 2 10000000000000000000 paid ?st0"
  let ?st2 = "?st1\<lparr>ValidatorPqcPublicKeys := (ValidatorPqcPublicKeys ?st1)(2 \<mapsto> key)\<rparr>"
  let ?st3 = "?st2\<lparr>BlockHeaders := (BlockHeaders ?st2)(0 \<mapsto> ?parent)\<rparr>"
  let ?st4 = "mined 1 ?child ?st3"
  note start = ExtBuilder_build_def genesis_storage_def Let_def
  have e: "?escrow \<noteq> 1" "?escrow \<noteq> 2" using escrow by (auto simp: mock_endowed_def)
  have free0: "free 1 bal = 100000000000000000000" "free 2 bal = 100000000000000000000" "free ?escrow bal = 0"
    using genesis escrow by (auto simp: endowed_with_def mock_endowed_def value_at_def)
  have free1: "free 1 paid = 100000000000000000000" "free 2 paid = 90000000000000000000"
      "free ?escrow paid = 10000000000000000000"
    using balances_pallet.transfer_other [OF laws pays, of 1] balances_pallet.transfer_from [OF laws pays]
      balances_pallet.transfer_to [OF laws pays] e free0 by auto
  have stakes: "collect_stakers X ?st4 = [?s]"
    using lists_one_key [OF keys, of 2 "10000000000000000000 :: u128"] by (simp add: collect_stakers_def start saturated_into_def)
  let ?mid = "ext_deposit_creating X 1 4000000000000000000 paid"
  let ?bal = "ext_deposit_creating X 2 6000000000000000000 ?mid"
  have paid: "distribute_rewards X 1 [?s] ?r paid = Some ?bal"
    by (simp add: distribute_rewards_def add_stake_def pay_staker_def add_w_def mul_w_def div_w_def)
  have mid: "free 1 ?mid = 104000000000000000000" "c \<noteq> 1 \<Longrightarrow> free c ?mid = free c paid" for c
    using balances_pallet.deposit_credited [OF laws, of 1 paid 4000000000000000000]
      balances_pallet.deposit_other [OF laws, of c 1 4000000000000000000 paid] free1 by auto
  have final: "free 2 ?bal = 96000000000000000000" "c \<noteq> 2 \<Longrightarrow> free c ?bal = free c ?mid" for c
    using balances_pallet.deposit_credited [OF laws, of 2 ?mid 6000000000000000000]
      balances_pallet.deposit_other [OF laws, of c 2 6000000000000000000 ?mid] free1 mid(2) [of 2] by auto
  have s1: "dispatch X mock_config (Signed 2) (Stake 10000000000000000000) ?st0 = Some (Inr (), ?st1)"
    using pays by (simp add: dispatch_ok dispatch_call_def stake_ok start mock_config_def add_w_def)
  have s2: "dispatch X mock_config (Signed 2) (Register_pqc_key key) ?st1 = Some (Inr (), ?st2)"
    by (simp add: dispatch_ok dispatch_call_def register_pqc_key_ok)
  have valid: "validate_block_header X (- 1) ?child ?parent = Some (Inr ())"
    by (simp add: validate_block_header_def create_block_header_def Let_def add_w_def pow_enhanced.max_target
        saturating_div_def saturating_mul_def word_less_nat_alt unat_minus_one_max)
  have s3: "dispatch X mock_config (Signed 1) (Submit_block ?child) ?st3 = Some (Inr (), ?st4)"
    using valid by (simp add: dispatch_ok dispatch_call_def submit_block_ok start)
  have check: "check_pqc X mock_config 2 1 sig ?st4 = Inr ()"
    using signed by (simp add: check_pqc_def mock_config_def mined_def staked_def start deposit_event_def)
  obtain st4 where st4: "?st4 = st4" by blast
  have fields: "ValidatorStakes st4 2 \<noteq> None" "BlockHeaders st4 1 = Some ?child"
      "CurrentPhase st4 = PosValidation" "BlockProducers st4 1 = Some 1" "balances st4 = paid"
    by (simp_all add: start flip: st4)
  have s4: "dispatch X mock_config (Signed 2) (Validate_block 1 sig) st4
      = Some (Inr (), validated X 2 1 sig ?child (vs_weight ?s) 1 ?r ?bal st4)"
    by (rule validate_block_applies [where sel = "selection_of (system_block_number st4) ?s"])
      (simp_all add: fields one_staker_elected selection_of_def check [unfolded st4] paid mock_reward
        stakes [unfolded st4])
  show ?thesis
    using final mid free1 e s1 s2 s3 [unfolded st4] s4 fields by (simp add: test_round_def Let_def sign_header_def)
qed

definition mock_ledger :: "u64 ledger" where
  "mock_ledger a = (case map_of mock_endowed a of None \<Rightarrow> 0 | Some v \<Rightarrow> v)"

lemma sample_verifies: "verify_pqc_signature (sample_externals ed) m (replicate 4627 0) (replicate 2592 0)"
  by (simp add: verify_pqc_signature_def) (simp add: sample_externals_def)

theorem mock_round_pays_witness:
  "\<exists>st. test_round (sample_externals 1) (\<lambda>n. ucast n) (\<lambda>(n, tag). ucast n) (replicate 2592 0)
      (PqcSignature (replicate 4627 0)) mock_ledger = Some ([Inr (), Inr (), Inr (), Inr ()], st)
    \<and> ledger_free 1 (balances st) = 104000000000000000000"
proof -
  let ?X = "sample_externals 1" and ?sig = "PqcSignature (replicate 4627 0)"
  have a: "lists_keys (ext_key_order ?X)" by (simp add: lists_keys_sorted)
  have b: "endowed_with ledger_free mock_endowed mock_ledger"
    by (simp add: endowed_with_def ledger_free_def mock_ledger_def value_at_def split: option.split)
  have c: "account_id ?X mock_config \<notin> fst ` set mock_endowed"
    by (simp add: account_id_def mock_endowed_def)
  have d: "ext_transfer ?X 2 (account_id ?X mock_config) 10000000000000000000 KeepAlive mock_ledger
    = Inr (mock_ledger(2 := 90000000000000000000, 999 := 10000000000000000000))"
    by (simp add: account_id_def ledger_transfer_def mock_ledger_def mock_endowed_def)
  have e: "verify_pqc_signature ?X (as_bytes (ext_hash_of_signed ?X (2, 1))) (pqc_bytes ?sig) (replicate 2592 0)"
    by (simp only: PqcSignature.sel sample_verifies)
  show ?thesis
    using mock_round_pays [OF a sample_laws b c d e, of "\<lambda>n. ucast n" "\<lambda>(n, tag). ucast n"] by blast
qed

end
