(* ===== verification/Ghost_Miner.thy ===== *)
theory Ghost_Miner
  imports Ghost_Pow
begin

text \<open>
  The multi-threaded miner of \<open>node/src/miner.rs\<close>. Its threads share three atomics and a counter
  and run in any interleaving; one step of the model is one atomic operation of one thread, or a
  call of \<open>stop\<close> from outside. The accesses are \<open>SeqCst\<close> (the counter is a single \<open>fetch_add\<close>), so
  interleaving them is what the source promises. Printing, sleeping and the clock are left out;
  of \<open>MiningStats\<close> the two counters are kept. The number of threads, a \<open>usize\<close>, is taken as a
  \<open>u64\<close>, which it is on the 64-bit targets the node is built for.
\<close>

section \<open>Definitions\<close>

record MiningBlockHeader =
  mh_number :: u32
  mh_parent_hash :: H256
  mh_state_root :: H256
  mh_extrinsics_root :: H256
  mh_difficulty :: u64

record MiningStats =
  ms_hashes_computed :: u64
  ms_blocks_found :: u64

record Miner =
  mi_threads :: u64
  mi_target_difficulty :: u64
  mi_running :: bool
  mi_hashes :: u64

definition Miner_new :: "u64 \<Rightarrow> u64 \<Rightarrow> Miner" where
  "Miner_new threads target_difficulty = \<lparr>mi_threads = threads, mi_target_difficulty = target_difficulty,
     mi_running = False, mi_hashes = 0\<rparr>"

text \<open>The hash a thread computes for a nonce.\<close>

definition mining_hash :: "('acc, 'bal) Externals \<Rightarrow> MiningBlockHeader \<Rightarrow> u64 \<Rightarrow> u64" where
  "mining_hash X header nonce =
     (let hash_input = (mh_number header, mh_parent_hash header, mh_state_root header,
            mh_extrinsics_root header, nonce);
          first_hash = ext_hash_of_pow_input X hash_input;
          final_hash = ext_hash_of_hash X first_hash
      in hash_prefix final_hash)"

text \<open>Where a thread is in its loop: before which atomic operation, or at its end.\<close>

datatype WorkerPc = Load_running | Load_found | Hashing | Store_found | Store_nonce | Store_running | Joined

record Worker =
  wk_pc :: WorkerPc
  wk_nonce :: u64

record Mining =
  mr_running :: bool
  mr_hashes :: u64
  mr_found_nonce :: u64
  mr_found_solution :: bool
  mr_workers :: "Worker list"

text \<open>\<open>start\<close> up to the spawned threads. One that has not begun yet is one before its first load.\<close>

definition mining_target :: "Miner \<Rightarrow> MiningBlockHeader \<Rightarrow> u64" where
  "mining_target m block_header = min (mi_target_difficulty m) (mh_difficulty block_header)"

definition start :: "Miner \<Rightarrow> Mining" where
  "start m = \<lparr>mr_running = True, mr_hashes = mi_hashes m, mr_found_nonce = 0, mr_found_solution = False,
     mr_workers = map (\<lambda>thread_id. \<lparr>wk_pc = Load_running, wk_nonce = of_nat thread_id\<rparr>)
       [0 ..< unat (mi_threads m)]\<rparr>"

text \<open>The next operation of thread \<open>i\<close>, for the test \<open>hit\<close> of a nonce and the stride \<open>step\<close>.\<close>

definition set_worker :: "nat \<Rightarrow> WorkerPc \<Rightarrow> Mining \<Rightarrow> Mining" where
  "set_worker i pc s = s\<lparr>mr_workers := (mr_workers s)[i := (mr_workers s ! i)\<lparr>wk_pc := pc\<rparr>]\<rparr>"

definition advance :: "(u64 \<Rightarrow> bool) \<Rightarrow> u64 \<Rightarrow> nat \<Rightarrow> Mining \<Rightarrow> Mining" where
  "advance hit step i s =
     (let w = mr_workers s ! i
      in case wk_pc w of
        Load_running \<Rightarrow> set_worker i (if mr_running s then Load_found else Joined) s
      | Load_found \<Rightarrow> set_worker i (if \<not> mr_found_solution s then Hashing else Joined) s
      | Hashing \<Rightarrow>
          let s = s\<lparr>mr_hashes := mr_hashes s + 1\<rparr>
          in if hit (wk_nonce w) then set_worker i Store_found s
             else set_worker i Load_running
               (s\<lparr>mr_workers := (mr_workers s)[i := w\<lparr>wk_nonce := wk_nonce w + step\<rparr>]\<rparr>)
      | Store_found \<Rightarrow> set_worker i Store_nonce (s\<lparr>mr_found_solution := True\<rparr>)
      | Store_nonce \<Rightarrow> set_worker i Store_running (s\<lparr>mr_found_nonce := wk_nonce w\<rparr>)
      | Store_running \<Rightarrow> set_worker i Joined (s\<lparr>mr_running := False\<rparr>)
      | Joined \<Rightarrow> s)"

definition stop :: "Mining \<Rightarrow> Mining" where
  "stop s = s\<lparr>mr_running := False\<rparr>"

text \<open>A miner that goes out of scope stops its threads.\<close>

definition Miner_drop :: "Mining \<Rightarrow> Mining" where
  "Miner_drop s = stop s"

inductive worker_step :: "(u64 \<Rightarrow> bool) \<Rightarrow> u64 \<Rightarrow> Mining \<Rightarrow> Mining \<Rightarrow> bool" for hit step where
  "i < length (mr_workers s) \<Longrightarrow> wk_pc (mr_workers s ! i) \<noteq> Joined \<Longrightarrow>
     worker_step hit step s (advance hit step i s)"

inductive mining_step :: "(u64 \<Rightarrow> bool) \<Rightarrow> u64 \<Rightarrow> Mining \<Rightarrow> Mining \<Rightarrow> bool" for hit step where
  by_worker: "worker_step hit step s t \<Longrightarrow> mining_step hit step s t"
| by_stop: "mining_step hit step s (stop s)"

inductive_cases worker_stepE: "worker_step hit step s t"

inductive_simps mining_step_iff: "mining_step hit step s t"

definition all_joined :: "Mining \<Rightarrow> bool" where
  "all_joined s \<longleftrightarrow> (\<forall>w \<in> set (mr_workers s). wk_pc w = Joined)"

text \<open>What \<open>start\<close> returns once every thread is joined.\<close>

definition mining_result :: "Mining \<Rightarrow> (u64 \<times> MiningStats) option" where
  "mining_result s =
     (let stats = \<lparr>ms_hashes_computed = mr_hashes s, ms_blocks_found = (if mr_found_solution s then 1 else 0)\<rparr>
      in if mr_found_solution s then Some (mr_found_nonce s, stats) else None)"

text \<open>The run of the threads that one call of \<open>start\<close> makes.\<close>

definition mining_run :: "('acc, 'bal) Externals \<Rightarrow> Miner \<Rightarrow> MiningBlockHeader \<Rightarrow> Mining \<Rightarrow> bool" where
  "mining_run X m header s \<longleftrightarrow>
     (mining_step (\<lambda>nonce. mining_hash X header nonce \<le> mining_target m header) (mi_threads m))\<^sup>*\<^sup>* (start m) s"

section \<open>Invariants of the threads\<close>

text \<open>
  A thread past its test holds a hit. The shared nonce is a hit from the moment one thread has
  stored it; in between, a thread that has announced the solution is about to store it.
\<close>

definition stored :: "(u64 \<Rightarrow> bool) \<Rightarrow> Mining \<Rightarrow> bool" where
  "stored hit s \<longleftrightarrow> hit (mr_found_nonce s) \<and> (\<exists>j < length (mr_workers s).
     wk_pc (mr_workers s ! j) \<in> {Store_running, Joined} \<and> wk_nonce (mr_workers s ! j) = mr_found_nonce s)"

definition results_sound :: "(u64 \<Rightarrow> bool) \<Rightarrow> Mining \<Rightarrow> bool" where
  "results_sound hit s \<longleftrightarrow>
     (\<forall>j < length (mr_workers s). wk_pc (mr_workers s ! j) \<in> {Store_found, Store_nonce, Store_running}
        \<longrightarrow> hit (wk_nonce (mr_workers s ! j)))
     \<and> (mr_found_solution s \<longrightarrow> stored hit s
        \<or> (\<exists>j < length (mr_workers s). wk_pc (mr_workers s ! j) = Store_nonce))"

text \<open>Thread \<open>i\<close> tries the nonces \<open>i\<close>, \<open>i + step\<close>, \<open>i + 2 * step\<close> and so on, missing none.\<close>

definition lane :: "u64 \<Rightarrow> nat \<Rightarrow> nat \<Rightarrow> u64" where
  "lane step i k = of_nat i + of_nat k * step"

definition lanes_sound :: "(u64 \<Rightarrow> bool) \<Rightarrow> u64 \<Rightarrow> Mining \<Rightarrow> bool" where
  "lanes_sound hit step s \<longleftrightarrow> (\<forall>i < length (mr_workers s).
     \<exists>k. wk_nonce (mr_workers s ! i) = lane step i k \<and> (\<forall>j < k. \<not> hit (lane step i j)))"

lemma set_worker_fields [simp]:
  "mr_running (set_worker i pc s) = mr_running s" "mr_hashes (set_worker i pc s) = mr_hashes s"
  "mr_found_nonce (set_worker i pc s) = mr_found_nonce s"
  "mr_found_solution (set_worker i pc s) = mr_found_solution s"
  "mr_workers (set_worker i pc s) = (mr_workers s)[i := (mr_workers s ! i)\<lparr>wk_pc := pc\<rparr>]"
  by (simp_all add: set_worker_def)

lemma length_advance [simp]: "length (mr_workers (advance hit step i s)) = length (mr_workers s)"
  by (simp add: advance_def Let_def split: WorkerPc.split)

text \<open>What one operation does to each thread and to the shared cells.\<close>

definition next_pc :: "(u64 \<Rightarrow> bool) \<Rightarrow> Mining \<Rightarrow> Worker \<Rightarrow> WorkerPc" where
  "next_pc hit s w = (case wk_pc w of
       Load_running \<Rightarrow> if mr_running s then Load_found else Joined
     | Load_found \<Rightarrow> if mr_found_solution s then Joined else Hashing
     | Hashing \<Rightarrow> if hit (wk_nonce w) then Store_found else Load_running
     | Store_found \<Rightarrow> Store_nonce
     | Store_nonce \<Rightarrow> Store_running
     | Store_running \<Rightarrow> Joined
     | Joined \<Rightarrow> Joined)"

lemma advance_pc:
  assumes "i < length (mr_workers s)" and "j < length (mr_workers s)"
  shows "wk_pc (mr_workers (advance hit step i s) ! j)
    = (if j = i then next_pc hit s (mr_workers s ! i) else wk_pc (mr_workers s ! j))"
  using assms
  by (cases "wk_pc (mr_workers s ! i)"; cases "j = i") (simp_all add: advance_def next_pc_def Let_def)

lemma advance_nonce:
  assumes "i < length (mr_workers s)" and "j < length (mr_workers s)"
  shows "wk_nonce (mr_workers (advance hit step i s) ! j)
    = (if j = i \<and> wk_pc (mr_workers s ! i) = Hashing \<and> \<not> hit (wk_nonce (mr_workers s ! i))
       then wk_nonce (mr_workers s ! j) + step else wk_nonce (mr_workers s ! j))"
  using assms by (cases "wk_pc (mr_workers s ! i)"; cases "j = i") (simp_all add: advance_def Let_def)

lemma advance_shared:
  "mr_found_solution (advance hit step i s) = (mr_found_solution s \<or> wk_pc (mr_workers s ! i) = Store_found)"
  "mr_found_nonce (advance hit step i s)
    = (if wk_pc (mr_workers s ! i) = Store_nonce then wk_nonce (mr_workers s ! i) else mr_found_nonce s)"
  "mr_running (advance hit step i s) = (mr_running s \<and> wk_pc (mr_workers s ! i) \<noteq> Store_running)"
  "mr_hashes (advance hit step i s) = mr_hashes s + (if wk_pc (mr_workers s ! i) = Hashing then 1 else 0)"
  by (cases "wk_pc (mr_workers s ! i)"; simp add: advance_def Let_def)+

lemma next_pc_store:
  "next_pc hit s w = Store_nonce \<longleftrightarrow> wk_pc w = Store_found"
  "next_pc hit s w \<in> {Store_found, Store_nonce, Store_running} \<Longrightarrow>
     wk_pc w \<in> {Store_found, Store_nonce} \<or> wk_pc w = Hashing \<and> hit (wk_nonce w)"
  by (cases "wk_pc w"; simp add: next_pc_def split: if_splits)+

lemma stored_by:
  assumes "wk_pc (mr_workers s ! i) = Store_nonce" and "hit (wk_nonce (mr_workers s ! i))"
    and i: "i < length (mr_workers s)"
  shows "stored hit (advance hit step i s)"
  unfolding stored_def length_advance
proof (intro conjI exI [of _ i])
  show "wk_pc (mr_workers (advance hit step i s) ! i) \<in> {Store_running, Joined}"
    using assms(1) by (simp add: advance_pc [OF i i] next_pc_def)
qed (use assms in \<open>simp_all add: advance_shared advance_nonce\<close>)

lemma stored_advance:
  assumes "stored hit s" and i: "i < length (mr_workers s)" and "wk_pc (mr_workers s ! i) \<noteq> Store_nonce"
  shows "stored hit (advance hit step i s)"
proof -
  obtain j where j: "j < length (mr_workers s)" and pc: "wk_pc (mr_workers s ! j) \<in> {Store_running, Joined}"
    and nonce: "wk_nonce (mr_workers s ! j) = mr_found_nonce s" and hit: "hit (mr_found_nonce s)"
    using assms(1) unfolding stored_def by blast
  have "wk_pc (mr_workers (advance hit step i s) ! j) \<in> {Store_running, Joined}"
    using pc by (auto simp: advance_pc [OF i j] next_pc_def)
  moreover have "wk_nonce (mr_workers (advance hit step i s) ! j) = mr_found_nonce s"
    using pc nonce by (auto simp: advance_nonce [OF i j])
  ultimately show ?thesis
    unfolding stored_def length_advance using j hit assms(3) by (auto simp: advance_shared)
qed

lemma results_sound_advance:
  assumes "results_sound hit s" and i: "i < length (mr_workers s)"
  shows "results_sound hit (advance hit step i s)"
proof -
  let ?t = "advance hit step i s"
  have held: "\<And>j. j < length (mr_workers s) \<Longrightarrow>
      wk_pc (mr_workers s ! j) \<in> {Store_found, Store_nonce, Store_running} \<Longrightarrow> hit (wk_nonce (mr_workers s ! j))"
    and shared: "mr_found_solution s \<Longrightarrow> stored hit s
      \<or> (\<exists>j < length (mr_workers s). wk_pc (mr_workers s ! j) = Store_nonce)"
    using assms(1) unfolding results_sound_def by blast+
  have "hit (wk_nonce (mr_workers ?t ! j))"
    if j: "j < length (mr_workers s)" and pc: "wk_pc (mr_workers ?t ! j) \<in> {Store_found, Store_nonce, Store_running}"
    for j
  proof (cases "j = i")
    case True
    then show ?thesis
      using pc held [OF i] next_pc_store(2) [of hit s "mr_workers s ! i"] i
      by (auto simp: advance_pc advance_nonce)
  next
    case False
    then show ?thesis using pc held [OF j] i j by (simp add: advance_pc advance_nonce)
  qed
  moreover have "stored hit ?t \<or> (\<exists>j < length (mr_workers s). wk_pc (mr_workers ?t ! j) = Store_nonce)"
    if found: "mr_found_solution ?t"
  proof (cases "wk_pc (mr_workers s ! i) \<in> {Store_nonce, Store_found}")
    case True
    then show ?thesis
    proof (elim insertE emptyE)
      assume "wk_pc (mr_workers s ! i) = Store_nonce"
      then have "stored hit ?t" using held [OF i] stored_by i by simp
      then show ?thesis ..
    qed (use i in \<open>auto simp: advance_pc next_pc_store\<close>)
  next
    case False
    with found have "mr_found_solution s" by (simp add: advance_shared)
    from shared [OF this] show ?thesis
    proof
      assume "stored hit s"
      then have "stored hit ?t" using False i by (intro stored_advance) auto
      then show ?thesis ..
    next
      assume "\<exists>j < length (mr_workers s). wk_pc (mr_workers s ! j) = Store_nonce"
      then obtain j where "j < length (mr_workers s)" "wk_pc (mr_workers s ! j) = Store_nonce" by blast
      with False i show ?thesis by (intro disjI2 exI [of _ j]) (auto simp: advance_pc)
    qed
  qed
  ultimately show ?thesis by (simp add: results_sound_def)
qed

lemma lane_next: "lane step i (Suc k) = lane step i k + step"
  by (simp add: lane_def algebra_simps)

lemma lanes_sound_advance:
  assumes "lanes_sound hit step s" and i: "i < length (mr_workers s)"
  shows "lanes_sound hit step (advance hit step i s)"
  unfolding lanes_sound_def length_advance
proof (intro allI impI)
  fix j assume j: "j < length (mr_workers s)"
  obtain k where k: "wk_nonce (mr_workers s ! j) = lane step j k" "\<forall>l < k. \<not> hit (lane step j l)"
    using assms(1) j by (auto simp: lanes_sound_def)
  show "\<exists>k. wk_nonce (mr_workers (advance hit step i s) ! j) = lane step j k \<and> (\<forall>l < k. \<not> hit (lane step j l))"
  proof (cases "j = i \<and> wk_pc (mr_workers s ! i) = Hashing \<and> \<not> hit (wk_nonce (mr_workers s ! i))")
    case True
    with k i show ?thesis by (intro exI [of _ "Suc k"]) (auto simp: advance_nonce lane_next less_Suc_eq)
  next
    case False
    with k show ?thesis by (intro exI [of _ k]) (simp only: advance_nonce [OF i j] if_False simp_thms)
  qed
qed

interpretation results: invariant_system "mining_step hit step" "results_sound hit" for hit step
proof unfold_locales
  fix s t
  assume inv: "results_sound hit s" and "mining_step hit step s t"
  from this(2) show "results_sound hit t"
  proof cases
    case by_worker
    then show ?thesis by cases (use inv results_sound_advance in auto)
  next
    case by_stop
    then show ?thesis using inv by (simp add: results_sound_def stored_def stop_def)
  qed
qed

interpretation lanes: invariant_system "mining_step hit step" "lanes_sound hit step" for hit step
proof unfold_locales
  fix s t
  assume inv: "lanes_sound hit step s" and "mining_step hit step s t"
  from this(2) show "lanes_sound hit step t"
  proof cases
    case by_worker
    then show ?thesis by cases (use inv lanes_sound_advance in auto)
  next
    case by_stop
    then show ?thesis using inv by (simp add: lanes_sound_def stop_def)
  qed
qed

lemma start_sound: "results_sound hit (start m)" "lanes_sound hit step (start m)"
  by (auto simp: results_sound_def lanes_sound_def start_def lane_def intro!: exI [of _ 0])

lemma length_workers:
  assumes "mining_step hit step s t"
  shows "length (mr_workers t) = length (mr_workers s)"
  using assms by (auto simp: mining_step_iff stop_def elim: worker_stepE)

lemma mining_run_length:
  assumes "mining_run X m header s"
  shows "length (mr_workers s) = unat (mi_threads m)"
proof -
  have "length (mr_workers s) = length (mr_workers (start m))"
    using assms unfolding mining_run_def
    by (induction rule: rtranclp_induct) (simp_all add: length_workers)
  then show ?thesis by (simp add: start_def)
qed

text \<open>When all threads are joined, an announced solution is stored, and its lane was searched in order.\<close>

lemma joined_result:
  assumes "(mining_step hit step)\<^sup>*\<^sup>* (start m) s" and "all_joined s" and "mr_found_solution s"
  obtains i k where "i < length (mr_workers s)" "mr_found_nonce s = lane step i k" "hit (mr_found_nonce s)"
    "\<forall>j < k. \<not> hit (lane step i j)"
proof -
  have "results_sound hit s" by (rule results.run_keeps [OF assms(1) start_sound(1)])
  then have "stored hit s"
    using assms(2,3) by (auto simp: results_sound_def all_joined_def)
  then obtain i where i: "i < length (mr_workers s)" "wk_nonce (mr_workers s ! i) = mr_found_nonce s"
    "hit (mr_found_nonce s)" by (auto simp: stored_def)
  have "lanes_sound hit step s" by (rule lanes.run_keeps [OF assms(1) start_sound(2)])
  then obtain k where "wk_nonce (mr_workers s ! i) = lane step i k" "\<forall>j < k. \<not> hit (lane step i j)"
    using i(1) unfolding lanes_sound_def by blast
  with i show ?thesis using that [of i k] by simp
qed

section \<open>Ending a run\<close>

definition halting :: "Mining \<Rightarrow> bool" where
  "halting s \<longleftrightarrow> mr_found_solution s \<or> \<not> mr_running s"

text \<open>How many operations a thread has left at most once the run is halting.\<close>

definition left :: "bool \<Rightarrow> Worker \<Rightarrow> nat" where
  "left found w = (case wk_pc w of Joined \<Rightarrow> 0 | Store_running \<Rightarrow> 1 | Store_nonce \<Rightarrow> 2 | Store_found \<Rightarrow> 3
     | Hashing \<Rightarrow> 4 | Load_running \<Rightarrow> 2 | Load_found \<Rightarrow> if found then 1 else 5)"

lemma left_le: "left found w \<le> 5"
  by (simp add: left_def split: WorkerPc.split)

lemma left_none: "left found w = 0 \<Longrightarrow> wk_pc w = Joined"
  by (auto simp: left_def split: WorkerPc.splits if_splits)

lemma left_advance:
  assumes "halting s" and x: "x < length (mr_workers s)" and j: "j < length (mr_workers s)"
  shows "left (mr_found_solution (advance hit step x s)) (mr_workers (advance hit step x s) ! j)
    \<le> left (mr_found_solution s) (mr_workers s ! j) - (if j = x then 1 else 0)"
  using assms
  by (auto simp: halting_def advance_pc [OF x j] advance_shared left_def next_pc_def split: WorkerPc.splits if_splits)

lemma halting_advance: "halting s \<Longrightarrow> x < length (mr_workers s) \<Longrightarrow> halting (advance hit step x s)"
  by (auto simp: halting_def advance_shared)

lemma left_pos: "wk_pc w \<noteq> Joined \<Longrightarrow> 0 < left found w"
  using left_none by blast

section \<open>A thread on its own\<close>

lemma solo_run:
  assumes "i < length (mr_workers s)"
  shows "(mining_step hit step)\<^sup>*\<^sup>* s ((advance hit step i ^^ k) s)"
proof (induction k)
  case (Suc k)
  let ?t = "(advance hit step i ^^ k) s"
  have "length (mr_workers ?t) = length (mr_workers s)" by (induction k) simp_all
  with assms have i: "i < length (mr_workers ?t)" by simp
  show ?case
  proof (cases "wk_pc (mr_workers ?t ! i) = Joined")
    case True
    then have "advance hit step i ?t = ?t" by (simp add: advance_def)
    with Suc show ?thesis by simp
  next
    case False
    then have "mining_step hit step ?t (advance hit step i ?t)"
      using i by (intro mining_step.by_worker worker_step.intros)
    with Suc show ?thesis by simp
  qed
qed simp

text \<open>The states of a lone thread: searching at a nonce, and done.\<close>

definition searching :: "u64 \<Rightarrow> u64 \<Rightarrow> Mining" where
  "searching hashes n = \<lparr>mr_running = True, mr_hashes = hashes, mr_found_nonce = 0, mr_found_solution = False,
     mr_workers = [\<lparr>wk_pc = Load_running, wk_nonce = n\<rparr>]\<rparr>"

definition published :: "u64 \<Rightarrow> u64 \<Rightarrow> Mining" where
  "published hashes n = \<lparr>mr_running = False, mr_hashes = hashes, mr_found_nonce = n, mr_found_solution = True,
     mr_workers = [\<lparr>wk_pc = Joined, wk_nonce = n\<rparr>]\<rparr>"

lemma solo_miss: "\<not> hit n \<Longrightarrow> (advance hit 1 0 ^^ 3) (searching h n) = searching (h + 1) (n + 1)"
  by (simp add: numeral_eq_Suc searching_def advance_def set_worker_def)

lemma solo_hit: "hit n \<Longrightarrow> (advance hit 1 0 ^^ 6) (searching h n) = published (h + 1) n"
  by (simp add: numeral_eq_Suc searching_def published_def advance_def set_worker_def)

lemma solo_search:
  assumes "hit v" and "\<And>u. n \<le> u \<Longrightarrow> u < v \<Longrightarrow> \<not> hit u" and "n \<le> v"
  shows "\<exists>k. (advance hit 1 0 ^^ k) (searching h n) = published (h + (v - n) + 1) v"
  using assms
proof (induction "unat v - unat n" arbitrary: n h)
  case 0
  then have "n = v" by (simp add: word_le_nat_alt word_unat_eq_iff)
  then show ?case using solo_hit [of hit v h] 0(2) by (intro exI [of _ 6]) simp
next
  case (Suc d)
  have less: "n < v" using Suc.hyps(2) by (simp add: word_less_nat_alt)
  then have "unat n + unat (1 :: u64) < 2 ^ LENGTH(64)"
    using unat_u64_max [of v] by (simp add: word_less_nat_alt)
  from unat_add_fits [OF this] have n1: "unat (n + 1) = unat n + 1" by simp
  have "d = unat v - unat (n + 1)" using Suc.hyps(2) n1 by simp
  moreover have "\<not> hit u" if "n + 1 \<le> u" "u < v" for u
    using that n1 by (intro Suc.prems(2)) (simp_all add: word_le_nat_alt)
  moreover have "n + 1 \<le> v" using less n1 by (simp add: word_le_nat_alt word_less_nat_alt)
  ultimately obtain k where k: "(advance hit 1 0 ^^ k) (searching (h + 1) (n + 1))
      = published (h + 1 + (v - (n + 1)) + 1) v"
    using Suc.hyps(1) [of "n + 1" "h + 1"] Suc.prems(1) by blast
  have miss: "\<not> hit n" using Suc.prems(2) less by simp
  have "(advance hit 1 0 ^^ (k + 3)) (searching h n) = published (h + 1 + (v - (n + 1)) + 1) v"
    by (simp only: funpow_add comp_apply solo_miss [of hit, OF miss] k)
  then have "(advance hit 1 0 ^^ (k + 3)) (searching h n) = published (h + (v - n) + 1) v"
    by (simp add: algebra_simps)
  then show ?case by blast
qed

section \<open>Properties\<close>

text \<open>
  C18: However the threads interleave with each other and with calls of \<open>stop\<close>: a nonce that \<open>start\<close>
  returns makes the header it was given pass the pallet's proof-of-work check at the header's own
  difficulty, although a thread announces a solution before it stores the nonce.
\<close>

theorem mined_nonce_passes_the_pallet:
  assumes "mining_run X m header s" and "all_joined s" and "mining_result s = Some (nonce, stats)"
    and "bh_number h = mh_number header" and "bh_parent_hash h = mh_parent_hash header"
    and "bh_state_root h = mh_state_root header" and "bh_extrinsics_root h = mh_extrinsics_root header"
    and "bh_nonce h = nonce" and "bh_difficulty h = mh_difficulty header"
  shows "verify_pow_enhanced X h (bh_difficulty h)"
proof -
  have found: "mr_found_solution s" and nonce: "nonce = mr_found_nonce s"
    using assms(3) by (auto simp: mining_result_def Let_def split: if_splits)
  have "mining_hash X header (mr_found_nonce s) \<le> mining_target m header"
    using joined_result [OF assms(1) [unfolded mining_run_def] assms(2) found] by blast
  then have "mining_hash X header nonce \<le> mh_difficulty header"
    by (simp add: nonce mining_target_def)
  then show ?thesis
    using assms(4-9) by (simp add: verify_pow_enhanced_def pow_input_of_def mining_hash_def Let_def)
qed

text \<open>A run of one thread, for the witnesses: it tries nonce 0, succeeds, and publishes it.\<close>

definition sample_job :: MiningBlockHeader where
  "sample_job = \<lparr>mh_number = 1, mh_parent_hash = 1, mh_state_root = 0, mh_extrinsics_root = 0, mh_difficulty = 150\<rparr>"

definition sample_mined :: Mining where
  "sample_mined = \<lparr>mr_running = False, mr_hashes = 1, mr_found_nonce = 0, mr_found_solution = True,
     mr_workers = [\<lparr>wk_pc = Joined, wk_nonce = 0\<rparr>]\<rparr>"

lemma sample_hit: "mining_hash (sample_externals ed) sample_job nonce = nonce"
  by (simp add: mining_hash_def sample_job_def)

lemma sample_run: "mining_run (sample_externals ed) (Miner_new 1 target) header sample_mined"
proof -
  let ?hit = "\<lambda>nonce. mining_hash (sample_externals ed) header nonce \<le> mining_target (Miner_new 1 target) header"
  have s0: "start (Miner_new 1 target) = \<lparr>mr_running = True, mr_hashes = 0, mr_found_nonce = 0,
      mr_found_solution = False, mr_workers = [\<lparr>wk_pc = Load_running, wk_nonce = 0\<rparr>]\<rparr>"
    by (simp add: start_def Miner_new_def)
  have "?hit 0" by (simp add: mining_hash_def)
  then have "(advance ?hit 1 0 ^^ 6) (start (Miner_new 1 target)) = sample_mined"
    by (simp add: numeral_eq_Suc s0 advance_def set_worker_def sample_mined_def)
  moreover have "0 < length (mr_workers (start (Miner_new 1 target)))" by (simp add: s0)
  ultimately show ?thesis
    using solo_run [of 0 "start (Miner_new 1 target)" ?hit 1 6] by (simp add: mining_run_def Miner_new_def)
qed

theorem mined_nonce_passes_the_pallet_witness:
  "verify_pow_enhanced (sample_externals 1) (sample_child\<lparr>bh_nonce := 0\<rparr>) 150"
proof -
  have "verify_pow_enhanced (sample_externals 1) (sample_child\<lparr>bh_nonce := 0\<rparr>) (bh_difficulty (sample_child\<lparr>bh_nonce := 0\<rparr>))"
    by (rule mined_nonce_passes_the_pallet [OF sample_run [of 1 200 sample_job]])
      (simp_all add: all_joined_def sample_mined_def mining_result_def sample_headers sample_job_def)
  then show ?thesis by (simp add: sample_headers)
qed

text \<open>
  The nonces are shared out without gaps: when \<open>start\<close> returns a nonce, it is the first one of
  some thread's sequence (\<open>i\<close>, \<open>i + threads\<close>, \<open>i + 2 * threads\<close> and so on) that meets the target.
\<close>

lemma mined_nonce_first_of_its_lane:
  assumes "mining_run X m header s" and "all_joined s" and "mining_result s = Some (nonce, stats)"
  shows "\<exists>i k. i < unat (mi_threads m) \<and> nonce = lane (mi_threads m) i k
    \<and> mining_hash X header nonce \<le> mining_target m header
    \<and> (\<forall>j < k. mining_target m header < mining_hash X header (lane (mi_threads m) i j))"
proof -
  let ?hit = "\<lambda>nonce. mining_hash X header nonce \<le> mining_target m header"
  have found: "mr_found_solution s" and nonce: "nonce = mr_found_nonce s"
    using assms(3) by (auto simp: mining_result_def Let_def split: if_splits)
  have len: "length (mr_workers s) = unat (mi_threads m)" by (rule mining_run_length [OF assms(1)])
  show ?thesis
    using joined_result [OF assms(1) [unfolded mining_run_def] assms(2) found] len
    by (metis nonce not_le)
qed

text \<open>
  C21: A miner with one thread that is left alone finds what \<open>mine_block\<close> of \<open>consensus.rs\<close> finds: the
  least nonce that meets the target. Its run ends with every thread joined, and the statistics
  count one hash per nonce tried on top of those of earlier runs, which \<open>start\<close> does not reset.
\<close>

theorem single_thread_agrees_with_mine_block:
  assumes "mi_threads m = 1"
    and "mine_block X (GhostMiningWorker_new (mining_target m header)) h = Some v"
    and "mh_number header = bh_number h" and "mh_parent_hash header = bh_parent_hash h"
    and "mh_state_root header = bh_state_root h" and "mh_extrinsics_root header = bh_extrinsics_root h"
  shows "\<exists>s. mining_run X m header s \<and> all_joined s \<and> mining_result s
    = Some (v, \<lparr>ms_hashes_computed = mi_hashes m + v + 1, ms_blocks_found = 1\<rparr>)"
proof -
  let ?hit = "\<lambda>nonce. mining_hash X header nonce \<le> mining_target m header"
  have same: "verify_pow_enhanced X (h\<lparr>bh_nonce := n\<rparr>) (mining_target m header) \<longleftrightarrow> ?hit n" for n
    using assms(3-6) by (simp add: verify_pow_enhanced_def pow_input_of_def mining_hash_def Let_def)
  have "mine_loop 1000000 ?hit 0 = Some v"
    using assms(2) by (simp add: mine_block_def GhostMiningWorker_new_def same)
  then have hit: "?hit v" and least: "\<And>u. u < v \<Longrightarrow> \<not> ?hit u"
    using mine_loop_Some [of 1000000 ?hit 0 v] by (auto simp: word_less_nat_alt)
  obtain k where k: "(advance ?hit 1 0 ^^ k) (searching (mi_hashes m) 0) = published (mi_hashes m + v + 1) v"
    using solo_search [of ?hit v 0 "mi_hashes m"] hit least by auto
  have s0: "start m = searching (mi_hashes m) 0"
    using assms(1) by (simp add: start_def searching_def)
  have "0 < length (mr_workers (start m))" by (simp add: s0 searching_def)
  then have "mining_run X m header (published (mi_hashes m + v + 1) v)"
    using solo_run [of 0 "start m" ?hit 1 k] k s0 assms(1) by (simp add: mining_run_def)
  then show ?thesis
    by (intro exI [of _ "published (mi_hashes m + v + 1) v"])
      (simp add: published_def all_joined_def mining_result_def)
qed

lemma million: "(1000000 :: nat) = Suc 999999"
  by simp

theorem single_thread_agrees_with_mine_block_witness:
  "\<exists>s. mining_run (sample_externals 1) (Miner_new 1 200) sample_job s \<and> all_joined s \<and> mining_result s
    = Some (0, \<lparr>ms_hashes_computed = 1, ms_blocks_found = 1\<rparr>)"
proof -
  have "mine_block (sample_externals 1) (GhostMiningWorker_new (mining_target (Miner_new 1 200) sample_job)) sample_child
      = Some 0"
    unfolding mine_block_def million mine_loop.simps by (simp add: sample_headers)
  then have "\<exists>s. mining_run (sample_externals 1) (Miner_new 1 200) sample_job s \<and> all_joined s \<and> mining_result s
    = Some (0, \<lparr>ms_hashes_computed = mi_hashes (Miner_new 1 200) + 0 + 1, ms_blocks_found = 1\<rparr>)"
    by (intro single_thread_agrees_with_mine_block [where h = sample_child])
      (simp_all add: sample_headers sample_job_def Miner_new_def)
  then show ?thesis by (simp add: Miner_new_def)
qed

end
