(* ===== verification/Ghost_Schedule.thy ===== *)
theory Ghost_Schedule
  imports Ghost_Miner
begin

text \<open>
  The miner under a scheduler. A schedule is the list of the threads in the order in which they make
  their atomic operations, so any interleaving is one; what a scheduler owes to a thread is a number
  of turns. With enough of them the search ends, and \<open>start\<close> returns a nonce.
  Once a solution is announced or the miner is stopped, five operations end any thread.
\<close>

definition run_schedule :: "(u64 \<Rightarrow> bool) \<Rightarrow> u64 \<Rightarrow> nat list \<Rightarrow> Mining \<Rightarrow> Mining" where
  "run_schedule hit step turns s = fold (advance hit step) turns s"

lemma run_schedule_simps [simp]:
  "run_schedule hit step [] s = s"
  "run_schedule hit step (i # turns) s = run_schedule hit step turns (advance hit step i s)"
  "run_schedule hit step (xs @ ys) s = run_schedule hit step ys (run_schedule hit step xs s)"
  by (simp_all add: run_schedule_def)

lemma run_schedule_length [simp]: "length (mr_workers (run_schedule hit step turns s)) = length (mr_workers s)"
  by (induction turns arbitrary: s) simp_all

lemma advance_run:
  "i < length (mr_workers s) \<Longrightarrow> (mining_step hit step)\<^sup>*\<^sup>* s (advance hit step i s)"
  using solo_run [of i s hit step 1] by simp

lemma schedule_run:
  "set turns \<subseteq> {..< length (mr_workers s)} \<Longrightarrow> (mining_step hit step)\<^sup>*\<^sup>* s (run_schedule hit step turns s)"
proof (induction turns arbitrary: s)
  case (Cons i turns)
  then show ?case using advance_run [of i s hit step] by (auto intro: rtranclp_trans)
qed simp

section \<open>Until a solution is announced\<close>

text \<open>While nothing is found nobody leaves the loop.\<close>

definition undecided :: "Mining \<Rightarrow> bool" where
  "undecided s \<longleftrightarrow> mr_running s \<and> (\<forall>j < length (mr_workers s).
     wk_pc (mr_workers s ! j) \<in> {Load_running, Load_found, Hashing, Store_found})"

lemma undecided_advance:
  assumes "undecided s" and i: "i < length (mr_workers s)" and "\<not> mr_found_solution (advance hit step i s)"
  shows "undecided (advance hit step i s)"
proof -
  have "\<not> mr_found_solution s" "wk_pc (mr_workers s ! i) \<noteq> Store_found"
    using assms(3) by (simp_all add: advance_shared)
  with assms(1) i show ?thesis
    by (auto simp: undecided_def advance_shared advance_pc next_pc_def split: WorkerPc.splits)
qed

text \<open>The operations thread \<open>i\<close> has made, from where it is in its lane.\<close>

definition turns_made :: "nat \<Rightarrow> Worker \<Rightarrow> nat" where
  "turns_made j w = 3 * j + (case wk_pc w of Load_found \<Rightarrow> 1 | Hashing \<Rightarrow> 2 | Store_found \<Rightarrow> 3 | _ \<Rightarrow> 0)"

definition on_its_way :: "u64 \<Rightarrow> nat \<Rightarrow> nat \<Rightarrow> nat \<Rightarrow> Mining \<Rightarrow> bool" where
  "on_its_way step i k c s \<longleftrightarrow> undecided s \<and>
     (\<exists>j \<le> k. wk_nonce (mr_workers s ! i) = lane step i j \<and> c \<le> turns_made j (mr_workers s ! i))"

lemma turns_made_le: "turns_made j w \<le> 3 * j + 3"
  by (simp add: turns_made_def split: WorkerPc.split)

lemma on_its_way_advance:
  assumes way: "on_its_way step i k c s" and hit: "hit (lane step i k)"
    and bounds: "i < length (mr_workers s)" "x < length (mr_workers s)"
    and open_end: "\<not> mr_found_solution (advance hit step x s)"
  shows "on_its_way step i k (if x = i then Suc c else c) (advance hit step x s)"
proof -
  obtain j where j: "j \<le> k" "wk_nonce (mr_workers s ! i) = lane step i j" "c \<le> turns_made j (mr_workers s ! i)"
    and und: "undecided s" using way by (auto simp: on_its_way_def)
  have not_found: "\<not> mr_found_solution s" "wk_pc (mr_workers s ! x) \<noteq> Store_found"
    using open_end by (simp_all add: advance_shared)
  have pc: "wk_pc (mr_workers s ! i) \<in> {Load_running, Load_found, Hashing, Store_found}" "mr_running s"
    using und bounds by (simp_all add: undecided_def)
  have "undecided (advance hit step x s)" by (rule undecided_advance [OF und bounds(2) open_end])
  moreover have "\<exists>j' \<le> k. wk_nonce (mr_workers (advance hit step x s) ! i) = lane step i j'
      \<and> (if x = i then Suc c else c) \<le> turns_made j' (mr_workers (advance hit step x s) ! i)"
  proof (cases "x = i \<and> wk_pc (mr_workers s ! i) = Hashing \<and> \<not> hit (lane step i j)")
    case True
    then have "j \<noteq> k" using hit by auto
    then show ?thesis
      using True j bounds
      by (intro exI [of _ "Suc j"]) (auto simp: advance_nonce advance_pc next_pc_def lane_next turns_made_def)
  next
    case False
    then show ?thesis
      using j bounds pc not_found
      by (intro exI [of _ j]) (auto simp: advance_nonce advance_pc next_pc_def turns_made_def)
  qed
  ultimately show ?thesis by (simp add: on_its_way_def)
qed

lemma found_stays: "mr_found_solution s \<Longrightarrow> mr_found_solution (run_schedule hit step turns s)"
  by (induction turns arbitrary: s) (simp_all add: advance_shared)

lemma schedule_on_its_way:
  assumes "on_its_way step i k c s" and "hit (lane step i k)" and "i < length (mr_workers s)"
    and "set turns \<subseteq> {..< length (mr_workers s)}" and "\<not> mr_found_solution (run_schedule hit step turns s)"
  shows "on_its_way step i k (c + count_list turns i) (run_schedule hit step turns s)"
  using assms
proof (induction turns arbitrary: s c)
  case (Cons x turns)
  have "\<not> mr_found_solution (advance hit step x s)"
    using Cons.prems(5) found_stays [of "advance hit step x s" hit step turns] by auto
  from on_its_way_advance [OF Cons.prems(1-3) _ this] Cons.prems
  have "on_its_way step i k (if x = i then Suc c else c) (advance hit step x s)" by simp
  from Cons.IH [OF this] Cons.prems show ?case by (auto split: if_splits)
qed simp

lemma start_on_its_way: "i < unat (mi_threads m) \<Longrightarrow> on_its_way step i k 0 (start m)"
  by (auto simp: on_its_way_def undecided_def start_def lane_def intro!: exI [of _ 0])

lemma schedule_finds:
  assumes "hit (lane step i k)" and "i < unat (mi_threads m)" and "set turns \<subseteq> {..< unat (mi_threads m)}"
    and "3 * k + 4 \<le> count_list turns i"
  shows "mr_found_solution (run_schedule hit step turns (start m))"
proof (rule ccontr)
  have len: "length (mr_workers (start m)) = unat (mi_threads m)" by (simp add: start_def)
  assume "\<not> mr_found_solution (run_schedule hit step turns (start m))"
  from schedule_on_its_way [OF start_on_its_way [OF assms(2)] assms(1) _ _ this] assms(2,3) len
  obtain j where "j \<le> k" "count_list turns i
      \<le> turns_made j (mr_workers (run_schedule hit step turns (start m)) ! i)"
    by (auto simp: on_its_way_def)
  with turns_made_le [of j "mr_workers (run_schedule hit step turns (start m)) ! i"] assms(4) show False by linarith
qed

section \<open>After it\<close>

lemma schedule_joins:
  assumes "halting s" and "set turns \<subseteq> {..< length (mr_workers s)}" and "j < length (mr_workers s)"
  shows "left (mr_found_solution (run_schedule hit step turns s)) (mr_workers (run_schedule hit step turns s) ! j)
    \<le> left (mr_found_solution s) (mr_workers s ! j) - count_list turns j"
  using assms
proof (induction turns arbitrary: s)
  case (Cons x turns)
  let ?s = "advance hit step x s"
  have "left (mr_found_solution (run_schedule hit step turns ?s)) (mr_workers (run_schedule hit step turns ?s) ! j)
      \<le> left (mr_found_solution ?s) (mr_workers ?s ! j) - count_list turns j"
    using Cons.prems by (intro Cons.IH) (simp_all add: halting_advance)
  with left_advance [of s x j hit step] Cons.prems show ?case by (auto split: if_splits)
qed simp

lemma five_turns_join:
  assumes "halting s" and "set turns \<subseteq> {..< length (mr_workers s)}"
    and "\<forall>j < length (mr_workers s). 5 \<le> count_list turns j"
  shows "all_joined (run_schedule hit step turns s)"
  unfolding all_joined_def all_set_conv_all_nth
proof (intro allI impI)
  fix j assume "j < length (mr_workers (run_schedule hit step turns s))"
  then have j: "j < length (mr_workers s)" by simp
  show "wk_pc (mr_workers (run_schedule hit step turns s) ! j) = Joined"
    using schedule_joins [OF assms(1,2) j, of hit step] left_le [of "mr_found_solution s" "mr_workers s ! j"]
      assms(3) j by (intro left_none) (auto dest!: spec [of _ j])
qed

text \<open>
  A run with the threads named that make its operations, each before its end, and with the flag
  \<open>running\<close> cleared from outside at any time, any number of times.
\<close>

inductive thread_trace :: "(u64 \<Rightarrow> bool) \<Rightarrow> u64 \<Rightarrow> Mining \<Rightarrow> nat list \<Rightarrow> Mining \<Rightarrow> bool" for hit step where
  no_operation: "thread_trace hit step s [] s"
| operation: "i < length (mr_workers s) \<Longrightarrow> wk_pc (mr_workers s ! i) \<noteq> Joined
    \<Longrightarrow> thread_trace hit step (advance hit step i s) js t \<Longrightarrow> thread_trace hit step s (i # js) t"
| stopped: "thread_trace hit step (stop s) js t \<Longrightarrow> thread_trace hit step s js t"

inductive_cases thread_traceE: "thread_trace hit step s (i # js) t"

lemma thread_trace_runs: "thread_trace hit step s js t \<Longrightarrow> (mining_step hit step)\<^sup>*\<^sup>* s t"
  by (induction rule: thread_trace.induct)
    (auto intro: converse_rtranclp_into_rtranclp mining_step.intros worker_step.intros)

lemma run_has_trace: "(mining_step hit step)\<^sup>*\<^sup>* s t \<Longrightarrow> \<exists>js. thread_trace hit step s js t"
proof (induction rule: converse_rtranclp_induct)
  case (step s u)
  then show ?case
    by (auto simp: mining_step_iff intro: thread_trace.stopped elim!: worker_stepE) (metis thread_trace.operation)
qed (blast intro: thread_trace.no_operation)

lemma trace_length: "thread_trace hit step s js t \<Longrightarrow> length (mr_workers t) = length (mr_workers s)"
  by (induction rule: thread_trace.induct) (simp_all add: stop_def)

lemma trace_threads: "thread_trace hit step s js t \<Longrightarrow> set js \<subseteq> {..< length (mr_workers s)}"
  by (induction rule: thread_trace.induct) (auto simp: stop_def)

lemma trace_bound:
  assumes "thread_trace hit step s js t" and "halting s" and "j < length (mr_workers s)"
  shows "halting t \<and> count_list js j \<le> left (mr_found_solution s) (mr_workers s ! j)"
  using assms
proof (induction rule: thread_trace.induct)
  case (operation i s js t)
  then show ?case
    using left_advance [of s i j hit step] left_pos [of "mr_workers s ! i" "mr_found_solution s"]
    by (auto simp: halting_advance split: if_splits)
next
  case (stopped s js t)
  then show ?case by (simp add: stop_def halting_def)
qed simp

section \<open>Where a nonce is tried\<close>

lemma nonce_in_lane:
  assumes "0 < unat n"
  shows "lane n (unat v mod unat n) (unat v div unat n) = v"
proof -
  have "lane n (unat v mod unat n) (unat v div unat n)
      = of_nat (unat v mod unat n) + of_nat (unat v div unat n) * of_nat (unat n)"
    by (simp add: lane_def)
  also have "\<dots> = of_nat (unat v mod unat n + unat v div unat n * unat n)"
    by (simp only: of_nat_add of_nat_mult)
  also have "\<dots> = v" by (simp only: mod_div_mult_eq) simp
  finally show ?thesis .
qed

section \<open>Properties\<close>

text \<open>
  C20: The miner finds what there is to find. Let any nonce \<open>v\<close> meet the target, let \<open>n\<close> be the number
  of threads, and let nobody stop the miner. Once the scheduler has given thread \<open>v mod n\<close> at least
  \<open>3 * (v div n) + 4\<close> turns, and afterwards every thread five more, in any order, all threads have
  ended and \<open>start\<close> returns a nonce that meets the target.
\<close>

theorem scheduled_miner_finds:
  assumes "0 < mi_threads m" and "mining_hash X header v \<le> mining_target m header"
    and "set (search @ rest) \<subseteq> {..< unat (mi_threads m)}"
    and "3 * (unat v div unat (mi_threads m)) + 4 \<le> count_list search (unat v mod unat (mi_threads m))"
    and "\<forall>j < unat (mi_threads m). 5 \<le> count_list rest j"
  shows "let s = run_schedule (\<lambda>nonce. mining_hash X header nonce \<le> mining_target m header) (mi_threads m)
        (search @ rest) (start m)
    in mining_run X m header s \<and> all_joined s
      \<and> (\<exists>nonce stats. mining_result s = Some (nonce, stats) \<and> mining_hash X header nonce \<le> mining_target m header)"
proof -
  let ?hit = "\<lambda>nonce. mining_hash X header nonce \<le> mining_target m header"
  let ?s = "run_schedule ?hit (mi_threads m) search (start m)"
  let ?t = "run_schedule ?hit (mi_threads m) (search @ rest) (start m)"
  have len: "length (mr_workers (start m)) = unat (mi_threads m)" by (simp add: start_def)
  have n: "0 < unat (mi_threads m)" using assms(1) by (simp add: word_less_nat_alt)
  have found: "mr_found_solution ?s"
    by (rule schedule_finds [of _ _ "unat v mod unat (mi_threads m)" "unat v div unat (mi_threads m)"])
      (use assms n nonce_in_lane [OF n, of v] in simp_all)
  have "all_joined (run_schedule ?hit (mi_threads m) rest ?s)"
    by (rule five_turns_join) (use found assms(3,5) len in \<open>simp_all add: halting_def\<close>)
  then have joined: "all_joined ?t" by simp
  have run: "(mining_step ?hit (mi_threads m))\<^sup>*\<^sup>* (start m) ?t"
    by (rule schedule_run) (use assms(3) len in simp)
  have "mr_found_solution ?t" using found_stays [OF found] by simp
  with joined_result [OF run joined] have "?hit (mr_found_nonce ?t)" by blast
  with \<open>mr_found_solution ?t\<close> joined run show ?thesis
    by (simp add: Let_def mining_result_def mining_run_def)
qed

text \<open>Two threads, of which nonce 1 belongs to the second, with turns one by one.\<close>

theorem scheduled_miner_finds_witness:
  "\<exists>nonce stats. mining_result (run_schedule (\<lambda>nonce. mining_hash (sample_externals 1) sample_job nonce
        \<le> mining_target (Miner_new 2 200) sample_job) 2 (concat (replicate 4 [0, 1]) @ concat (replicate 5 [0, 1]))
        (start (Miner_new 2 200))) = Some (nonce, stats)
    \<and> mining_hash (sample_externals 1) sample_job nonce \<le> 150"
proof -
  have two: "unat (mi_threads (Miner_new 2 200)) = 2" "mi_threads (Miner_new 2 200) = 2"
    by (simp_all add: Miner_new_def)
  have turns: "count_list (concat (replicate k [0, 1])) j = (if j = 0 \<or> j = (1 :: nat) then k else 0)" for k j
    by (induction k) auto
  have "mining_hash (sample_externals 1) sample_job 1 \<le> mining_target (Miner_new 2 200) sample_job"
    unfolding sample_hit by (simp add: mining_target_def sample_job_def Miner_new_def)
  from scheduled_miner_finds [of "Miner_new 2 200" "sample_externals 1" sample_job 1
      "concat (replicate 4 [0, 1])" "concat (replicate 5 [0, 1])", OF _ this]
  show ?thesis
    unfolding two turns by (auto simp: Let_def mining_target_def sample_job_def Miner_new_def less_2_cases_iff)
qed

text \<open>
  C19: Once a solution is announced or the miner is stopped, \<open>start\<close> returns soon: in every further run,
  whatever the order and however often the miner is stopped again, each single thread makes at most
  five operations before its end, and a scheduler that gives each thread five turns, in any order, has
  them all joined.
\<close>

theorem halting_threads_join:
  assumes "halting s" and "thread_trace hit step s js t"
  shows "(\<forall>j. count_list js j \<le> 5)
    \<and> (\<forall>turns. set turns \<subseteq> {..< length (mr_workers s)} \<and> (\<forall>j < length (mr_workers s). 5 \<le> count_list turns j)
        \<longrightarrow> all_joined (run_schedule hit step turns t))"
proof (cases "mr_workers s = []")
  case False
  then have "halting t" using trace_bound [OF assms(2,1), of 0] by simp
  moreover have "count_list js j \<le> 5" for j
  proof (cases "j < length (mr_workers s)")
    case True
    then show ?thesis using trace_bound [OF assms(2,1)] left_le le_trans by metis
  next
    case False
    then have "j \<notin> set js" using trace_threads [OF assms(2)] by auto
    then show ?thesis by simp
  qed
  ultimately show ?thesis using five_turns_join [of t _ hit step] trace_length [OF assms(2)] by simp
next
  case True
  then have "js = []" using trace_threads [OF assms(2)] by simp
  moreover have "mr_workers t = []" using trace_length [OF assms(2)] True by simp
  ultimately show ?thesis using True by (simp add: all_joined_def)
qed

text \<open>Two threads stopped at the start, the second of which makes one more operation.\<close>

theorem halting_threads_join_witness:
  "let s = stop (start (Miner_new 2 200)); t = advance (\<lambda>_. False) 2 1 s
   in thread_trace (\<lambda>_. False) 2 s [1] t
     \<and> all_joined (run_schedule (\<lambda>_. False) 2 [0, 0, 0, 0, 0, 1, 1, 1, 1, 1] t)"
proof -
  let ?s = "stop (start (Miner_new 2 200))"
  have len: "length (mr_workers ?s) = 2" by (simp add: stop_def start_def Miner_new_def)
  have trace: "thread_trace (\<lambda>_. False) 2 ?s [1] (advance (\<lambda>_. False) 2 1 ?s)"
    by (intro thread_trace.intros) (simp_all add: stop_def start_def Miner_new_def upt_conv_Cons)
  have "halting ?s" by (simp add: halting_def stop_def)
  from halting_threads_join [OF this trace] trace show ?thesis
    unfolding Let_def len by (auto simp: less_2_cases_iff dest!: spec [of _ "[0, 0, 0, 0, 0, 1, 1, 1, 1, 1]"])
qed

end
