(* ===== verification/Ghost_Runtime.thy ===== *)
theory Ghost_Runtime
  imports Ghost_Safety
begin

text \<open>
  The constants of the runtime (\<open>runtime/src/lib.rs\<close>) and its genesis presets
  (\<open>runtime/src/genesis_config_presets.rs\<close>): which accounts are endowed with how much, who the
  authorities are, and how a preset is looked up. The serialisation to JSON belongs to
  \<open>serde_json\<close> and is a parameter. The properties tie the presets to the pallet: the endowments are
  valid balances, and they are small enough for the election's 64-bit weights.
\<close>

section \<open>Constants\<close>

definition MILLI_SECS_PER_BLOCK :: u64 where
  "MILLI_SECS_PER_BLOCK = 5000"

definition SLOT_DURATION :: u64 where
  "SLOT_DURATION = MILLI_SECS_PER_BLOCK"

definition MINUTES :: u32 where
  "MINUTES = 60000 div ucast MILLI_SECS_PER_BLOCK"

definition HOURS :: u32 where
  "HOURS = MINUTES * 60"

definition DAYS :: u32 where
  "DAYS = HOURS * 24"

definition UNIT :: u128 where
  "UNIT = 1000000000000"

definition MILLI_UNIT :: u128 where
  "MILLI_UNIT = 1000000000"

definition MICRO_UNIT :: u128 where
  "MICRO_UNIT = 1000000"

definition EXISTENTIAL_DEPOSIT :: u128 where
  "EXISTENTIAL_DEPOSIT = MILLI_UNIT"

definition BLOCK_HASH_COUNT :: u32 where
  "BLOCK_HASH_COUNT = 2400"

text \<open>\<open>frame_system\<close>'s parameter in \<open>configs/mod.rs\<close>, which does not refer to the constant above.\<close>

definition BlockHashCount :: u32 where
  "BlockHashCount = 2400"

definition MinimumPeriod :: u64 where
  "MinimumPeriod = SLOT_DURATION div 2"

record RuntimeVersion =
  rv_spec_name :: string
  rv_impl_name :: string
  rv_authoring_version :: u32
  rv_spec_version :: u32
  rv_impl_version :: u32
  rv_transaction_version :: u32
  rv_state_version :: u8

definition VERSION :: RuntimeVersion where
  "VERSION = \<lparr>rv_spec_name = ''ghost-runtime'', rv_impl_name = ''ghost-runtime'',
     rv_authoring_version = 1, rv_spec_version = 100, rv_impl_version = 1,
     rv_transaction_version = 1, rv_state_version = 1\<rparr>"

text \<open>
  The composition of the runtime: the pallets by their index. The timestamp pallet's minimum period
  is half a slot, and Aura's slot is twice that again.
\<close>

datatype Pallet =
    System | Timestamp | Aura | Grandpa | Balances | TransactionPayment | Sudo | Template | GhostConsensus

definition pallet_index :: "Pallet \<Rightarrow> u8" where
  "pallet_index p = (case p of System \<Rightarrow> 0 | Timestamp \<Rightarrow> 1 | Aura \<Rightarrow> 2 | Grandpa \<Rightarrow> 3 | Balances \<Rightarrow> 4
     | TransactionPayment \<Rightarrow> 5 | Sudo \<Rightarrow> 6 | Template \<Rightarrow> 7 | GhostConsensus \<Rightarrow> 8)"

lemma inj_pallet_index: "inj pallet_index"
  by (rule injI) (auto simp: pallet_index_def split: Pallet.splits)

lemma slot_is_twice_minimum_period: "2 * MinimumPeriod = SLOT_DURATION"
  by (simp add: MinimumPeriod_def SLOT_DURATION_def MILLI_SECS_PER_BLOCK_def)

section \<open>Genesis presets\<close>

definition ALICE_SR25519 :: H256 where
  "ALICE_SR25519 = 0xd43593c715fdd31c61141abd04a99fd6822c8558854ccde39a5684e7a56da27d"

definition BOB_SR25519 :: H256 where
  "BOB_SR25519 = 0x8eaf04151687736326c9fea17e25fc5287613693c912909cb226aa4794f26a48"

definition ALICE_STASH_SR25519 :: H256 where
  "ALICE_STASH_SR25519 = 0xbe5ddb1579b72e84524fc29e78609e3caf42e85aa118ebfe0b0ad404b5bdd25f"

definition BOB_STASH_SR25519 :: H256 where
  "BOB_STASH_SR25519 = 0xfe65717dad0447d715f660a0a58411de509b42e6efb8375f562f58a554d5860e"

definition CHARLIE_SR25519 :: H256 where
  "CHARLIE_SR25519 = 0x90b5ab205c6974c9ea841be688864633dc9ca8a357843eeacf2314649965fe22"

definition DAVE_SR25519 :: H256 where
  "DAVE_SR25519 = 0x306721211d5404bd9da88e0204360a1a9ab8b87c66c1bc2fcdd37f3c2222cc20"

definition EVE_SR25519 :: H256 where
  "EVE_SR25519 = 0xe659a7a1628cdd93febc04a4e0646ea20e9f5f0ce097d9a05290d4a9e054df4e"

definition FERDIE_SR25519 :: H256 where
  "FERDIE_SR25519 = 0x1cbd2d43530a44705ad088af313e18f80b53ef16b36177cd4b77b846f2a5f07c"

definition ALICE_ED25519 :: H256 where
  "ALICE_ED25519 = 0x88dc3417d5058ec4b4503e0c12ea1a0a89be200fe98922423d4334014fa6b0ee"

definition BOB_ED25519 :: H256 where
  "BOB_ED25519 = 0xd17c2d7823ebf260fd138f2d7e27d114c0145d968b5ff5006125f2414fadae69"

lemmas key_defs = ALICE_SR25519_def BOB_SR25519_def ALICE_STASH_SR25519_def BOB_STASH_SR25519_def
  CHARLIE_SR25519_def DAVE_SR25519_def EVE_SR25519_def FERDIE_SR25519_def
  ALICE_ED25519_def BOB_ED25519_def

datatype AccountId = AccountId32 H256

text \<open>
  \<open>AccountId32\<close> compares its bytes in order, which is the order of the hash as a number. The storage
  of the pallet is keyed by it.
\<close>

instantiation AccountId :: linorder
begin

fun less_eq_AccountId :: "AccountId \<Rightarrow> AccountId \<Rightarrow> bool" where
  "less_eq_AccountId (AccountId32 a) (AccountId32 b) \<longleftrightarrow> a \<le> b"

fun less_AccountId :: "AccountId \<Rightarrow> AccountId \<Rightarrow> bool" where
  "less_AccountId (AccountId32 a) (AccountId32 b) \<longleftrightarrow> a < b"

instance
proof
  fix x y z :: AccountId
  show "x < y \<longleftrightarrow> x \<le> y \<and> \<not> y \<le> x" by (cases x; cases y) auto
  show "x \<le> x" by (cases x) simp
  show "x \<le> y \<Longrightarrow> y \<le> z \<Longrightarrow> x \<le> z" by (cases x; cases y; cases z) simp
  show "x \<le> y \<Longrightarrow> y \<le> x \<Longrightarrow> x = y" by (cases x; cases y) simp
  show "x \<le> y \<or> y \<le> x" by (cases x; cases y) auto
qed

end

datatype AuraId = AuraSr25519 H256

datatype GrandpaId = GrandpaEd25519 H256

definition account :: "H256 \<Rightarrow> AccountId" where
  "account public = AccountId32 public"

definition aura :: "H256 \<Rightarrow> AuraId" where
  "aura public = AuraSr25519 public"

definition grandpa :: "H256 \<Rightarrow> GrandpaId" where
  "grandpa public = GrandpaEd25519 public"

text \<open>The JSON value the presets build, by its four keys.\<close>

record Genesis =
  genesis_balances :: "(AccountId \<times> u128) list"
  genesis_aura :: "AuraId list"
  genesis_grandpa :: "(GrandpaId \<times> u64) list"
  genesis_sudo :: "AccountId option"

definition testnet_genesis :: "(AuraId \<times> GrandpaId) list \<Rightarrow> AccountId list \<Rightarrow> AccountId \<Rightarrow> Genesis" where
  "testnet_genesis initial_authorities endowed_accounts root = \<lparr>
     genesis_balances = map (\<lambda>k. (k, push_bit 60 1)) endowed_accounts,
     genesis_aura = map (\<lambda>x. fst x) initial_authorities,
     genesis_grandpa = map (\<lambda>x. (snd x, 1)) initial_authorities,
     genesis_sudo = Some root\<rparr>"

definition development_config_genesis :: Genesis where
  "development_config_genesis = testnet_genesis
     [(aura ALICE_SR25519, grandpa ALICE_ED25519)]
     [account ALICE_SR25519, account BOB_SR25519, account ALICE_STASH_SR25519, account BOB_STASH_SR25519]
     (account ALICE_SR25519)"

definition local_config_genesis :: Genesis where
  "local_config_genesis = testnet_genesis
     [(aura ALICE_SR25519, grandpa ALICE_ED25519), (aura BOB_SR25519, grandpa BOB_ED25519)]
     [account ALICE_SR25519, account BOB_SR25519, account ALICE_STASH_SR25519, account BOB_STASH_SR25519,
      account CHARLIE_SR25519, account DAVE_SR25519, account EVE_SR25519, account FERDIE_SR25519]
     (account ALICE_SR25519)"

text \<open>\<open>get_preset\<close> panics (\<^const>\<open>None\<close>) if the serialisation fails.\<close>

definition get_preset :: "(Genesis \<Rightarrow> 'e + bytes) \<Rightarrow> string \<Rightarrow> bytes option option" where
  "get_preset to_string preset_id =
     (let patch = (if preset_id = ''dev'' then Some development_config_genesis
                   else if preset_id = ''local_testnet'' then Some local_config_genesis
                   else None)
      in case patch of
        None \<Rightarrow> Some None
      | Some patch \<Rightarrow> (case to_string patch of Inl _ \<Rightarrow> None | Inr json \<Rightarrow> Some (Some json)))"

definition preset_names :: "string list" where
  "preset_names = [''dev'', ''local_testnet'']"

section \<open>What the balances and consensus pallets ask of a genesis\<close>

definition total_issuance :: "Genesis \<Rightarrow> nat" where
  "total_issuance g = (\<Sum>(a, b) \<leftarrow> genesis_balances g. unat b)"

text \<open>
  \<open>pallet_balances\<close> refuses a genesis that names an account twice or gives it less than the
  existential deposit; Aura and GRANDPA need an authority; sudo's key should be able to pay.
\<close>

definition genesis_sound :: "Genesis \<Rightarrow> bool" where
  "genesis_sound g \<longleftrightarrow> distinct (map fst (genesis_balances g))
     \<and> list_all (\<lambda>(a, b). EXISTENTIAL_DEPOSIT \<le> b) (genesis_balances g)
     \<and> genesis_aura g \<noteq> [] \<and> distinct (genesis_aura g)
     \<and> length (genesis_grandpa g) = length (genesis_aura g) \<and> distinct (map fst (genesis_grandpa g))
     \<and> list_all (\<lambda>(a, w). w = 1) (genesis_grandpa g)
     \<and> (case genesis_sudo g of None \<Rightarrow> False | Some root \<Rightarrow> root \<in> fst ` set (genesis_balances g))"

lemma preset_defs_issuance:
  "total_issuance development_config_genesis = 2 ^ 62"
  "total_issuance local_config_genesis = 2 ^ 63"
  by (simp_all add: total_issuance_def development_config_genesis_def local_config_genesis_def testnet_genesis_def)

lemma unat_DAYS: "unat DAYS = 17280"
  by (simp add: DAYS_def HOURS_def MINUTES_def MILLI_SECS_PER_BLOCK_def)

section \<open>Properties\<close>

text \<open>The keys are pairwise distinct, so that no preset names an account twice.\<close>

lemma distinct_sr25519:
  "distinct [ALICE_SR25519, BOB_SR25519, ALICE_STASH_SR25519, BOB_STASH_SR25519,
     CHARLIE_SR25519, DAVE_SR25519, EVE_SR25519, FERDIE_SR25519]"
proof -
  have "distinct (map uint [ALICE_SR25519, BOB_SR25519, ALICE_STASH_SR25519, BOB_STASH_SR25519,
     CHARLIE_SR25519, DAVE_SR25519, EVE_SR25519, FERDIE_SR25519])"
    by (simp add: key_defs)
  then show ?thesis by (simp only: distinct_map)
qed

lemma distinct_ed25519: "distinct [ALICE_ED25519, BOB_ED25519]"
  by (simp add: key_defs)

text \<open>
  Both presets are a genesis the pallets accept: no account is endowed twice or below the
  existential deposit, every authority is listed once in Aura and once in GRANDPA with weight 1,
  and the sudo account is endowed.
\<close>

lemma presets_sound: "genesis_sound development_config_genesis" "genesis_sound local_config_genesis"
  using distinct_sr25519 distinct_ed25519
  by (simp_all add: genesis_sound_def development_config_genesis_def local_config_genesis_def testnet_genesis_def
      account_def aura_def grandpa_def EXISTENTIAL_DEPOSIT_def MILLI_UNIT_def)

text \<open>\<open>get_preset\<close> knows exactly the names \<open>preset_names\<close> lists.\<close>

lemma presets_match_names:
  "get_preset to_string preset_id = Some None \<longleftrightarrow> preset_id \<notin> set preset_names"
  by (auto simp: get_preset_def preset_names_def Let_def split: sum.split)

text \<open>
  C36: On a chain started from a preset the election works for at least 53 days of rewarded blocks:
  as long as no more than the endowments and the rewards of that many blocks are staked, the 64-bit
  sum of the weights does not overflow and a positive total stake elects a validator.
\<close>

theorem election_safe_for_53_days:
  assumes "g = development_config_genesis \<or> g = local_config_genesis"
    and "lists_keys (ext_key_order X)" and "finite (dom (ValidatorStakes st))"
    and "k \<le> 53 * unat DAYS"
    and "sum_values (ValidatorStakes st) \<le> total_issuance g + k * unat (cfg_BlockReward runtime_config)"
    and "0 < sum_values (ValidatorStakes st)"
  shows "\<exists>sel. select_pos_validator chk (system_block_number st) (collect_stakers X st)
    (ext_hash_of_seed X (n, system_block_number st)) = Some (Some sel)"
proof -
  have "total_issuance g \<le> 2 ^ 63" using assms(1) by (auto simp: preset_defs_issuance)
  moreover have "k * unat (cfg_BlockReward runtime_config) \<le> 915840 * 10000000000000"
    using assms(4) by (intro mult_le_mono) (simp_all add: unat_DAYS runtime_config_def)
  ultimately have low: "sum_values (ValidatorStakes st) < 2 ^ 64" using assms(5) by simp
  note weight = weight_sum_collect [OF assms(2,3) low]
  obtain s where "elected X st n = Some s" using elected_Some [of X st n] weight assms(6) by auto
  then show ?thesis using select_elected [of X st chk n] weight low assms(6) by simp
qed

theorem election_safe_for_53_days_witness:
  "\<exists>sel. select_pos_validator True 5 (collect_stakers (sample_externals 1) sample_chain)
    (ext_hash_of_seed (sample_externals 1) (2, 5)) = Some (Some sel)"
  using election_safe_for_53_days [of development_config_genesis "sample_externals 1" sample_chain 0 True 2]
    sample_chain_voting sample_chain_stakes
  by (simp add: preset_defs_issuance del: sample_externals_simps)

end
