(* ===== verification/Ghost_Node.thy ===== *)
theory Ghost_Node
  imports Ghost_Miner Ghost_Runtime
begin

text \<open>
  The node's own code around the pallet: the RPC interface of \<open>pallet-ghost-consensus/src/rpc.rs\<close>,
  the chain specifications of \<open>node/src/chain_spec.rs\<close> with their lookup in \<open>node/src/command.rs\<close>,
  and the \<open>ghost\<close> subcommands of \<open>node/src/cli.rs\<close> as \<open>handle_ghost_command\<close> runs them. The wording
  that is printed is left out; the values it reports are kept as data. Also the engine, import and
  proposer stubs of \<open>consensus.rs\<close>.
\<close>

section \<open>RPC\<close>

text \<open>The runtime API of a client, at a block hash; a call may fail with an API error.\<close>

record ('hash, 'acc, 'err) Client =
  best_hash :: 'hash
  api_get_difficulty :: "'hash \<Rightarrow> 'err + u64"
  api_get_current_phase :: "'hash \<Rightarrow> 'err + u8"
  api_get_validator_stake :: "'hash \<Rightarrow> 'acc \<Rightarrow> 'err + u128 option"
  api_get_all_validators :: "'hash \<Rightarrow> 'err + ('acc \<times> u128) list"
  api_get_slashing_records_count :: "'hash \<Rightarrow> 'err + u32"
  display_error :: "'err \<Rightarrow> string"

datatype ErrorObject = ErrorObject int string "string option"

text \<open>The server wraps the client; its interface gives its methods their names.\<close>

record 'client GhostConsensusRpc =
  rpc_client :: 'client

definition GhostConsensusRpc_new :: "'client \<Rightarrow> 'client GhostConsensusRpc" where
  "GhostConsensusRpc_new client = \<lparr>rpc_client = client\<rparr>"

definition GhostConsensusApi_methods :: "string list" where
  "GhostConsensusApi_methods = [''ghost_getDifficulty'', ''ghost_getCurrentPhase'', ''ghost_getValidatorStake'',
     ''ghost_getAllValidators'', ''ghost_getSlashingRecords'']"

definition runtime_error_into_rpc_error :: "string \<Rightarrow> ErrorObject" where
  "runtime_error_into_rpc_error err = ErrorObject 1 ''Runtime error'' (Some err)"

definition map_err :: "('e \<Rightarrow> 'f) \<Rightarrow> 'e + 'a \<Rightarrow> 'f + 'a" where
  "map_err f r = (case r of Inl e \<Rightarrow> Inl (f e) | Inr x \<Rightarrow> Inr x)"

definition at_or_best :: "('hash, 'acc, 'err) Client \<Rightarrow> 'hash option \<Rightarrow> 'hash" where
  "at_or_best client at = (case at of None \<Rightarrow> best_hash client | Some h \<Rightarrow> h)"

definition rpc_error :: "('hash, 'acc, 'err) Client \<Rightarrow> 'err \<Rightarrow> ErrorObject" where
  "rpc_error client e = runtime_error_into_rpc_error (display_error client e)"

definition get_difficulty :: "('hash, 'acc, 'err) Client \<Rightarrow> 'hash option \<Rightarrow> ErrorObject + u64" where
  "get_difficulty client at = map_err (rpc_error client) (api_get_difficulty client (at_or_best client at))"

definition get_current_phase :: "('hash, 'acc, 'err) Client \<Rightarrow> 'hash option \<Rightarrow> ErrorObject + string" where
  "get_current_phase client at =
     (case map_err (rpc_error client) (api_get_current_phase client (at_or_best client at)) of
        Inl e \<Rightarrow> Inl e
      | Inr phase_num \<Rightarrow>
        Inr (if phase_num = 0 then ''PowMining''
             else if phase_num = 1 then ''PosValidation''
             else if phase_num = 2 then ''Finalization''
             else ''Unknown''))"

definition get_validator_stake ::
  "('hash, 'acc, 'err) Client \<Rightarrow> 'acc \<Rightarrow> 'hash option \<Rightarrow> ErrorObject + u128 option" where
  "get_validator_stake client validator at =
     map_err (rpc_error client) (api_get_validator_stake client (at_or_best client at) validator)"

definition get_all_validators ::
  "('hash, 'acc, 'err) Client \<Rightarrow> 'hash option \<Rightarrow> ErrorObject + ('acc \<times> u128) list" where
  "get_all_validators client at =
     map_err (rpc_error client) (api_get_all_validators client (at_or_best client at))"

definition get_slashing_records :: "('hash, 'acc, 'err) Client \<Rightarrow> 'hash option \<Rightarrow> ErrorObject + u32" where
  "get_slashing_records client at =
     map_err (rpc_error client) (api_get_slashing_records_count client (at_or_best client at))"

text \<open>The position of a phase in the declaration of \<open>ConsensusPhase\<close>, and the name's reading back.\<close>

definition phase_index :: "ConsensusPhase \<Rightarrow> u8" where
  "phase_index p = (case p of PowMining \<Rightarrow> 0 | PosValidation \<Rightarrow> 1 | Finalization \<Rightarrow> 2)"

definition phase_of_name :: "string \<Rightarrow> ConsensusPhase option" where
  "phase_of_name name = map_of [(''PowMining'', PowMining), (''PosValidation'', PosValidation),
     (''Finalization'', Finalization)] name"

section \<open>Chain specifications\<close>

datatype ChainType = Development | Local

record ChainSpec =
  cs_wasm :: bytes
  cs_name :: string
  cs_id :: string
  cs_chain_type :: ChainType
  cs_preset :: string

definition development_chain_spec :: "bytes option \<Rightarrow> string + ChainSpec" where
  "development_chain_spec WASM_BINARY =
     (case WASM_BINARY of
        None \<Rightarrow> Inl ''Development wasm not available''
      | Some wasm \<Rightarrow> Inr \<lparr>cs_wasm = wasm, cs_name = ''Ghost Development'', cs_id = ''ghost-dev'',
          cs_chain_type = Development, cs_preset = ''dev''\<rparr>)"

definition local_chain_spec :: "bytes option \<Rightarrow> string + ChainSpec" where
  "local_chain_spec WASM_BINARY =
     (case WASM_BINARY of
        None \<Rightarrow> Inl ''Development wasm not available''
      | Some wasm \<Rightarrow> Inr \<lparr>cs_wasm = wasm, cs_name = ''Ghost Local Testnet'', cs_id = ''ghost-local'',
          cs_chain_type = Local, cs_preset = ''local_testnet''\<rparr>)"

text \<open>Any other \<open>id\<close> is the path of a JSON file, which \<open>sc_service\<close> reads (a parameter).\<close>

definition load_spec :: "bytes option \<Rightarrow> (string \<Rightarrow> string + ChainSpec) \<Rightarrow> string \<Rightarrow> string + ChainSpec" where
  "load_spec WASM_BINARY from_json_file spec_id =
     (if spec_id = ''dev'' then development_chain_spec WASM_BINARY
      else if spec_id = '''' \<or> spec_id = ''local'' then local_chain_spec WASM_BINARY
      else from_json_file spec_id)"

section \<open>The ghost subcommands\<close>

datatype GhostCommands =
    Mine u64 "u64 option"
  | StakePreview u128 "string option"
  | UnstakePreview u128 "string option"
  | Balance "string option"
  | Status bool
  | Validators bool

text \<open>
  What the command reports: every value it prints, without the wording around it. Amounts are whole
  tokens, as printed.
\<close>

record StatusSummary =
  sm_consensus_design :: string
  sm_authoring :: string
  sm_finality :: string
  sm_pallet :: string
  sm_block_time_seconds :: nat
  sm_pow_algorithm :: string
  sm_miner_percent :: nat
  sm_stakers_percent :: nat
  sm_block_reward_tokens :: nat

record StatusDetails =
  sd_minimum_stake_tokens :: nat
  sd_slash_percentages :: "(SlashingReason \<times> nat) list"
  sd_downtime_blocks :: nat
  sd_phase_flow :: "ConsensusPhase list"
  sd_chain :: string
  sd_runtime :: string
  sd_token :: string
  sd_symbol :: string
  sd_pqc :: string

datatype GhostReport =
    MiningResult u64 MiningStats
  | MiningInterrupted
  | StakingReport u128 "string option" nat
  | UnstakingReport u128 "string option"
  | BalanceReport "string + (string \<times> string \<times> nat) list"
  | StatusReport StatusSummary "StatusDetails option"
  | ValidatorsReport bool "(string \<times> string) list"

definition default_accounts :: "(string \<times> string \<times> nat) list" where
  "default_accounts =
     [(''Alice'', ''5GrwvaEF5zXb26Fz9rcQpDWS57CtERHpNehXCPcNoHGKutQY'', 100),
      (''Bob'', ''5FHneW46xGXgs5mUiveU4sbTyGBzmstUspZC92UhjJM694ty'', 100)]"

definition status_summary :: StatusSummary where
  "status_summary = \<lparr>
     sm_consensus_design = ''Hybrid PoW + PoS + PQC'', sm_authoring = ''Aura'', sm_finality = ''GRANDPA'',
     sm_pallet = ''informational prototype only'',
     sm_block_time_seconds = 5, sm_pow_algorithm = ''Enhanced Blake2-256 (ASIC-resistant)'',
     sm_miner_percent = 40, sm_stakers_percent = 60, sm_block_reward_tokens = 10\<rparr>"

definition status_details :: StatusDetails where
  "status_details = \<lparr>
     sd_minimum_stake_tokens = 1,
     sd_slash_percentages = [(DoubleSigning, 100), (InvalidBlock, 50), (Downtime, 10)],
     sd_downtime_blocks = 100, sd_phase_flow = [PowMining, PosValidation, Finalization],
     sd_chain = ''Ghost Development Chain'', sd_runtime = ''FRAME-based (Substrate)'',
     sd_token = ''Ghost'', sd_symbol = ''GHTM'',
     sd_pqc = ''Dilithium5 support is not wired into the live node RPC surface''\<rparr>"

definition default_validators :: "(string \<times> string) list" where
  "default_validators =
     [(''Alice'', ''5GrwvaEF5zXb26Fz9rcQpDWS57CtERHpNehXCPcNoHGKutQY''),
      (''Bob'', ''5FHneW46xGXgs5mUiveU4sbTyGBzmstUspZC92UhjJM694ty'')]"

definition mine_difficulty :: "u64 option \<Rightarrow> u64" where
  "mine_difficulty difficulty = (case difficulty of None \<Rightarrow> (- 1) div 1000000 | Some d \<Rightarrow> d)"

definition demo_header :: "u64 \<Rightarrow> MiningBlockHeader" where
  "demo_header target_difficulty = \<lparr>mh_number = 1, mh_parent_hash = 0, mh_state_root = 1,
     mh_extrinsics_root = 2, mh_difficulty = target_difficulty\<rparr>"

text \<open>\<open>started\<close> is what the miner's \<open>start\<close> returned in this run; its runs are those of \<open>mining_run\<close>.\<close>

definition handle_ghost_command ::
  "(Miner \<Rightarrow> MiningBlockHeader \<Rightarrow> (u64 \<times> MiningStats) option) \<Rightarrow> GhostCommands \<Rightarrow> GhostReport" where
  "handle_ghost_command started cmd = (case cmd of
       Mine threads difficulty \<Rightarrow>
         let target_difficulty = mine_difficulty difficulty;
             block_header = demo_header target_difficulty;
             miner = Miner_new threads target_difficulty
         in (case started miner block_header of
               Some (nonce, stats) \<Rightarrow> MiningResult nonce stats
             | None \<Rightarrow> MiningInterrupted)
     | StakePreview amount acct \<Rightarrow> StakingReport amount acct 1
     | UnstakePreview amount acct \<Rightarrow> UnstakingReport amount acct
     | Balance acct \<Rightarrow>
         (case acct of Some acct \<Rightarrow> BalanceReport (Inl acct) | None \<Rightarrow> BalanceReport (Inr default_accounts))
     | Status detailed \<Rightarrow> StatusReport status_summary (if detailed then Some status_details else None)
     | Validators active_only \<Rightarrow> ValidatorsReport active_only default_validators)"

section \<open>The consensus engine stubs\<close>

record ImportedAux =
  header_only :: bool
  clear_justification_requests :: bool
  needs_justification :: bool
  bad_justification :: bool
  is_new_best :: bool

datatype ImportResult = Imported ImportedAux

datatype ForkChoiceStrategy = LongestChain

datatype ConsensusError = CannotPropose

text \<open>The engine, its block import and its proposer only hold the client they are made with.\<close>

record 'client GhostConsensusEngine =
  ge_client :: 'client

record 'client GhostBlockImport =
  gi_client :: 'client

record 'client GhostProposer =
  gp_client :: 'client

definition GhostConsensusEngine_new :: "'client \<Rightarrow> 'client GhostConsensusEngine" where
  "GhostConsensusEngine_new client = \<lparr>ge_client = client\<rparr>"

definition GhostBlockImport_new :: "'client \<Rightarrow> 'client GhostBlockImport" where
  "GhostBlockImport_new client = \<lparr>gi_client = client\<rparr>"

definition GhostProposer_new :: "'client \<Rightarrow> 'client GhostProposer" where
  "GhostProposer_new client = \<lparr>gp_client = client\<rparr>"

definition block_import :: "'client GhostConsensusEngine \<Rightarrow> 'client GhostBlockImport" where
  "block_import engine = GhostBlockImport_new (ge_client engine)"

definition engine_name :: string where
  "engine_name = ''GhostConsensus''"

definition engine_version :: "nat \<times> nat \<times> nat" where
  "engine_version = (1, 0, 0)"

definition fork_choice_strategy :: ForkChoiceStrategy where
  "fork_choice_strategy = LongestChain"

definition check_block :: "'block \<Rightarrow> 'err + ImportResult" where
  "check_block block = Inr (Imported \<lparr>header_only = False, clear_justification_requests = False,
     needs_justification = False, bad_justification = False, is_new_best = True\<rparr>)"

definition import_block :: "'block \<Rightarrow> 'err + ImportResult" where
  "import_block block = Inr (Imported \<lparr>header_only = False, clear_justification_requests = False,
     needs_justification = False, bad_justification = False, is_new_best = True\<rparr>)"

definition propose :: "'params \<Rightarrow> ConsensusError + 'proposal" where
  "propose params = Inl CannotPropose"

section \<open>Properties\<close>

text \<open>
  Where the runtime answers with the index of the current phase, the RPC method returns a name
  that reads back as that phase; for every other index it returns a name that reads back as none.
\<close>

lemma rpc_phase_roundtrip:
  assumes "api_get_current_phase client (at_or_best client at) = Inr code"
  shows "\<exists>name. get_current_phase client at = Inr name
    \<and> (\<forall>p. phase_of_name name = Some p \<longleftrightarrow> phase_index p = code)"
proof -
  have distinct: "phase_index p = code \<longleftrightarrow>
      (p = PowMining \<and> code = 0) \<or> (p = PosValidation \<and> code = 1) \<or> (p = Finalization \<and> code = 2)" for p
    by (cases p) (auto simp: phase_index_def)
  show ?thesis
    by (simp add: get_current_phase_def assms map_err_def distinct phase_of_name_def) auto
qed

definition sample_client :: "(nat, u64, string) Client" where
  "sample_client = \<lparr>best_hash = 9, api_get_difficulty = (\<lambda>h. Inr 100),
     api_get_current_phase = (\<lambda>h. if h = 9 then Inr 1 else Inl ''unknown block''),
     api_get_validator_stake = (\<lambda>h a. Inr None), api_get_all_validators = (\<lambda>h. Inr []),
     api_get_slashing_records_count = (\<lambda>h. Inr 0), display_error = (\<lambda>e. e)\<rparr>"

text \<open>
  A specification that the node builds itself names a genesis preset that the runtime has; the
  lookup fails there only when the runtime's WASM binary is missing.
\<close>

lemma built_in_specs_have_presets:
  assumes "spec_id \<in> {''dev'', '''', ''local''}"
  shows "case load_spec WASM_BINARY from_json_file spec_id of
      Inl e \<Rightarrow> WASM_BINARY = None
    | Inr spec \<Rightarrow> WASM_BINARY = Some (cs_wasm spec) \<and> get_preset to_string (cs_preset spec) \<noteq> Some None"
  using assms
  by (cases WASM_BINARY)
    (auto simp: load_spec_def development_chain_spec_def local_chain_spec_def get_preset_def split: sum.split)

text \<open>
  \<open>ghost mine\<close> reports a nonce only if the demonstration header with that nonce meets the
  requested target (u64::MAX / 1_000_000 if none is given), for every run of the miner's threads;
  with no threads it reports an interruption.
\<close>

lemma mine_command_reports_solutions:
  assumes "mining_run X (Miner_new threads (mine_difficulty difficulty)) (demo_header (mine_difficulty difficulty)) s"
    and "all_joined s"
    and "started (Miner_new threads (mine_difficulty difficulty)) (demo_header (mine_difficulty difficulty))
      = mining_result s"
    and "handle_ghost_command started (Mine threads difficulty) = MiningResult nonce stats"
  shows "mining_hash X (demo_header (mine_difficulty difficulty)) nonce \<le> mine_difficulty difficulty
    \<and> ms_blocks_found stats = 1 \<and> threads \<noteq> 0"
proof -
  let ?d = "mine_difficulty difficulty"
  let ?m = "Miner_new threads ?d" and ?h = "demo_header ?d"
  have target: "mining_target ?m ?h = ?d" and threads: "mi_threads ?m = threads"
    by (simp_all add: mining_target_def Miner_new_def demo_header_def)
  have result: "mining_result s = Some (nonce, stats)"
    using assms(3,4) by (auto simp: handle_ghost_command_def Let_def split: option.splits)
  then have found: "mr_found_solution s" and nonce: "nonce = mr_found_nonce s" and stats: "ms_blocks_found stats = 1"
    by (auto simp: mining_result_def Let_def split: if_splits)
  have "length (mr_workers s) = unat threads"
    using mining_run_length [OF assms(1)] threads by simp
  with joined_result [OF assms(1) [unfolded mining_run_def] assms(2) found] stats show ?thesis
    by (metis less_nat_zero_code nonce target unat_0)
qed

end
