(* ===== verification/Ghost_Service.thy ===== *)
theory Ghost_Service
  imports Ghost_Node
begin

text \<open>
  How the node assembles itself: \<open>new_partial\<close> and \<open>new_full\<close> of \<open>node/src/service.rs\<close>, the choice
  of a subcommand in \<open>node/src/command.rs\<close>, and the benchmark extrinsics of
  \<open>node/src/benchmarking.rs\<close>. The parts are Substrate's; what the code decides is which of them are
  created with what settings, in which order, and what happens when one fails. A function is
  therefore the list of the library calls it makes, \<open>execute\<close> runs such a list as \<open>?\<close> does, and
  what a call returns is a parameter. Calls that only build values (clones, handles, the longest-chain
  rule, the network configuration) are left out.
\<close>

section \<open>Library calls\<close>

datatype NetworkBackendType = Libp2p | Litep2p

record Configuration =
  telemetry_endpoints :: "string list option"
  is_authority :: bool
  offchain_worker_enabled :: bool
  force_authoring :: bool
  disable_grandpa :: bool
  node_name :: string
  network_backend :: NetworkBackendType

text \<open>A task of the task manager; the failure of an essential one stops the node.\<close>

datatype Task = Task (task_name: string) (task_group: "string option") (task_essential: bool) (task_blocking: bool)

definition telemetry_task :: Task where
  "telemetry_task = Task ''telemetry'' None False False"

definition offchain_task :: Task where
  "offchain_task = Task ''offchain-workers-runner'' (Some ''offchain-worker'') False False"

definition aura_task :: Task where
  "aura_task = Task ''aura'' (Some ''block-authoring'') True True"

definition grandpa_task :: Task where
  "grandpa_task = Task ''grandpa-voter'' None True True"

text \<open>Of \<open>sc_consensus_grandpa::Config\<close>: whether there is a keystore, not which.\<close>

record GrandpaConfig =
  gossip_duration_millis :: nat
  justification_generation_period :: u32
  voter_name :: string
  observer_enabled :: bool
  has_keystore :: bool
  local_authority :: bool

text \<open>Of \<open>OffchainWorkerOptions\<close>, \<open>BuildNetworkParams\<close> and \<open>StartAuraParams\<close>: what the node sets itself.\<close>

record OffchainWorkerOptions =
  is_validator :: bool
  offchain_has_keystore :: bool
  enable_http_requests :: bool
  custom_extensions :: "string list"

record BuildNetworkParams =
  np_backend :: NetworkBackendType
  np_grandpa_protocol :: bool
  np_warp_sync :: bool
  np_block_announce_validator :: bool
  np_block_relay :: bool

record StartAuraParams =
  ap_force_authoring :: bool
  ap_backoff_authoring_blocks :: "unit option"
  ap_block_proposal_slot_portion :: "nat \<times> nat"
  ap_max_block_proposal_slot_portion :: "(nat \<times> nat) option"

datatype Sr25519Keyring = Alice | Bob

text \<open>What a subcommand is handed: parts of the configuration, or of a partial node.\<close>

datatype Part =
    The_client
  | The_import_queue
  | The_backend
  | Grandpa_revert
  | Database_config
  | Chain_spec
  | Network_config
  | Whole_config
  | Remark_builder
  | Transfer_keep_alive_builder Sr25519Keyring u128

datatype Step =
    TelemetryWorker_new nat
  | New_full_parts
  | Transaction_pool bool
  | Grandpa_block_import u32
  | Aura_import_queue
  | Expect_genesis_block
  | Add_grandpa_protocol
  | Build_network BuildNetworkParams
  | Run_offchain_workers OffchainWorkerOptions
  | Spawn_tasks
  | Start_network
  | Slot_duration
  | Start_aura StartAuraParams
  | Run_grandpa_voter GrandpaConfig
  | Spawn Task
  | Create_runner
  | Run_command string "Part list"
  | Inherent_benchmark_data
  | Await_exit
  | Refuse string
  | Ghost_command GhostCommands

section \<open>service.rs\<close>

definition GRANDPA_JUSTIFICATION_PERIOD :: u32 where
  "GRANDPA_JUSTIFICATION_PERIOD = 512"

definition new_partial :: "Configuration \<Rightarrow> Step list" where
  "new_partial config =
     (let telemetry = (case telemetry_endpoints config of None \<Rightarrow> False | Some x \<Rightarrow> x \<noteq> [])
      in (if telemetry then [TelemetryWorker_new 16] else [])
         @ [New_full_parts]
         @ (if telemetry then [Spawn telemetry_task] else [])
         @ [Transaction_pool (is_authority config),
            Grandpa_block_import GRANDPA_JUSTIFICATION_PERIOD,
            Aura_import_queue])"

definition grandpa_config_of :: "Configuration \<Rightarrow> GrandpaConfig" where
  "grandpa_config_of config = \<lparr>
     gossip_duration_millis = 333,
     justification_generation_period = GRANDPA_JUSTIFICATION_PERIOD,
     voter_name = node_name config,
     observer_enabled = False,
     has_keystore = is_authority config,
     local_authority = is_authority config\<rparr>"

text \<open>The slot portion is the source's \<open>2f32 / 3f32\<close>, as numerator and denominator.\<close>

definition aura_params_of :: "Configuration \<Rightarrow> StartAuraParams" where
  "aura_params_of config = \<lparr>
     ap_force_authoring = force_authoring config,
     ap_backoff_authoring_blocks = None,
     ap_block_proposal_slot_portion = (2, 3),
     ap_max_block_proposal_slot_portion = None\<rparr>"

definition network_params_of :: "Configuration \<Rightarrow> BuildNetworkParams" where
  "network_params_of config = \<lparr>
     np_backend = network_backend config,
     np_grandpa_protocol = True,
     np_warp_sync = True,
     np_block_announce_validator = False,
     np_block_relay = False\<rparr>"

definition offchain_options_of :: "Configuration \<Rightarrow> OffchainWorkerOptions" where
  "offchain_options_of config = \<lparr>
     is_validator = is_authority config,
     offchain_has_keystore = True,
     enable_http_requests = True,
     custom_extensions = []\<rparr>"

definition new_full :: "Configuration \<Rightarrow> Step list" where
  "new_full config =
     (let enable_grandpa = (\<not> disable_grandpa config)
      in new_partial config
         @ [Expect_genesis_block, Add_grandpa_protocol, Build_network (network_params_of config)]
         @ (if offchain_worker_enabled config then [Run_offchain_workers (offchain_options_of config), Spawn offchain_task] else [])
         @ [Spawn_tasks, Start_network]
         @ (if is_authority config
            then [Slot_duration, Start_aura (aura_params_of config), Spawn aura_task] else [])
         @ (if enable_grandpa
            then [Run_grandpa_voter (grandpa_config_of config), Spawn grandpa_task] else []))"

section \<open>command.rs\<close>

datatype BenchmarkCmd =
    BenchmarkPallet
  | BenchmarkBlock
  | BenchmarkStorage
  | BenchmarkOverhead
  | BenchmarkExtrinsic
  | BenchmarkMachine

datatype Subcommand =
    Key
  | BuildSpec
  | CheckBlock
  | ExportBlocks
  | ExportState
  | ImportBlocks
  | PurgeChain
  | Revert
  | Benchmark BenchmarkCmd
  | ChainInfo
  | Ghost GhostCommands

text \<open>\<open>runtime_benchmarks\<close> is the cargo feature \<open>runtime-benchmarks\<close>.\<close>

definition run_benchmark :: "bool \<Rightarrow> Configuration \<Rightarrow> BenchmarkCmd \<Rightarrow> Step list" where
  "run_benchmark runtime_benchmarks config cmd = (case cmd of
       BenchmarkPallet \<Rightarrow>
         if \<not> runtime_benchmarks
         then [Refuse ''Runtime benchmarking wasn't enabled when building the node. You can enable it with `--features runtime-benchmarks`.'']
         else [Run_command ''benchmark pallet'' [Chain_spec]]
     | BenchmarkBlock \<Rightarrow> new_partial config @ [Run_command ''benchmark block'' [The_client]]
     | BenchmarkStorage \<Rightarrow>
         if \<not> runtime_benchmarks
         then [Refuse ''Storage benchmarking can be enabled with `--features runtime-benchmarks`.'']
         else new_partial config @ [Run_command ''benchmark storage'' [Whole_config, The_client, The_backend]]
     | BenchmarkOverhead \<Rightarrow>
         new_partial config @ [Inherent_benchmark_data, Run_command ''benchmark overhead'' [Whole_config, The_client, Remark_builder]]
     | BenchmarkExtrinsic \<Rightarrow>
         new_partial config @ [Inherent_benchmark_data, Run_command ''benchmark extrinsic'' [The_client, Remark_builder, Transfer_keep_alive_builder Alice EXISTENTIAL_DEPOSIT]]
     | BenchmarkMachine \<Rightarrow> [Run_command ''benchmark machine'' [Whole_config]])"

definition run :: "bool \<Rightarrow> Configuration \<Rightarrow> Subcommand option \<Rightarrow> Step list" where
  "run runtime_benchmarks config subcommand = (case subcommand of
       Some Key \<Rightarrow> [Run_command ''key'' []]
     | Some BuildSpec \<Rightarrow> [Create_runner, Run_command ''build-spec'' [Chain_spec, Network_config]]
     | Some CheckBlock \<Rightarrow> [Create_runner] @ new_partial config @ [Run_command ''check-block'' [The_client, The_import_queue]]
     | Some ExportBlocks \<Rightarrow> [Create_runner] @ new_partial config @ [Run_command ''export-blocks'' [The_client, Database_config]]
     | Some ExportState \<Rightarrow> [Create_runner] @ new_partial config @ [Run_command ''export-state'' [The_client, Chain_spec]]
     | Some ImportBlocks \<Rightarrow> [Create_runner] @ new_partial config @ [Run_command ''import-blocks'' [The_client, The_import_queue]]
     | Some PurgeChain \<Rightarrow> [Create_runner, Run_command ''purge-chain'' [Database_config]]
     | Some Revert \<Rightarrow> [Create_runner] @ new_partial config @ [Run_command ''revert'' [The_client, The_backend, Grandpa_revert]]
     | Some (Benchmark cmd) \<Rightarrow> [Create_runner] @ run_benchmark runtime_benchmarks config cmd
     | Some ChainInfo \<Rightarrow> [Create_runner, Run_command ''chain-info'' [Whole_config]]
     | Some (Ghost cmd) \<Rightarrow> [Ghost_command cmd]
     | None \<Rightarrow> [Create_runner] @ new_full config @ [Await_exit])"

section \<open>What happens when a call fails\<close>

datatype 'err Outcome = Completed | Failed 'err | Panicked

text \<open>The calls whose result \<open>?\<close> or \<open>expect\<close> inspects; a refusal is an error of the node's own.\<close>

fun fallible :: "Step \<Rightarrow> bool" where
  "fallible (Spawn task) = False"
| "fallible (Transaction_pool authority) = False"
| "fallible Add_grandpa_protocol = False"
| "fallible Start_network = False"
| "fallible (Run_offchain_workers options) = False"
| "fallible (Ghost_command cmd) = False"
| "fallible (Refuse message) = False"
| "fallible step = True"

definition outcome_of :: "(Step \<Rightarrow> string Outcome) \<Rightarrow> Step \<Rightarrow> string Outcome" where
  "outcome_of env step = (case step of
       Refuse message \<Rightarrow> Failed message
     | _ \<Rightarrow> if fallible step then env step else Completed)"

fun execute :: "(Step \<Rightarrow> string Outcome) \<Rightarrow> Step list \<Rightarrow> Step list \<times> string Outcome" where
  "execute env [] = ([], Completed)"
| "execute env (step # steps) =
     (case outcome_of env step of
        Completed \<Rightarrow> (let (completed, r) = execute env steps in (step # completed, r))
      | Failed e \<Rightarrow> ([], Failed e)
      | Panicked \<Rightarrow> ([], Panicked))"

definition spawned :: "Step list \<Rightarrow> Task list" where
  "spawned steps = concat (map (\<lambda>step. case step of Spawn task \<Rightarrow> [task] | _ \<Rightarrow> []) steps)"

lemma spawned_simps [simp]:
  "spawned [] = []" "spawned (Spawn task # steps) = task # spawned steps"
  "spawned (Create_runner # xs) = spawned xs" "spawned [Await_exit] = []"
  "spawned (xs @ ys) = spawned xs @ spawned ys"
  by (simp_all add: spawned_def)

lemma set_spawned: "task \<in> set (spawned steps) \<longleftrightarrow> Spawn task \<in> set steps"
  by (induction steps) (auto simp: spawned_def split: Step.splits)

text \<open>A run completes a prefix; it ends at the first call that does not return.\<close>

lemma execute_cases:
  assumes "execute env steps = (completed, r)"
  obtains (returns) "completed = steps" "r = Completed"
    | (stops) step rest where "steps = completed @ step # rest" "outcome_of env step = r" "r \<noteq> Completed"
  using assms
proof (induction steps arbitrary: completed thesis)
  case (Cons s ss)
  show ?case
  proof (cases "outcome_of env s = Completed")
    case True
    then obtain completed' where "execute env ss = (completed', r)" and "completed = s # completed'"
      using Cons.prems(3) by (auto split: prod.splits)
    with Cons show ?thesis by (metis append_Cons)
  next
    case False
    then have "completed = []" "r = outcome_of env s"
      using Cons.prems(3) by (cases "outcome_of env s"; simp)+
    with False Cons.prems(2) [of s ss] show ?thesis by simp
  qed
qed simp

lemma execute_completed: "snd (execute env steps) = Completed \<longleftrightarrow> (\<forall>s \<in> set steps. outcome_of env s = Completed)"
  by (induction steps) (auto split: Outcome.split prod.split)

lemma new_partial_spawns: "Spawn task \<in> set (new_partial config) \<Longrightarrow> task = telemetry_task"
  by (auto simp: new_partial_def Let_def split: option.splits if_splits)

lemmas task_defs = telemetry_task_def offchain_task_def aura_task_def grandpa_task_def

lemma tasks_differ [simp]:
  "aura_task \<noteq> telemetry_task" "grandpa_task \<noteq> telemetry_task" "offchain_task \<noteq> telemetry_task"
  "aura_task \<noteq> offchain_task" "grandpa_task \<noteq> offchain_task" "aura_task \<noteq> grandpa_task" "grandpa_task \<noteq> aura_task"
  by (simp_all add: task_defs)

lemma spawns_of_run:
  assumes "Spawn task \<in> set (run runtime_benchmarks config subcommand)" and "task \<noteq> telemetry_task"
  shows "subcommand = None \<and> Spawn task \<in> set (new_full config)"
proof (cases subcommand)
  case None
  then show ?thesis using assms(1) by (simp add: run_def)
next
  case (Some cmd)
  then show ?thesis
    using assms new_partial_spawns [of task config]
    by (auto simp: run_def run_benchmark_def split: Subcommand.splits BenchmarkCmd.splits if_splits)
qed

section \<open>benchmarking.rs\<close>

text \<open>\<open>u32::checked_next_power_of_two\<close>: the least power of two that is not below, if \<open>u32\<close> has one.\<close>

definition checked_next_power_of_two :: "u32 \<Rightarrow> u32 option" where
  "checked_next_power_of_two x = find (\<lambda>p. x \<le> p) (map (\<lambda>k. push_bit k 1) [0..<32])"

definition benchmark_period :: "u32 \<Rightarrow> u64" where
  "benchmark_period block_hash_count =
     ucast (case map_option (\<lambda>c. c div 2) (checked_next_power_of_two block_hash_count) of
              Some c \<Rightarrow> c
            | None \<Rightarrow> 2)"

datatype RuntimeCall =
    System_remark bytes
  | Balances_transfer_keep_alive AccountId u128

text \<open>The extensions with a value of their own, and what is signed with them but not sent.\<close>

record TxExtension =
  tx_era_period :: u64
  tx_era_current :: u64
  tx_nonce :: u32
  tx_tip :: u128
  tx_metadata_hash :: bool

record SignedPayload =
  sp_call :: RuntimeCall
  sp_ext :: TxExtension
  sp_spec_version :: u32
  sp_transaction_version :: u32
  sp_genesis_hash :: H256
  sp_best_hash :: H256

record 'sig UncheckedExtrinsic =
  ux_call :: RuntimeCall
  ux_signer :: AccountId
  ux_signature :: 'sig
  ux_ext :: TxExtension

text \<open>What the client knows; the hash of block 0 is \<^const>\<open>None\<close> when its lookup fails or finds none.\<close>

record FullClient =
  genesis_hash :: "H256 option"
  info_best_hash :: H256
  info_best_number :: u32

definition create_benchmark_extrinsic ::
  "(Sr25519Keyring \<Rightarrow> AccountId) \<Rightarrow> (Sr25519Keyring \<Rightarrow> SignedPayload \<Rightarrow> 'sig) \<Rightarrow> FullClient
    \<Rightarrow> Sr25519Keyring \<Rightarrow> RuntimeCall \<Rightarrow> u32 \<Rightarrow> 'sig UncheckedExtrinsic option" where
  "create_benchmark_extrinsic to_account_id sign client sender call nonce =
     do {
       genesis \<leftarrow> genesis_hash client;
       let tx_ext = \<lparr>tx_era_period = benchmark_period BlockHashCount,
             tx_era_current = saturated_into (info_best_number client), tx_nonce = nonce, tx_tip = 0,
             tx_metadata_hash = False\<rparr>;
       let raw_payload = \<lparr>sp_call = call, sp_ext = tx_ext, sp_spec_version = rv_spec_version VERSION,
             sp_transaction_version = rv_transaction_version VERSION, sp_genesis_hash = genesis,
             sp_best_hash = info_best_hash client\<rparr>;
       Some \<lparr>ux_call = call, ux_signer = to_account_id sender, ux_signature = sign sender raw_payload,
             ux_ext = tx_ext\<rparr>
     }"

definition build_remark ::
  "(Sr25519Keyring \<Rightarrow> AccountId) \<Rightarrow> (Sr25519Keyring \<Rightarrow> SignedPayload \<Rightarrow> 'sig) \<Rightarrow> FullClient
    \<Rightarrow> u32 \<Rightarrow> 'sig UncheckedExtrinsic option" where
  "build_remark to_account_id sign client nonce =
     create_benchmark_extrinsic to_account_id sign client Bob (System_remark []) nonce"

definition build_transfer_keep_alive ::
  "(Sr25519Keyring \<Rightarrow> AccountId) \<Rightarrow> (Sr25519Keyring \<Rightarrow> SignedPayload \<Rightarrow> 'sig) \<Rightarrow> FullClient
    \<Rightarrow> AccountId \<Rightarrow> u128 \<Rightarrow> u32 \<Rightarrow> 'sig UncheckedExtrinsic option" where
  "build_transfer_keep_alive to_account_id sign client dest value nonce =
     create_benchmark_extrinsic to_account_id sign client Bob (Balances_transfer_keep_alive dest value) nonce"

section \<open>rpc.rs of the node\<close>

definition get_node_status :: string where
  "get_node_status = ''Ghost node uses Aura for authoring and GRANDPA for finality in this build.''"

definition get_consensus_mode :: string where
  "get_consensus_mode =
     ''Aura + GRANDPA live; Ghost hybrid PoW + PoS remains informational/prototype code.''"

definition get_pqc_status :: string where
  "get_pqc_status = ''Dilithium5 support is not wired into the live node RPC surface yet.''"

definition ghost_node_methods :: "(string \<times> string) list" where
  "ghost_node_methods = [(''ghost_getNodeStatus'', get_node_status),
     (''ghost_getConsensusMode'', get_consensus_mode), (''ghost_getPqcStatus'', get_pqc_status)]"

text \<open>A module of \<open>jsonrpsee\<close> is what the parameter \<open>merge\<close> makes of it; a merge may fail.\<close>

definition create_full ::
  "('module \<Rightarrow> 'module \<Rightarrow> 'err + 'module) \<Rightarrow> 'module \<Rightarrow> 'module \<Rightarrow> 'module
    \<Rightarrow> ((string \<times> string) list \<Rightarrow> 'module) \<Rightarrow> 'err + 'module" where
  "create_full merge new_module system transaction_payment into_rpc =
     (case merge new_module system of
        Inl e \<Rightarrow> Inl e
      | Inr m \<Rightarrow> (case merge m transaction_payment of
          Inl e \<Rightarrow> Inl e
        | Inr m \<Rightarrow> merge m (into_rpc ghost_node_methods)))"

section \<open>Proof-of-work primitives\<close>

text \<open>
  The crate \<open>ghost-pow-primitives\<close> declares the engine's identifier and the seal, which SCALE encodes
  as its nonce in little-endian bytes. Nothing in the repository uses the crate.
\<close>

definition POW_ENGINE_ID :: bytes where
  "POW_ENGINE_ID = [112, 111, 119, 95]"

record GhostSeal =
  gs_nonce :: u64

section \<open>Properties\<close>

definition configured_tasks :: "Configuration \<Rightarrow> Task list" where
  "configured_tasks config =
     (case telemetry_endpoints config of None \<Rightarrow> [] | Some x \<Rightarrow> if x = [] then [] else [telemetry_task])
     @ (if offchain_worker_enabled config then [offchain_task] else [])
     @ (if is_authority config then [aura_task] else [])
     @ (if disable_grandpa config then [] else [grandpa_task])"

lemma spawned_of_new_full: "spawned (new_full config) = configured_tasks config"
  by (simp add: new_full_def new_partial_def spawned_def configured_tasks_def Let_def split: option.split)

text \<open>What is completed is an initial segment, and so are the tasks that it spawns.\<close>

lemma execute_prefix:
  assumes "execute env steps = (completed, r)"
  obtains rest where "steps = completed @ rest" "r = Completed \<Longrightarrow> rest = []"
  using assms by (cases rule: execute_cases) auto

text \<open>A step that a list of steps holds once is preceded by the same steps in every initial segment.\<close>

lemma before_unique:
  assumes "xs @ a # ys = before @ a # after @ rest" and "a \<notin> set xs" and "a \<notin> set ys"
  shows "before = xs"
  using assms append_Cons_eq_iff [of a xs ys before "after @ rest"] by simp

lemma spawned_of_new_partial: "task \<noteq> telemetry_task \<Longrightarrow> Spawn task \<notin> set (new_partial config)"
  using new_partial_spawns by blast

lemma before_authoring:
  assumes run: "execute env (run runtime_benchmarks config None) = (before @ Spawn aura_task # after, r)"
  shows "is_authority config \<and> {Grandpa_block_import 512, Aura_import_queue, Expect_genesis_block, Start_network,
      Slot_duration, Start_aura (aura_params_of config)} \<subseteq> set before"
proof -
  obtain rest where steps: "run runtime_benchmarks config None = before @ Spawn aura_task # after @ rest"
    using execute_prefix [OF run] by auto
  then have "Spawn aura_task \<in> set (run runtime_benchmarks config None)" by simp
  then have authority: "is_authority config"
    by (auto simp: run_def new_full_def spawned_of_new_partial split: if_splits)
  let ?xs = "Create_runner # new_partial config
      @ [Expect_genesis_block, Add_grandpa_protocol, Build_network (network_params_of config)]
      @ (if offchain_worker_enabled config then [Run_offchain_workers (offchain_options_of config), Spawn offchain_task] else [])
      @ [Spawn_tasks, Start_network, Slot_duration, Start_aura (aura_params_of config)]"
    and ?ys = "(if disable_grandpa config then [] else [Run_grandpa_voter (grandpa_config_of config), Spawn grandpa_task])
      @ [Await_exit]"
  have "?xs @ Spawn aura_task # ?ys = before @ Spawn aura_task # after @ rest"
    using authority by (simp add: run_def new_full_def flip: steps)
  then have "before = ?xs" by (rule before_unique) (auto simp: spawned_of_new_partial)
  with authority show ?thesis by (simp add: new_partial_def Let_def GRANDPA_JUSTIFICATION_PERIOD_def)
qed

lemma before_voting:
  assumes run: "execute env (run runtime_benchmarks config None) = (before @ Spawn grandpa_task # after, r)"
  shows "\<not> disable_grandpa config \<and> {Start_network, Run_grandpa_voter (grandpa_config_of config)} \<subseteq> set before
    \<and> (is_authority config \<longrightarrow> Spawn aura_task \<in> set before)"
proof -
  obtain rest where steps: "run runtime_benchmarks config None = before @ Spawn grandpa_task # after @ rest"
    using execute_prefix [OF run] by auto
  then have "Spawn grandpa_task \<in> set (run runtime_benchmarks config None)" by simp
  then have enabled: "\<not> disable_grandpa config"
    by (auto simp: run_def new_full_def spawned_of_new_partial split: if_splits)
  let ?xs = "Create_runner # new_partial config
      @ [Expect_genesis_block, Add_grandpa_protocol, Build_network (network_params_of config)]
      @ (if offchain_worker_enabled config then [Run_offchain_workers (offchain_options_of config), Spawn offchain_task] else [])
      @ [Spawn_tasks, Start_network]
      @ (if is_authority config then [Slot_duration, Start_aura (aura_params_of config), Spawn aura_task] else [])
      @ [Run_grandpa_voter (grandpa_config_of config)]"
  have "?xs @ Spawn grandpa_task # [Await_exit] = before @ Spawn grandpa_task # after @ rest"
    using enabled by (simp add: run_def new_full_def flip: steps)
  then have "before = ?xs" by (rule before_unique) (auto simp: spawned_of_new_partial)
  with enabled show ?thesis by simp
qed

text \<open>
  C39: However the library calls of a start turn out, and wherever it fails: the authoring task is
  spawned only on an authority that was started without a subcommand, after the block import, the
  import queue, the network and Aura itself were set up with the configured parameters; the GRANDPA
  voter is spawned only when it is enabled, after the network and, on an authority, after the
  authoring task. The tasks spawned are the first of those that the configuration asks for, and all
  of them when the start succeeds; no subcommand spawns a task other than the telemetry's.
\<close>

theorem node_starts_as_configured:
  assumes "execute env (run runtime_benchmarks config subcommand) = (completed, r)"
  shows "(\<forall>before after. completed = before @ Spawn aura_task # after \<longrightarrow> subcommand = None \<and> is_authority config
      \<and> {Grandpa_block_import 512, Aura_import_queue, Expect_genesis_block, Start_network,
          Slot_duration, Start_aura (aura_params_of config)} \<subseteq> set before)
    \<and> (\<forall>before after. completed = before @ Spawn grandpa_task # after \<longrightarrow> subcommand = None
      \<and> \<not> disable_grandpa config \<and> {Start_network, Run_grandpa_voter (grandpa_config_of config)} \<subseteq> set before
      \<and> (is_authority config \<longrightarrow> Spawn aura_task \<in> set before))
    \<and> (subcommand = None \<longrightarrow> (\<exists>missing. spawned completed @ missing = configured_tasks config
      \<and> (r = Completed \<longrightarrow> missing = [])))
    \<and> (subcommand \<noteq> None \<longrightarrow> set (spawned completed) \<subseteq> {telemetry_task})"
proof -
  obtain rest where steps: "run runtime_benchmarks config subcommand = completed @ rest" "r = Completed \<Longrightarrow> rest = []"
    using execute_prefix [OF assms] by blast
  have only: "subcommand = None" if "Spawn task \<in> set completed" "task \<noteq> telemetry_task" for task
    using spawns_of_run [of task runtime_benchmarks config subcommand] that steps(1) by simp
  have "\<exists>missing. spawned completed @ missing = configured_tasks config \<and> (r = Completed \<longrightarrow> missing = [])"
    if "subcommand = None"
  proof -
    have "spawned (completed @ rest) = configured_tasks config"
      using that spawned_of_new_full [of config] by (simp add: run_def flip: steps(1))
    then show ?thesis using steps(2) by (intro exI [of _ "spawned rest"]) auto
  qed
  moreover have "set (spawned completed) \<subseteq> {telemetry_task}" if "subcommand \<noteq> None"
    using only that unfolding set_spawned subset_iff by blast
  moreover have "subcommand = None \<and> is_authority config \<and> {Grandpa_block_import 512, Aura_import_queue,
      Expect_genesis_block, Start_network, Slot_duration, Start_aura (aura_params_of config)} \<subseteq> set before"
    if "completed = before @ Spawn aura_task # after" for before after
    using only [of aura_task] assms before_authoring [of env runtime_benchmarks config before after r] that by simp
  moreover have "subcommand = None \<and> \<not> disable_grandpa config
      \<and> {Start_network, Run_grandpa_voter (grandpa_config_of config)} \<subseteq> set before
      \<and> (is_authority config \<longrightarrow> Spawn aura_task \<in> set before)"
    if "completed = before @ Spawn grandpa_task # after" for before after
    using only [of grandpa_task] assms before_voting [of env runtime_benchmarks config before after r] that by simp
  ultimately show ?thesis by blast
qed

text \<open>An authority whose GRANDPA voter cannot be made: by then it authors blocks.\<close>

theorem node_starts_as_configured_witness:
  "let config = \<lparr>telemetry_endpoints = Some [], is_authority = True, offchain_worker_enabled = False,
         force_authoring = False, disable_grandpa = False, node_name = ''alice'', network_backend = Libp2p\<rparr>;
       env = (\<lambda>step. if step = Run_grandpa_voter (grandpa_config_of config) then Failed ''no voter'' else Completed)
   in \<exists>before after. execute env (run False config None) = (before @ Spawn aura_task # after, Failed ''no voter'')
     \<and> {Start_network, Slot_duration} \<subseteq> set before"
proof -
  let ?config = "\<lparr>telemetry_endpoints = Some [], is_authority = True, offchain_worker_enabled = False,
         force_authoring = False, disable_grandpa = False, node_name = ''alice'', network_backend = Libp2p\<rparr>"
  let ?env = "\<lambda>step. if step = Run_grandpa_voter (grandpa_config_of ?config) then Failed ''no voter'' else Completed"
  let ?result = "execute ?env (run False ?config None)"
  have failed: "snd ?result = Failed ''no voter''" and aura: "Spawn aura_task \<in> set (fst ?result)"
    by (simp_all add: run_def new_full_def new_partial_def outcome_of_def)
  from split_list [OF aura] obtain before after where ends: "fst ?result = before @ Spawn aura_task # after" by blast
  from node_starts_as_configured [THEN conjunct1, rule_format, OF surjective_pairing ends]
  have "{Start_network, Slot_duration} \<subseteq> set before" by simp
  moreover have "?result = (before @ Spawn aura_task # after, Failed ''no voter'')"
    using failed ends by (metis prod.collapse)
  ultimately show ?thesis unfolding Let_def by blast
qed

lemma unat_push_bit_one: "k < 32 \<Longrightarrow> unat (push_bit k 1 :: u32) = 2 ^ k"
  using unat_of_nat [where 'a = 32, of "2 ^ k"] power_strict_increasing [of k 32 "2 :: nat"]
  by (simp add: push_bit_eq_mult)

lemma least_power:
  assumes "unat x \<le> 2 ^ 31"
  obtains k p where "checked_next_power_of_two x = Some p" "unat p = 2 ^ k" "k < 32" "unat x \<le> 2 ^ k"
    "\<And>j. j < k \<Longrightarrow> 2 ^ j < unat x"
proof -
  have "checked_next_power_of_two x \<noteq> None"
  proof
    assume "checked_next_power_of_two x = None"
    then have "\<forall>j \<in> {0..<32}. \<not> x \<le> push_bit j 1"
      by (simp add: checked_next_power_of_two_def find_None_iff)
    then have "\<not> x \<le> push_bit 31 1" by (rule bspec) simp
    then show False using assms by (simp add: word_le_nat_alt)
  qed
  then obtain p where "checked_next_power_of_two x = Some p" by auto
  moreover from this obtain k where "k < 32" "p = push_bit k 1" "x \<le> push_bit k 1"
      "\<And>j. j < k \<Longrightarrow> \<not> x \<le> push_bit j 1"
    by (auto simp: checked_next_power_of_two_def find_Some_iff)
  moreover from this have "unat p = 2 ^ k" "unat x \<le> 2 ^ k" "\<And>j. j < k \<Longrightarrow> 2 ^ j < unat x"
    using unat_push_bit_one less_trans by (simp_all add: word_le_nat_alt not_le)
  ultimately show ?thesis using that by blast
qed

text \<open>
  The benchmark extrinsics are mortal for a period of block hashes the chain still knows: for
  every \<open>BlockHashCount\<close> from 2 to 2^31 the period is a power of two below it and at least half of
  it; the runtime's 2400 gives 2048.
\<close>

lemma benchmark_era_within_known_hashes:
  assumes "1 < unat hashes" and "unat hashes \<le> 2 ^ 31"
  shows "\<exists>k. unat (benchmark_period hashes) = 2 ^ k \<and> 2 ^ k < unat hashes \<and> unat hashes \<le> 2 * 2 ^ k"
proof -
  obtain k p where p: "checked_next_power_of_two hashes = Some p" "unat p = 2 ^ k" "k < 32"
      "unat hashes \<le> 2 ^ k" "\<And>j. j < k \<Longrightarrow> 2 ^ j < unat hashes"
    by (rule least_power [OF assms(2)]) blast
  with assms(1) obtain j where k: "k = Suc j" by (cases k) auto
  have "unat (benchmark_period hashes) = unat (p div 2)"
    using p(1) unsigned_less [where 'a = nat and w = "p div 2"]
    by (simp add: benchmark_period_def unsigned_ucast_eq take_bit_nat_eq_self)
  also have "\<dots> = 2 ^ j" using p(2) k by (simp add: unat_div)
  finally show ?thesis using p(4) p(5) [of j] k by auto
qed

end
