(* ===== verification/Ghost_Config.thy ===== *)
theory Ghost_Config
  imports Ghost_Runtime
begin

text \<open>
  The configuration of the runtime's pallets (\<open>runtime/src/configs/mod.rs\<close>) and those runtime APIs
  that do more than hand a call on to a FRAME pallet (\<open>runtime/src/apis.rs\<close>). The limits that
  FRAME computes from the configured numbers are its own; here a configured value is the call that
  builds it. Constants and functions of FRAME are parameters.
\<close>

section \<open>The configurations\<close>

datatype Perbill = Perbill_from_percent u32

definition NORMAL_DISPATCH_RATIO :: Perbill where
  "NORMAL_DISPATCH_RATIO = Perbill_from_percent 75"

datatype BlockWeights = With_sensible_defaults Weight Perbill

datatype BlockLength = Max_with_normal_ratio u32 Perbill

text \<open>\<open>WEIGHT_REF_TIME_PER_SECOND\<close> is a constant of \<open>frame_support\<close>.\<close>

definition RuntimeBlockWeights :: "u64 \<Rightarrow> BlockWeights" where
  "RuntimeBlockWeights ref_time_per_second =
     With_sensible_defaults (Weight (2 * ref_time_per_second) (- 1)) NORMAL_DISPATCH_RATIO"

definition RuntimeBlockLength :: BlockLength where
  "RuntimeBlockLength = Max_with_normal_ratio (5 * 1024 * 1024) NORMAL_DISPATCH_RATIO"

definition SS58Prefix :: u8 where
  "SS58Prefix = 42"

text \<open>\<open>RocksDbWeight\<close> is a constant of \<open>frame_support\<close> too; there are no migrations.\<close>

record 'db SystemConfig =
  sys_BlockWeights :: BlockWeights
  sys_BlockLength :: BlockLength
  sys_BlockHashCount :: u32
  sys_DbWeight :: 'db
  sys_Version :: RuntimeVersion
  sys_SS58Prefix :: u8
  sys_MaxConsumers :: u32
  sys_SingleBlockMigrations :: unit

definition system_config :: "u64 \<Rightarrow> 'db \<Rightarrow> 'db SystemConfig" where
  "system_config ref_time_per_second rocks_db_weight = \<lparr>
     sys_BlockWeights = RuntimeBlockWeights ref_time_per_second, sys_BlockLength = RuntimeBlockLength,
     sys_BlockHashCount = BlockHashCount, sys_DbWeight = rocks_db_weight, sys_Version = VERSION,
     sys_SS58Prefix = SS58Prefix, sys_MaxConsumers = 16, sys_SingleBlockMigrations = ()\<rparr>"

text \<open>
  \<open>MinimumPeriodTimesTwo\<close> is a type of \<open>pallet_aura\<close>: a function of the timestamp pallet's
  \<open>MinimumPeriod\<close>. An empty list of disabled validators is \<open>()\<close>.
\<close>

record AuraConfig =
  aura_DisabledValidators :: "u32 list"
  aura_MaxAuthorities :: u32
  aura_AllowMultipleBlocksPerSlot :: bool
  aura_SlotDuration :: u64

definition aura_config :: "(u64 \<Rightarrow> u64) \<Rightarrow> AuraConfig" where
  "aura_config minimum_period_times_two = \<lparr>
     aura_DisabledValidators = [], aura_MaxAuthorities = 32, aura_AllowMultipleBlocksPerSlot = False,
     aura_SlotDuration = minimum_period_times_two MinimumPeriod\<rparr>"

text \<open>\<open>KeyOwnerProof\<close> is the empty type and \<open>EquivocationReportSystem\<close> is \<open>()\<close>: nothing is reported.\<close>

record GrandpaConfig =
  grandpa_MaxAuthorities :: u32
  grandpa_MaxNominators :: u32
  grandpa_MaxSetIdSessionEntries :: u64

definition grandpa_config :: GrandpaConfig where
  "grandpa_config = \<lparr>grandpa_MaxAuthorities = 32, grandpa_MaxNominators = 0,
     grandpa_MaxSetIdSessionEntries = 0\<rparr>"

text \<open>Without reserves; \<open>freeze_reasons\<close> is the number of variants of the generated \<open>RuntimeFreezeReason\<close>.\<close>

record BalancesConfig =
  bal_MaxLocks :: u32
  bal_MaxReserves :: "u32 option"
  bal_ExistentialDeposit :: u128
  bal_MaxFreezes :: u32

definition balances_config :: "u32 \<Rightarrow> BalancesConfig" where
  "balances_config freeze_reasons = \<lparr>bal_MaxLocks = 50, bal_MaxReserves = None,
     bal_ExistentialDeposit = EXISTENTIAL_DEPOSIT, bal_MaxFreezes = freeze_reasons\<rparr>"

text \<open>Fees: weight and length cost what they measure, times the constant multiplier one.\<close>

datatype WeightToFee = IdentityFee

record TransactionPaymentConfig =
  pay_OperationalFeeMultiplier :: u8
  pay_WeightToFee :: WeightToFee
  pay_LengthToFee :: WeightToFee
  pay_FeeMultiplier :: nat

definition transaction_payment_config :: TransactionPaymentConfig where
  "transaction_payment_config = \<lparr>pay_OperationalFeeMultiplier = 5, pay_WeightToFee = IdentityFee,
     pay_LengthToFee = IdentityFee, pay_FeeMultiplier = 1\<rparr>"

section \<open>Keys and versions\<close>

text \<open>\<open>SessionKeys\<close> holds one key for each pallet with authorities.\<close>

record SessionKeys =
  sk_aura :: AuraId
  sk_grandpa :: GrandpaId

text \<open>A native runtime may author for no other version than its own.\<close>

record NativeVersion =
  nv_runtime_version :: RuntimeVersion
  nv_can_author_with :: "u32 set"

definition native_version :: NativeVersion where
  "native_version = \<lparr>nv_runtime_version = VERSION, nv_can_author_with = {}\<rparr>"

section \<open>Runtime APIs\<close>

definition Core_version :: RuntimeVersion where
  "Core_version = VERSION"

text \<open>A \<open>SlotDuration\<close> is its milliseconds.\<close>

definition AuraApi_slot_duration :: "(u64 \<Rightarrow> u64) \<Rightarrow> u64" where
  "AuraApi_slot_duration minimum_period_times_two = aura_SlotDuration (aura_config minimum_period_times_two)"

definition submit_report_equivocation_unsigned_extrinsic :: "'equivocation \<Rightarrow> 'key_owner \<Rightarrow> unit option" where
  "submit_report_equivocation_unsigned_extrinsic equivocation_proof key_owner_proof = None"

definition generate_key_ownership_proof :: "u64 \<Rightarrow> GrandpaId \<Rightarrow> 'proof option" where
  "generate_key_ownership_proof set_id authority_id = None"

text \<open>
  The genesis builder: \<open>helper\<close> is \<open>frame_support\<close>'s \<open>get_preset\<close>, which is given the lookup of the
  presets file (a panic there is a panic here), and \<open>build\<close> its \<open>build_state\<close>.
\<close>

definition GenesisBuilder_get_preset ::
  "(string option \<Rightarrow> (string \<Rightarrow> bytes option option) \<Rightarrow> bytes option option) \<Rightarrow> (Genesis \<Rightarrow> 'e + bytes)
    \<Rightarrow> string option \<Rightarrow> bytes option option" where
  "GenesisBuilder_get_preset helper to_string preset_id = helper preset_id (get_preset to_string)"

definition GenesisBuilder_build_state :: "(bytes \<Rightarrow> string + unit) \<Rightarrow> bytes \<Rightarrow> string + unit" where
  "GenesisBuilder_build_state build json = build json"

definition GenesisBuilder_preset_names :: "string list" where
  "GenesisBuilder_preset_names = preset_names"

section \<open>Properties\<close>

text \<open>What Aura and GRANDPA can hold, beside what the other pallets ask.\<close>

definition genesis_fits :: "Genesis \<Rightarrow> bool" where
  "genesis_fits g \<longleftrightarrow> genesis_sound g
     \<and> length (genesis_aura g) \<le> unat (aura_MaxAuthorities (aura_config id))
     \<and> length (genesis_grandpa g) \<le> unat (grandpa_MaxAuthorities grandpa_config)"

text \<open>
  Every preset name the runtime lists leads to a genesis state: its preset is served, no account
  in it is endowed twice or below the existential deposit, the authorities are distinct and within
  the configured bounds, sudo is endowed, and the state builder accepts it.
\<close>

lemma listed_presets_build:
  assumes helper: "\<forall>f preset_id. helper (Some preset_id) f = f preset_id"
    and written: "\<forall>g. \<exists>json. to_string g = Inr json"
    and accepts: "\<forall>g json. genesis_fits g \<longrightarrow> to_string g = Inr json \<longrightarrow> build json = Inr ()"
  shows "\<forall>preset_id \<in> set GenesisBuilder_preset_names. \<exists>g json.
    GenesisBuilder_get_preset helper to_string (Some preset_id) = Some (Some json)
    \<and> to_string g = Inr json \<and> genesis_fits g \<and> GenesisBuilder_build_state build json = Inr ()"
proof
  fix preset_id assume listed: "preset_id \<in> set GenesisBuilder_preset_names"
  define g where "g = (if preset_id = ''dev'' then development_config_genesis else local_config_genesis)"
  have lookup: "get_preset to_string preset_id = (case to_string g of Inl _ \<Rightarrow> None | Inr json \<Rightarrow> Some (Some json))"
    using listed by (auto simp: g_def GenesisBuilder_preset_names_def preset_names_def get_preset_def Let_def)
  have "genesis_fits g"
    using presets_sound
    by (simp add: g_def genesis_fits_def aura_config_def grandpa_config_def)
      (simp add: development_config_genesis_def local_config_genesis_def testnet_genesis_def)
  moreover obtain json where "to_string g = Inr json" using written by blast
  ultimately show "\<exists>g json. GenesisBuilder_get_preset helper to_string (Some preset_id) = Some (Some json)
    \<and> to_string g = Inr json \<and> genesis_fits g \<and> GenesisBuilder_build_state build json = Inr ()"
    using helper accepts lookup
    by (auto simp: GenesisBuilder_get_preset_def GenesisBuilder_build_state_def)
qed

end
