(* ===== verification/Ghost_Reports.thy ===== *)
theory Ghost_Reports
  imports Ghost_Node Ghost_Config
begin

text \<open>
  What the node's \<open>ghost status\<close> subcommand tells the user, compared with the configuration of the
  runtime it talks about, and what \<open>ghost balance\<close> and \<open>ghost validators\<close> say of the genesis state.
\<close>

section \<open>The reports and the runtime\<close>

text \<open>
  \<open>ghost status --detailed\<close> tells the truth about the runtime: the block time, the block reward
  and its split, the minimum stake, the slash percentages and the allowed downtime that it prints
  are those the runtime is configured with and computes with, under either build profile.
\<close>

lemma status_reports_the_runtime:
  "\<exists>s d r. handle_ghost_command started (Status True) = StatusReport s (Some d)
    \<and> sm_block_time_seconds s * 1000 = unat MILLI_SECS_PER_BLOCK
    \<and> sm_block_reward_tokens s * unat UNIT = unat (cfg_BlockReward runtime_config)
    \<and> calculate_block_reward chk (cfg_BlockReward runtime_config) = Some r
    \<and> 100 * unat (br_miner_reward r) = sm_miner_percent s * unat (cfg_BlockReward runtime_config)
    \<and> 100 * unat (br_stakers_reward r) = sm_stakers_percent s * unat (cfg_BlockReward runtime_config)
    \<and> sd_minimum_stake_tokens d * unat UNIT = unat (cfg_MinStake runtime_config)
    \<and> map (\<lambda>(reason, _). unat (slash_percentage runtime_config reason)) (sd_slash_percentages d)
      = map snd (sd_slash_percentages d)
    \<and> sd_downtime_blocks d = unat (cfg_MaxDowntimeBlocks runtime_config)"
proof -
  have "calculate_block_reward chk (cfg_BlockReward runtime_config)
    = Some \<lparr>br_total = 10000000000000, br_miner_reward = 4000000000000, br_stakers_reward = 6000000000000\<rparr>"
    by (subst calculate_block_reward_eq) (simp_all add: runtime_config_def)
  then show ?thesis
    by (simp add: handle_ghost_command_def status_summary_def status_details_def MILLI_SECS_PER_BLOCK_def
        UNIT_def runtime_config_def slash_percentage_def)
qed

text \<open>
  The presets endow Alice with 2^60 units, 1152921 whole tokens, where \<open>ghost balance\<close> reports 100;
  and \<open>ghost validators\<close> lists Bob, who is no authority of the development preset.
\<close>

lemma reports_differ_from_presets:
  "map_of (genesis_balances development_config_genesis) (account ALICE_SR25519) = Some (2 ^ 60)
    \<and> unat (2 ^ 60 :: u128) div unat UNIT = 1152921
    \<and> (\<exists>accts. handle_ghost_command started (Balance None) = BalanceReport (Inr accts)
        \<and> map_of accts ''Alice'' = Some (''5GrwvaEF5zXb26Fz9rcQpDWS57CtERHpNehXCPcNoHGKutQY'', 100))
    \<and> ''Bob'' \<in> fst ` set default_validators \<and> genesis_aura development_config_genesis = [aura ALICE_SR25519]"
  using distinct_sr25519
  by (simp add: handle_ghost_command_def default_accounts_def default_validators_def
      development_config_genesis_def testnet_genesis_def UNIT_def account_def)

end
