(* ===== verification/Ghost_Api.thy ===== *)
theory Ghost_Api
  imports Ghost_Config
begin

text \<open>
  The runtime APIs of \<open>runtime/src/apis.rs\<close> that hand a request on: for each trait its methods, as the
  requests a node can make, and the function of FRAME that answers each, with the arguments it
  is given. The answers are FRAME's and a parameter; the APIs that compute something themselves
  are in \<open>Ghost_Config\<close>. Also the benchmarks that \<open>benchmarks.rs\<close> lists.
\<close>

section \<open>What is called\<close>

datatype ('block, 'header, 'xt, 'hash, 'source, 'inherents, 'call) FrameCall =
    Executive_execute_block 'block
  | Executive_initialize_block 'header
  | Executive_apply_extrinsic 'xt
  | Executive_finalize_block
  | Executive_validate_transaction 'source 'xt 'hash
  | Executive_offchain_worker 'header
  | Runtime_metadata
  | Runtime_metadata_at_version u32
  | Runtime_metadata_versions
  | Inherents_create_extrinsics 'inherents
  | Inherents_check_extrinsics 'inherents 'block
  | Aura_slot_duration
  | Aura_Authorities_get
  | SessionKeys_generate "bytes option"
  | SessionKeys_decode_into_raw_public_keys bytes
  | Grandpa_grandpa_authorities
  | Grandpa_current_set_id
  | System_account_nonce AccountId
  | TransactionPayment_query_info 'xt u32
  | TransactionPayment_query_fee_details 'xt u32
  | TransactionPayment_query_call_info 'call u32
  | TransactionPayment_query_call_fee_details 'call u32
  | TransactionPayment_weight_to_fee Weight
  | TransactionPayment_length_to_fee u32

text \<open>An API method answers by itself, or hands the request on.\<close>

datatype ('answer, 'call) Handled = Answer 'answer | Hand_on 'call

section \<open>The traits\<close>

datatype ('block, 'header) CoreApi = Core_version_request | Execute_block 'block | Initialize_block 'header

definition core_api :: "('block, 'header) CoreApi
    \<Rightarrow> (RuntimeVersion, ('block, 'header, 'xt, 'hash, 'source, 'inherents, 'call) FrameCall) Handled" where
  "core_api request = (case request of
       Core_version_request \<Rightarrow> Answer Core_version
     | Execute_block block \<Rightarrow> Hand_on (Executive_execute_block block)
     | Initialize_block header \<Rightarrow> Hand_on (Executive_initialize_block header))"

datatype MetadataApi = Metadata | Metadata_at_version u32 | Metadata_versions

definition metadata_api :: "MetadataApi
    \<Rightarrow> ('block, 'header, 'xt, 'hash, 'source, 'inherents, 'call) FrameCall" where
  "metadata_api request = (case request of
       Metadata \<Rightarrow> Runtime_metadata
     | Metadata_at_version version \<Rightarrow> Runtime_metadata_at_version version
     | Metadata_versions \<Rightarrow> Runtime_metadata_versions)"

datatype ('block, 'xt, 'inherents) BlockBuilderApi =
    Apply_extrinsic 'xt | Finalize_block | Inherent_extrinsics 'inherents | Check_inherents 'block 'inherents

definition block_builder_api :: "('block, 'xt, 'inherents) BlockBuilderApi
    \<Rightarrow> ('block, 'header, 'xt, 'hash, 'source, 'inherents, 'call) FrameCall" where
  "block_builder_api request = (case request of
       Apply_extrinsic extrinsic \<Rightarrow> Executive_apply_extrinsic extrinsic
     | Finalize_block \<Rightarrow> Executive_finalize_block
     | Inherent_extrinsics data \<Rightarrow> Inherents_create_extrinsics data
     | Check_inherents block data \<Rightarrow> Inherents_check_extrinsics data block)"

datatype ('xt, 'hash, 'source) TaggedTransactionQueueApi = Validate_transaction 'source 'xt 'hash

definition tagged_transaction_queue_api :: "('xt, 'hash, 'source) TaggedTransactionQueueApi
    \<Rightarrow> ('block, 'header, 'xt, 'hash, 'source, 'inherents, 'call) FrameCall" where
  "tagged_transaction_queue_api request = (case request of
       Validate_transaction source tx block_hash \<Rightarrow> Executive_validate_transaction source tx block_hash)"

datatype 'header OffchainWorkerApi = Offchain_worker 'header

definition offchain_worker_api :: "'header OffchainWorkerApi
    \<Rightarrow> ('block, 'header, 'xt, 'hash, 'source, 'inherents, 'call) FrameCall" where
  "offchain_worker_api request = (case request of Offchain_worker header \<Rightarrow> Executive_offchain_worker header)"

text \<open>The slot duration is wrapped into a \<open>SlotDuration\<close>, the bounded vector of authorities unwrapped.\<close>

datatype AuraApi = Slot_duration_request | Authorities

definition aura_api :: "AuraApi \<Rightarrow> ('block, 'header, 'xt, 'hash, 'source, 'inherents, 'call) FrameCall" where
  "aura_api request = (case request of
       Slot_duration_request \<Rightarrow> Aura_slot_duration
     | Authorities \<Rightarrow> Aura_Authorities_get)"

datatype SessionKeysApi = Generate_session_keys "bytes option" | Decode_session_keys bytes

definition session_keys_api :: "SessionKeysApi
    \<Rightarrow> ('block, 'header, 'xt, 'hash, 'source, 'inherents, 'call) FrameCall" where
  "session_keys_api request = (case request of
       Generate_session_keys seed \<Rightarrow> SessionKeys_generate seed
     | Decode_session_keys encoded \<Rightarrow> SessionKeys_decode_into_raw_public_keys encoded)"

text \<open>The two equivocation methods answer \<open>None\<close> whatever they are given.\<close>

datatype ('equivocation, 'key_owner) GrandpaApi =
    Grandpa_authorities_request
  | Current_set_id
  | Submit_report_equivocation 'equivocation 'key_owner
  | Generate_key_ownership_proof u64 GrandpaId

definition grandpa_api :: "('equivocation, 'key_owner) GrandpaApi
    \<Rightarrow> (unit option, ('block, 'header, 'xt, 'hash, 'source, 'inherents, 'call) FrameCall) Handled" where
  "grandpa_api request = (case request of
       Grandpa_authorities_request \<Rightarrow> Hand_on Grandpa_grandpa_authorities
     | Current_set_id \<Rightarrow> Hand_on Grandpa_current_set_id
     | Submit_report_equivocation proof key_owner \<Rightarrow>
         Answer (submit_report_equivocation_unsigned_extrinsic proof key_owner)
     | Generate_key_ownership_proof set_id authority_id \<Rightarrow>
         Answer (generate_key_ownership_proof set_id authority_id))"

datatype AccountNonceApi = Account_nonce AccountId

definition account_nonce_api :: "AccountNonceApi
    \<Rightarrow> ('block, 'header, 'xt, 'hash, 'source, 'inherents, 'call) FrameCall" where
  "account_nonce_api request = (case request of Account_nonce who \<Rightarrow> System_account_nonce who)"

datatype 'xt TransactionPaymentApi =
    Query_info 'xt u32 | Query_fee_details 'xt u32 | Query_weight_to_fee Weight | Query_length_to_fee u32

definition transaction_payment_api :: "'xt TransactionPaymentApi
    \<Rightarrow> ('block, 'header, 'xt, 'hash, 'source, 'inherents, 'call) FrameCall" where
  "transaction_payment_api request = (case request of
       Query_info uxt len \<Rightarrow> TransactionPayment_query_info uxt len
     | Query_fee_details uxt len \<Rightarrow> TransactionPayment_query_fee_details uxt len
     | Query_weight_to_fee weight \<Rightarrow> TransactionPayment_weight_to_fee weight
     | Query_length_to_fee len \<Rightarrow> TransactionPayment_length_to_fee len)"

datatype 'call TransactionPaymentCallApi =
    Query_call_info 'call u32 | Query_call_fee_details 'call u32
  | Call_query_weight_to_fee Weight | Call_query_length_to_fee u32

definition transaction_payment_call_api :: "'call TransactionPaymentCallApi
    \<Rightarrow> ('block, 'header, 'xt, 'hash, 'source, 'inherents, 'call) FrameCall" where
  "transaction_payment_call_api request = (case request of
       Query_call_info call len \<Rightarrow> TransactionPayment_query_call_info call len
     | Query_call_fee_details call len \<Rightarrow> TransactionPayment_query_call_fee_details call len
     | Call_query_weight_to_fee weight \<Rightarrow> TransactionPayment_weight_to_fee weight
     | Call_query_length_to_fee len \<Rightarrow> TransactionPayment_length_to_fee len)"

text \<open>
  Only with the feature \<open>try-runtime\<close>. The results are unwrapped: what FRAME reports as an error
  (\<^const>\<open>Inl\<close>) is a panic (\<^const>\<open>None\<close>). A set of checks and a selection of state are FRAME's values.
\<close>

definition unwrap :: "'err + 'a \<Rightarrow> 'a option" where
  "unwrap r = (case r of Inl _ \<Rightarrow> None | Inr x \<Rightarrow> Some x)"

definition try_on_runtime_upgrade :: "('checks \<Rightarrow> 'err + Weight) \<Rightarrow> (BlockWeights \<Rightarrow> Weight) \<Rightarrow> u64
    \<Rightarrow> 'checks \<Rightarrow> (Weight \<times> Weight) option" where
  "try_on_runtime_upgrade try_runtime_upgrade max_block ref_time_per_second checks =
     do {
       weight \<leftarrow> unwrap (try_runtime_upgrade checks);
       Some (weight, max_block (RuntimeBlockWeights ref_time_per_second))
     }"

definition try_execute_block :: "('block \<Rightarrow> bool \<Rightarrow> bool \<Rightarrow> 'select \<Rightarrow> 'err + Weight)
    \<Rightarrow> 'block \<Rightarrow> bool \<Rightarrow> bool \<Rightarrow> 'select \<Rightarrow> Weight option" where
  "try_execute_block executive block state_root_check signature_check select =
     unwrap (executive block state_root_check signature_check select)"

section \<open>The benchmarks\<close>

datatype Benchmarked = BaselineBench | SystemBench | SystemExtensionsBench | PalletBench Pallet

definition benchmarks :: "(string \<times> Benchmarked) list" where
  "benchmarks = [(''frame_benchmarking'', BaselineBench), (''frame_system'', SystemBench),
     (''frame_system_extensions'', SystemExtensionsBench), (''pallet_balances'', PalletBench Balances),
     (''pallet_timestamp'', PalletBench Timestamp), (''pallet_sudo'', PalletBench Sudo),
     (''pallet_template'', PalletBench Template)]"

end
