(* ===== verification/Template_Pallet.thy ===== *)
theory Template_Pallet
  imports Ghost_Hooks
begin

text \<open>
  The second pallet of the runtime, after \<open>pallets/template/src/lib.rs\<close> and \<open>weights.rs\<close>: one
  optional \<open>u32\<close>, a call that stores it and a call that increments it and fails on overflow. The
  database weights and the addition of weights belong to FRAME and are parameters.
\<close>

section \<open>Definitions\<close>

datatype TemplateError = NoneValue | StorageOverflow

datatype TemplateDispatchError = TemplateBadOrigin | TemplateModule TemplateError

datatype 'acc TemplateEvent = SomethingStored u32 'acc

record 'acc TemplateStorage =
  Something :: "u32 option"
  template_events :: "'acc TemplateEvent list"
  template_block_number :: u32

definition template_deposit_event :: "'acc TemplateEvent \<Rightarrow> 'acc TemplateStorage \<Rightarrow> 'acc TemplateStorage" where
  "template_deposit_event ev st =
     (if template_block_number st = 0 then st else st\<lparr>template_events := template_events st @ [ev]\<rparr>)"

definition do_something ::
  "'acc RawOrigin \<Rightarrow> u32 \<Rightarrow> 'acc TemplateStorage \<Rightarrow> (TemplateDispatchError + unit) \<times> 'acc TemplateStorage"
  where
  "do_something origin something st =
     (case ensure_signed origin of Inl e \<Rightarrow> (Inl TemplateBadOrigin, st) | Inr who \<Rightarrow>
      let st = st\<lparr>Something := Some something\<rparr>;
          st = template_deposit_event (SomethingStored something who) st
      in (Inr (), st))"

definition cause_error ::
  "'acc RawOrigin \<Rightarrow> 'acc TemplateStorage \<Rightarrow> (TemplateDispatchError + unit) \<times> 'acc TemplateStorage" where
  "cause_error origin st =
     (case ensure_signed origin of Inl e \<Rightarrow> (Inl TemplateBadOrigin, st) | Inr _ \<Rightarrow>
      case Something st of
        None \<Rightarrow> (Inl (TemplateModule NoneValue), st)
      | Some old \<Rightarrow>
        (case checked_add old 1 of
           None \<Rightarrow> (Inl (TemplateModule StorageOverflow), st)
         | Some new \<Rightarrow> (Inr (), st\<lparr>Something := Some new\<rparr>)))"

text \<open>\<open>SubstrateWeight\<close> and the implementation for \<open>()\<close> differ in the database weights they take.\<close>

definition do_something_weight :: "(Weight \<Rightarrow> Weight \<Rightarrow> Weight) \<Rightarrow> (u64 \<Rightarrow> Weight) \<Rightarrow> Weight" where
  "do_something_weight weight_add db_writes = weight_add (Weight 9000000 0) (db_writes 1)"

definition cause_error_weight ::
  "(Weight \<Rightarrow> Weight \<Rightarrow> Weight) \<Rightarrow> (u64 \<Rightarrow> Weight) \<Rightarrow> (u64 \<Rightarrow> Weight) \<Rightarrow> Weight" where
  "cause_error_weight weight_add db_reads db_writes =
     weight_add (weight_add (Weight 6000000 1489) (db_reads 1)) (db_writes 1)"

definition unit_do_something_weight :: "(Weight \<Rightarrow> Weight \<Rightarrow> Weight) \<Rightarrow> (u64 \<Rightarrow> Weight) \<Rightarrow> Weight" where
  "unit_do_something_weight weight_add rocksdb_writes = weight_add (Weight 9000000 0) (rocksdb_writes 1)"

definition unit_cause_error_weight ::
  "(Weight \<Rightarrow> Weight \<Rightarrow> Weight) \<Rightarrow> (u64 \<Rightarrow> Weight) \<Rightarrow> (u64 \<Rightarrow> Weight) \<Rightarrow> Weight" where
  "unit_cause_error_weight weight_add rocksdb_reads rocksdb_writes =
     weight_add (weight_add (Weight 6000000 1489) (rocksdb_reads 1)) (rocksdb_writes 1)"

section \<open>The tests\<close>

text \<open>\<open>new_test_ext\<close>: the genesis storage of the test runtime. Both tests of the pallet, replayed.\<close>

definition new_test_ext :: "'acc TemplateStorage" where
  "new_test_ext = \<lparr>Something = None, template_events = [], template_block_number = 0\<rparr>"

lemma it_works_for_default_value:
  "\<exists>st. do_something (Signed (1 :: u64)) 42 (new_test_ext\<lparr>template_block_number := 1\<rparr>) = (Inr (), st)
    \<and> Something st = Some 42 \<and> last (template_events st) = SomethingStored 42 1"
  by (simp add: do_something_def new_test_ext_def template_deposit_event_def ensure_signed_def Let_def)

lemma correct_error_for_none_value:
  "cause_error (Signed (1 :: u64)) new_test_ext = (Inl (TemplateModule NoneValue), new_test_ext)"
  by (simp add: cause_error_def new_test_ext_def ensure_signed_def)

section \<open>Repeated increments\<close>

primrec increments :: "nat \<Rightarrow> 'acc \<Rightarrow> 'acc TemplateStorage \<Rightarrow> nat \<times> 'acc TemplateStorage" where
  "increments 0 who st = (0, st)"
| "increments (Suc k) who st =
     (let (r, st) = cause_error (Signed who) st; (n, st) = increments k who st
      in (if r = Inr () then Suc n else n, st))"

lemma cause_error_at:
  assumes "Something st = Some v"
  shows "cause_error (Signed who) st =
    (if unat v = 2 ^ 32 - 1 then (Inl (TemplateModule StorageOverflow), st)
     else (Inr (), st\<lparr>Something := Some (v + 1)\<rparr>))"
  using assms unat_bound [of v] by (auto simp: cause_error_def ensure_signed_def checked_add_def)

text \<open>
  C40: The template's counter never wraps: starting from a stored value, of any number of
  increments exactly those succeed that stay within \<open>u32\<close>, the others fail with
  \<open>StorageOverflow\<close> and change nothing, so the value ends at the sum or at the maximum.
\<close>

theorem template_counter_saturates:
  assumes "Something st = Some v"
  shows "\<exists>st'. increments k who st = (min k (2 ^ 32 - 1 - unat v), st')
    \<and> map_option unat (Something st') = Some (min (2 ^ 32 - 1) (unat v + k))
    \<and> template_events st' = template_events st"
  using assms
proof (induction k arbitrary: st v)
  case 0
  then show ?case using unat_bound [of v] by simp
next
  case (Suc k)
  show ?case
  proof (cases "unat v = 2 ^ 32 - 1")
    case True
    then show ?thesis using Suc.IH [OF Suc.prems] by (auto simp: cause_error_at [OF Suc.prems])
  next
    case False
    then have less: "unat v < 2 ^ 32 - 1" using unat_bound [of v] by simp
    then have v1: "unat (v + 1) = unat v + 1" using unat_add_fits [of v 1] by simp
    have "Something (st\<lparr>Something := Some (v + 1)\<rparr>) = Some (v + 1)" by simp
    from Suc.IH [OF this] show ?thesis
      using less v1 False by (auto simp: cause_error_at [OF Suc.prems] min_def)
  qed
qed

theorem template_counter_saturates_witness:
  "\<exists>st'. increments 5 (7 :: nat) \<lparr>Something = Some 4294967293, template_events = [], template_block_number = 1\<rparr>
      = (2, st') \<and> map_option unat (Something st') = Some 4294967295"
  using template_counter_saturates
    [of "\<lparr>Something = Some 4294967293, template_events = [], template_block_number = 1\<rparr>" 4294967293 5 "7 :: nat"]
  by auto

end
