(* ===== verification/Spec2Isabelle.thy ===== *)
theory Spec2Isabelle
  imports Ghost_Supply Ghost_Bank Ghost_Links Ghost_Producers Ghost_Pqc Ghost_Mock Ghost_Schedule Ghost_Service
    Ghost_Reports Ghost_Api Template_Pallet
begin

text \<open>
  A model of the Ghost blockchain node in Isabelle/HOL. Ghost is a Substrate chain whose runtime
  contains \<open>pallet-ghost-consensus\<close>, a hybrid of proof of work and proof of stake: blocks are mined,
  then signed by a validator that a stake lottery elects, then rewarded. The live chain authors with
  Aura and finalises with GRANDPA; the pallet keeps its own chain of headers next to it.

  \<^bold>\<open>Parts and how they interact.\<close> A miner submits a header with \<open>submit_block\<close>; the pallet checks it
  against its stored parent and its difficulty (\<open>functions.rs\<close>), and moves from the phase PowMining to
  PosValidation. \<open>validate_block\<close> collects the stakers, elects one from a seed, accepts only that
  one's call, signs the stored header, splits the block reward among miner and stakers through
  \<open>pallet_balances\<close>, and moves to Finalization. \<open>on_finalize\<close> returns to PowMining. Around this,
  \<open>stake\<close> and \<open>unstake\<close> move tokens to and from an escrow account, \<open>report_misbehavior\<close> and the
  downtime check of \<open>on_initialize\<close> slash stakes, and every 100 blocks \<open>on_initialize\<close> computes the
  entropy of the recent producers and retargets the difficulty. The node adds a multi-threaded
  demonstration miner, chain specifications and subcommands; the runtime sets the pallet's constants
  and the genesis presets.

  \<^bold>\<open>Theories.\<close> In the order of their imports:

  \<^item> \<open>Ghost_Prelude\<close>: the arithmetic of Rust's integers (checked, wrapping, saturating) on words of
    their width, loops whose body may panic, the first 64 bits of a hash, sums over finite maps, and the
    contracts \<open>invariant_system\<close>, \<open>refinement\<close> and \<open>refined_invariant\<close>.
  \<^item> \<open>Ghost_Types\<close>: \<open>types.rs\<close>, the pallet's events, errors and configuration, the two
    configurations in the repository, and the record \<open>Externals\<close> of everything that is called in other
    crates.
  \<^item> \<open>Ghost_Currency\<close>: the laws of \<open>pallet_balances\<close> the pallet relies on (the locales
    \<open>balances_pallet\<close> and \<open>escrow_pallet\<close>), and an account ledger that satisfies them.
  \<^item> \<open>Ghost_Pow\<close>, \<open>Ghost_Difficulty\<close>, \<open>Ghost_Entropy\<close>, \<open>Ghost_Selection\<close>, \<open>Ghost_Rewards\<close>: the
    functions of \<open>functions.rs\<close> and the mining worker of \<open>consensus.rs\<close>, each with its functional
    behaviour on every branch and its numeric bounds. The four proof-of-work checks are instances of one
    contract (\<open>pow_scheme\<close>): a score of the hashed fields compared with a target. \<open>Ghost_Shannon\<close>
    compares the fixed-point entropy with the real-valued Shannon entropy.
  \<^item> \<open>Ghost_Pallet\<close>, \<open>Ghost_Hooks\<close>: the storage of \<open>lib.rs\<close>, its six dispatchables, its helpers and
    its two hooks. A dispatchable maps a storage to the result and the storage it leaves.
  \<^item> \<open>Ghost_Chain\<close>: the pallet as a state machine (\<open>chain_step\<close>): dispatch with FRAME's rollback, the
    hooks, and arbitrary changes of balances by other pallets. One equivalence per call says when it
    succeeds and what it does (\<open>call_ok\<close>); four invariants of all runs and the refinement of a
    three-phase protocol are interpretations of the contracts of \<open>Ghost_Prelude\<close>, as are the
    invariants of the theories that follow.
  \<^item> \<open>Ghost_Safety\<close>, \<open>Ghost_Solvency\<close>, \<open>Ghost_Issuance\<close>, \<open>Ghost_Links\<close>: the guarantees of the pallet
    over runs and blocks, the election of a validator, the error behaviour of every call, the
    coverage of stakes by the escrow account, how many tokens a call can create, and when the hash
    links of the stored chain survive and fix its history. \<open>Ghost_Supply\<close>: blocks as wholes, and the
    growth of the supply over any number of them. \<open>Ghost_Bank\<close>: the staking calls as the
    implementation of a bank on natural numbers, a second refinement. \<open>Ghost_Downtime\<close>: empty blocks,
    and what the downtime check does to a validator in them. \<open>Ghost_Growth\<close>: runs in which every
    block of the runtime holds a mined and validated block of the pallet. \<open>Ghost_Target\<close>,
    \<open>Ghost_Producers\<close>: how fast the target falls while few accounts produce the blocks, and how few
    are too few. \<open>Ghost_Pqc\<close>: what the post-quantum signature protects.
  \<^item> \<open>Ghost_Mock\<close>: the test runtime of \<open>mock.rs\<close>, and its longest test replayed on the model.
  \<^item> \<open>Ghost_Miner\<close>: \<open>node/src/miner.rs\<close>, its threads interleaved one atomic operation at a time;
    \<open>Ghost_Schedule\<close>: what they find under a scheduler.
  \<^item> \<open>Ghost_Runtime\<close>, \<open>Ghost_Config\<close>, \<open>Ghost_Api\<close>: the constants and genesis presets of \<open>runtime/src\<close>,
    the values of the configurations in \<open>configs/mod.rs\<close>, the runtime APIs of \<open>apis.rs\<close> that do
    something themselves, and the FRAME function each other one hands its request to.
  \<^item> \<open>Ghost_Node\<close>, \<open>Ghost_Reports\<close>: the RPC server, the chain specifications, the \<open>ghost\<close> subcommands
    and the engine stubs of \<open>consensus.rs\<close>; what \<open>ghost status\<close> prints, compared with the runtime.
  \<^item> \<open>Ghost_Service\<close>: \<open>node/src/service.rs\<close> and the choice of a subcommand in \<open>command.rs\<close> as lists of
    library calls, run until one fails; the benchmark extrinsics of \<open>benchmarking.rs\<close>, the node's
    status methods of \<open>node/src/rpc.rs\<close>, and the constants of \<open>primitives/ghost-pow\<close>.
  \<^item> \<open>Template_Pallet\<close>: the runtime's second pallet, \<open>pallets/template/src\<close>.

  \<^bold>\<open>Conventions.\<close> \<open>u8\<close>, \<open>u32\<close>, \<open>u64\<close> and \<open>u128\<close> are words of that width and \<open>H256\<close> a word of 256 bits. A
  panic is \<^const>\<open>None\<close>. Whether an overflow panics or wraps around is a parameter
  (\<open>ext_overflow_checks\<close>), since the build profiles differ in it; theorems that do not mention it hold
  for both. A dispatchable that returns early leaves the writes it has made; \<open>dispatch\<close> discards them,
  as FRAME does. Maps with a default value are partial maps read through \<open>or_default\<close>. The order
  in which a storage map is iterated is a parameter of which only \<open>lists_keys\<close> is assumed, namely that
  it lists every key once.

  \<^bold>\<open>Parameters.\<close> Hash functions, the Dilithium verifier and its parsers, the SCALE encoding that is
  hashed, the account of a pallet id, the balances pallet, the runtime API behind the RPC server, the
  JSON of a genesis preset, the reading of a chain specification from a file, the outcome of each
  library call of the node's start, the merging of RPC modules, and FRAME's genesis builder and weight
  constants are code of other crates. They are
  arguments of the definitions. \<open>sample_externals\<close> is an instance on which the theorems are applied.

  \<^bold>\<open>Bounds.\<close> No theorem rests on fuel: every loop of the program is a recursion over a list or a
  counter. The worker's search \<open>mine_loop\<close> runs over the 1_000_000 nonces the source allows. The
  miner's threads may run for ever; \<open>scheduled_miner_finds\<close> bounds the turns they need to find a
  nonce that exists, and \<open>halting_threads_join\<close> the operations that each makes once one is found or
  the miner is stopped. The election adds 64-bit weights: the sum of all stakes must stay below 2^64, which
  \<open>election_safe_for_53_days\<close> shows for stakes from the genesis endowments and 53 days of rewards.
  The rewards need stakes below 2^85 for the runtime's block reward, and a sum of stakes below 2^128
  in general. Block numbers are \<open>u32\<close>; the chain has no step beyond the greatest one, and
  \<open>chain_can_grow\<close> reaches every number below it as long as proofs of work are found.

  \<^bold>\<open>What the theorems show.\<close> The protocol of three phases is followed in every run, only the
  search for a proof of work can keep the chain from growing, exactly one account can validate a block,
  mined headers keep their proof of work, stakes are kept as a bank keeps them, are covered and can be
  withdrawn, the supply grows by one reward per block at most, the miner finds what there is to find,
  hooks do not panic. Some theorems state what
  the code does where that is not what its documentation says: no block can ever be submitted from
  the genesis state, targets never rise and fall to 1 while at most 14 accounts produce
  the blocks, old blocks can be validated again or replaced, anybody can
  slash anybody, the escrow account can lose its balance when it holds no existential deposit, one
  absence is slashed over and over and even an active validator can be, signatures are good for any
  header with the same number, and requiring them halts a runtime that is built without \<open>std\<close>.

  \<^bold>\<open>Not modelled.\<close> The runtime's \<open>pallet_sudo\<close> can write any storage and sign for any account; its
  steps are outside \<open>chain_step\<close>, and the theorems about runs are about runs without them. The
  miner's number of threads, a \<open>usize\<close>, is taken as a \<open>u64\<close>. What FRAME's Executive and pallets answer to the requests that
  \<open>runtime/src/apis.rs\<close> hands on is theirs; much of \<open>configs/mod.rs\<close> and \<open>lib.rs\<close> of the runtime
  selects library types, which computes nothing here. Of \<open>service.rs\<close> the calls that only build
  values are left out, of \<open>Cli\<close> the parsing. The benchmarks of the pallets and the other tests, codec
  derivations, weights of other pallets, printed wording, clocks and hash rates are left out as well.
  \<open>consensus.rs\<close> and \<open>rpc.rs\<close> of the consensus pallet are not in the crate's module tree; what they
  compute is modelled all the same.
\<close>

end
